theory Spec2Isabelle
  imports Main "HOL-Library.Product_Lexorder" "HOL-Library.Multiset" "HOL-Library.Sublist"
begin

section \<open>Data model\<close>

text \<open>
  The Django models of the apps \<^verbatim>\<open>users\<close>, \<^verbatim>\<open>teams\<close>, \<^verbatim>\<open>tournaments\<close> and
  \<^verbatim>\<open>matches\<close>. A model class is a record, a table a list of rows in the order the
  database returns them, a nullable column an option, a \<^verbatim>\<open>CharField\<close> a string and a
  \<^verbatim>\<open>PositiveIntegerField\<close> a natural number. Primary keys (integers and UUIDs alike) are
  natural numbers. Record fields carry a short prefix of their model, since several models
  share column names (\<^verbatim>\<open>home_team\<close>, \<^verbatim>\<open>goals_scored\<close>, \<^verbatim>\<open>status\<close>).
\<close>

type_synonym user_id = nat
type_synonym club_id = nat
type_synonym team_id = nat
type_synonym player_id = nat
type_synonym tournament_id = nat
type_synonym group_id = nat
type_synonym match_id = nat
type_synonym datetime = int

text \<open>The exceptions the modelled code raises, and the HTTP error responses it returns.\<close>

datatype error =
    ValidationError
  | PermissionDenied
  | NameError
  | Http404
  | DoesNotExist
  | MultipleObjectsReturned
  | BadRequest
  | NotAuthenticated

text \<open>\<^verbatim>\<open>users.models.User\<close>; \<^verbatim>\<open>u_is_authenticated\<close> is false for the anonymous user.\<close>

record User =
  u_id :: user_id
  u_email :: string
  u_user_type :: string
  u_is_authenticated :: bool
  u_is_superuser :: bool
  u_is_active :: bool

definition is_admin_user :: "User \<Rightarrow> bool" where
  "is_admin_user user = (u_user_type user = ''admin'')"

record Club =
  c_id :: club_id
  c_owner :: "user_id option"

text \<open>
  \<^verbatim>\<open>teams.models.Team\<close> with its many-to-many relations \<^verbatim>\<open>assistant_coaches\<close> and
  \<^verbatim>\<open>followers\<close> as lists of user ids, and the reverse relation \<^verbatim>\<open>staff\<close> (the
  \<^verbatim>\<open>TeamStaff\<close> rows of the team) as pairs of a user id and the row's \<^verbatim>\<open>is_active\<close>.
\<close>

record Team =
  t_id :: team_id
  t_club :: club_id
  t_coach :: "user_id option"
  t_assistant_coaches :: "user_id list"
  t_followers :: "user_id list"
  t_staff :: "(user_id \<times> bool) list"

text \<open>\<^verbatim>\<open>teams.models.Player\<close>; \<^verbatim>\<open>p_pk\<close> is \<open>None\<close> on an instance not saved yet.\<close>

record Player =
  p_pk :: "player_id option"
  p_team :: team_id
  p_position :: string
  p_is_main_player :: bool
  p_is_active :: bool
  p_goals_scored :: nat
  p_assists :: nat
  p_yellow_cards :: nat
  p_red_cards :: nat
  p_minutes_played :: nat
  p_parent_email :: string
  p_parent2_email :: string

text \<open>\<^verbatim>\<open>matches.models.MatchLineup\<close>; \<^verbatim>\<open>ml_pk\<close> is \<open>None\<close> on an instance not saved yet.\<close>

record MatchLineup =
  ml_pk :: "nat option"
  ml_match :: match_id
  ml_team :: team_id
  ml_player :: player_id
  ml_position :: string
  ml_is_starter :: bool
  ml_is_captain :: bool
  ml_minutes_played :: nat
  ml_goals_scored :: nat
  ml_assists :: nat
  ml_yellow_cards :: nat
  ml_red_cards :: nat

text \<open>\<^verbatim>\<open>matches.models.MatchEvent\<close>.\<close>

record MatchEvent =
  ev_pk :: "nat option"
  ev_match :: match_id
  ev_team :: team_id
  ev_player :: player_id
  ev_event_type :: string
  ev_minute :: nat
  ev_created_by :: "user_id option"

record Tournament =
  tn_id :: tournament_id
  tn_organizer :: user_id
  tn_points_per_win :: nat
  tn_points_per_draw :: nat
  tn_points_per_loss :: nat

text \<open>\<^verbatim>\<open>tournaments.models.TournamentGroup\<close>; its key is an integer.\<close>

record TournamentGroup =
  gr_id :: group_id
  gr_tournament :: tournament_id

record TournamentPhase =
  ph_id :: nat
  ph_tournament :: tournament_id
  ph_phase_type :: string

record TeamGroup =
  tg_id :: nat
  tg_team :: team_id
  tg_group :: group_id
  tg_is_qualified :: bool

text \<open>\<^verbatim>\<open>tournaments.models.Match\<close>, the tournament-scoped match.\<close>

record TournamentMatch =
  tm_id :: match_id
  tm_tournament :: tournament_id
  tm_group :: "group_id option"
  tm_phase :: "TournamentPhase option"
  tm_home_team :: team_id
  tm_away_team :: team_id
  tm_match_date :: datetime
  tm_venue :: string
  tm_home_score :: nat
  tm_away_score :: nat
  tm_status :: string
  tm_match_number :: "nat option"
  tm_round_number :: nat

text \<open>\<^verbatim>\<open>matches.models.Match\<close>, imported as \<^verbatim>\<open>GlobalMatch\<close> by the synchronizer.\<close>

record GlobalMatch =
  gm_id :: match_id
  gm_tournament :: "tournament_id option"
  gm_phase :: "TournamentPhase option"
  gm_group :: "group_id option"
  gm_home_team :: team_id
  gm_away_team :: team_id
  gm_scheduled_date :: datetime
  gm_actual_start_time :: "datetime option"
  gm_actual_end_time :: "datetime option"
  gm_venue_name :: string
  gm_status :: string
  gm_match_type :: string
  gm_home_score :: nat
  gm_away_score :: nat
  gm_home_score_half_time :: nat
  gm_away_score_half_time :: nat
  gm_home_score_extra_time :: "nat option"
  gm_away_score_extra_time :: "nat option"
  gm_home_score_penalties :: "nat option"
  gm_away_score_penalties :: "nat option"
  gm_referee :: "user_id option"
  gm_assistant_referee_1 :: "user_id option"
  gm_assistant_referee_2 :: "user_id option"
  gm_weather_conditions :: string
  gm_attendance :: "nat option"
  gm_notes :: string
  gm_round_number :: nat
  gm_created_by :: "user_id option"
  gm_last_updated_by :: "user_id option"

section \<open>Derived winner of a global match\<close>

text \<open>
  \<^verbatim>\<open>matches.models.Match.winner\<close>: \<open>None\<close> unless the match is finished; then the
  penalty scores decide when both are set and differ, else the extra-time scores when both
  are set and differ, else the normal score.
\<close>

definition winner :: "GlobalMatch \<Rightarrow> team_id option" where
  "winner self =
    (if gm_status self \<noteq> ''finished'' then None
     else
       (case (case (gm_home_score_penalties self, gm_away_score_penalties self) of
                (Some hp, Some ap) \<Rightarrow>
                  if hp > ap then Some (gm_home_team self)
                  else if ap > hp then Some (gm_away_team self)
                  else None
              | _ \<Rightarrow> None) of
          Some w \<Rightarrow> Some w
        | None \<Rightarrow>
          (case (case (gm_home_score_extra_time self, gm_away_score_extra_time self) of
                   (Some he, Some ae) \<Rightarrow>
                     if he > ae then Some (gm_home_team self)
                     else if ae > he then Some (gm_away_team self)
                     else None
                 | _ \<Rightarrow> None) of
             Some w \<Rightarrow> Some w
           | None \<Rightarrow>
               if gm_home_score self > gm_away_score self then Some (gm_home_team self)
               else if gm_away_score self > gm_home_score self then Some (gm_away_team self)
               else None)))"

text \<open>A finished cup match for the examples: 1-1, 2-2 after extra time, 4-5 on penalties.\<close>

definition example_global_match :: GlobalMatch where
  "example_global_match =
    \<lparr> gm_id = 1, gm_tournament = Some 1, gm_phase = None, gm_group = None,
      gm_home_team = 10, gm_away_team = 20, gm_scheduled_date = 0,
      gm_actual_start_time = None, gm_actual_end_time = None, gm_venue_name = ''Stade'',
      gm_status = ''finished'', gm_match_type = ''final'',
      gm_home_score = 1, gm_away_score = 1,
      gm_home_score_half_time = 0, gm_away_score_half_time = 0,
      gm_home_score_extra_time = Some 2, gm_away_score_extra_time = Some 2,
      gm_home_score_penalties = Some 4, gm_away_score_penalties = Some 5,
      gm_referee = Some 7, gm_assistant_referee_1 = None, gm_assistant_referee_2 = None,
      gm_weather_conditions = ''sun'', gm_attendance = Some 300, gm_notes = ''note'',
      gm_round_number = 1, gm_created_by = None, gm_last_updated_by = None \<rparr>"

section \<open>Tournament/Match synchronizer\<close>

text \<open>
  \<^verbatim>\<open>tournaments/signals.py\<close>. A Python dict literal is an association list and
  \<^verbatim>\<open>d.get(k, default)\<close> a lookup with a default.
\<close>

definition dict_get :: "('k \<times> 'v) list \<Rightarrow> 'k \<Rightarrow> 'v \<Rightarrow> 'v" where
  "dict_get d k dflt = (case map_of d k of Some v \<Rightarrow> v | None \<Rightarrow> dflt)"

definition status_mapping :: "(string \<times> string) list" where
  "status_mapping =
    [(''scheduled'', ''scheduled''),
     (''live'', ''live''),
     (''finished'', ''finished''),
     (''postponed'', ''postponed''),
     (''cancelled'', ''cancelled'')]"

definition phase_type_mapping :: "(string \<times> string) list" where
  "phase_type_mapping =
    [(''group_stage'', ''group_stage''),
     (''round_16'', ''knockout''),
     (''quarter_final'', ''quarter_final''),
     (''semi_final'', ''semi_final''),
     (''final'', ''final''),
     (''third_place'', ''third_place'')]"

text \<open>The dict \<^verbatim>\<open>match_data\<close> passed as \<^verbatim>\<open>defaults\<close>: the mirrored fields.\<close>

record match_data =
  md_tournament :: tournament_id
  md_phase :: "TournamentPhase option"
  md_group :: "group_id option"
  md_home_team :: team_id
  md_away_team :: team_id
  md_scheduled_date :: datetime
  md_venue_name :: string
  md_home_score :: nat
  md_away_score :: nat
  md_status :: string
  md_match_type :: string

definition match_data_of :: "TournamentMatch \<Rightarrow> match_data" where
  "match_data_of instance =
    (let match_type =
           (case tm_phase instance of
              None \<Rightarrow> ''group_stage''
            | Some phase \<Rightarrow> dict_get phase_type_mapping (ph_phase_type phase) ''group_stage'')
     in \<lparr> md_tournament = tm_tournament instance,
          md_phase = tm_phase instance,
          md_group = tm_group instance,
          md_home_team = tm_home_team instance,
          md_away_team = tm_away_team instance,
          md_scheduled_date = tm_match_date instance,
          md_venue_name = tm_venue instance,
          md_home_score = tm_home_score instance,
          md_away_score = tm_away_score instance,
          md_status = dict_get status_mapping (tm_status instance) ''scheduled'',
          md_match_type = match_type \<rparr>)"

text \<open>
  \<^verbatim>\<open>QuerySet.update_or_create(id=..., defaults=...)\<close>: the row with that id gets every
  entry of \<^verbatim>\<open>defaults\<close> assigned and keeps its other columns; without such a row one is
  created from the id, the defaults and the model's field defaults. Several rows with the
  id make \<^verbatim>\<open>get\<close> raise \<^verbatim>\<open>MultipleObjectsReturned\<close>.
\<close>

definition set_defaults :: "match_data \<Rightarrow> GlobalMatch \<Rightarrow> GlobalMatch" where
  "set_defaults d g =
    g\<lparr> gm_tournament := Some (md_tournament d),
       gm_phase := md_phase d,
       gm_group := md_group d,
       gm_home_team := md_home_team d,
       gm_away_team := md_away_team d,
       gm_scheduled_date := md_scheduled_date d,
       gm_venue_name := md_venue_name d,
       gm_home_score := md_home_score d,
       gm_away_score := md_away_score d,
       gm_status := md_status d,
       gm_match_type := md_match_type d \<rparr>"

definition create_GlobalMatch :: "match_id \<Rightarrow> match_data \<Rightarrow> GlobalMatch" where
  "create_GlobalMatch i d =
    \<lparr> gm_id = i, gm_tournament = Some (md_tournament d), gm_phase = md_phase d,
      gm_group = md_group d, gm_home_team = md_home_team d, gm_away_team = md_away_team d,
      gm_scheduled_date = md_scheduled_date d,
      gm_actual_start_time = None, gm_actual_end_time = None,
      gm_venue_name = md_venue_name d,
      gm_status = md_status d, gm_match_type = md_match_type d,
      gm_home_score = md_home_score d, gm_away_score = md_away_score d,
      gm_home_score_half_time = 0, gm_away_score_half_time = 0,
      gm_home_score_extra_time = None, gm_away_score_extra_time = None,
      gm_home_score_penalties = None, gm_away_score_penalties = None,
      gm_referee = None, gm_assistant_referee_1 = None, gm_assistant_referee_2 = None,
      gm_weather_conditions = [], gm_attendance = None, gm_notes = [],
      gm_round_number = 1, gm_created_by = None, gm_last_updated_by = None \<rparr>"

definition update_or_create ::
  "match_id \<Rightarrow> match_data \<Rightarrow> GlobalMatch list \<Rightarrow> error + GlobalMatch list" where
  "update_or_create i defaults tbl =
    (case filter (\<lambda>g. gm_id g = i) tbl of
       [] \<Rightarrow> Inr (tbl @ [create_GlobalMatch i defaults])
     | [_] \<Rightarrow> Inr (map (\<lambda>g. if gm_id g = i then set_defaults defaults g else g) tbl)
     | _ \<Rightarrow> Inl MultipleObjectsReturned)"

text \<open>The \<^verbatim>\<open>post_save\<close> receiver of the tournament match.\<close>

definition sync_match_to_global ::
  "TournamentMatch \<Rightarrow> GlobalMatch list \<Rightarrow> error + GlobalMatch list" where
  "sync_match_to_global instance tbl =
    update_or_create (tm_id instance) (match_data_of instance) tbl"

text \<open>
  The \<^verbatim>\<open>post_delete\<close> receiver: \<^verbatim>\<open>GlobalMatch.objects.get(id=instance.id).delete()\<close>,
  with \<^verbatim>\<open>DoesNotExist\<close> caught and ignored.
\<close>

definition delete_global_match ::
  "TournamentMatch \<Rightarrow> GlobalMatch list \<Rightarrow> error + GlobalMatch list" where
  "delete_global_match instance tbl =
    (case filter (\<lambda>g. gm_id g = tm_id instance) tbl of
       [] \<Rightarrow> Inr tbl
     | [_] \<Rightarrow> Inr (filter (\<lambda>g. gm_id g \<noteq> tm_id instance) tbl)
     | _ \<Rightarrow> Inl MultipleObjectsReturned)"

text \<open>The status values a tournament match can hold (\<^verbatim>\<open>Match.STATUS_CHOICES\<close>).\<close>

definition STATUS_CHOICES :: "string list" where
  "STATUS_CHOICES = [''scheduled'', ''live'', ''finished'', ''postponed'', ''cancelled'']"

text \<open>
  What the specification calls the mirrored fields of a global match \<open>g\<close> with respect to
  a tournament match \<open>m\<close>, and the columns only the global match has.
\<close>

definition expected_match_type :: "TournamentPhase option \<Rightarrow> string" where
  "expected_match_type phase =
    (case phase of
       None \<Rightarrow> ''group_stage''
     | Some ph \<Rightarrow>
         if ph_phase_type ph = ''round_16'' then ''knockout''
         else if ph_phase_type ph \<in> {''quarter_final'', ''semi_final'', ''final'', ''third_place''}
         then ph_phase_type ph
         else ''group_stage'')"

definition mirrors :: "TournamentMatch \<Rightarrow> GlobalMatch \<Rightarrow> bool" where
  "mirrors m g \<longleftrightarrow>
     gm_id g = tm_id m \<and>
     gm_tournament g = Some (tm_tournament m) \<and>
     gm_phase g = tm_phase m \<and>
     gm_group g = tm_group m \<and>
     gm_home_team g = tm_home_team m \<and>
     gm_away_team g = tm_away_team m \<and>
     gm_scheduled_date g = tm_match_date m \<and>
     gm_venue_name g = tm_venue m \<and>
     gm_home_score g = tm_home_score m \<and>
     gm_away_score g = tm_away_score m \<and>
     gm_status g = tm_status m \<and>
     gm_match_type g = expected_match_type (tm_phase m)"

definition global_only ::
  "GlobalMatch \<Rightarrow>
     (user_id option \<times> user_id option \<times> user_id option) \<times>
     (nat option \<times> nat option \<times> nat option \<times> nat option \<times> nat \<times> nat) \<times>
     (nat option \<times> string \<times> string) \<times>
     (datetime option \<times> datetime option \<times> nat \<times> user_id option \<times> user_id option)" where
  "global_only g =
    ((gm_referee g, gm_assistant_referee_1 g, gm_assistant_referee_2 g),
     (gm_home_score_extra_time g, gm_away_score_extra_time g,
      gm_home_score_penalties g, gm_away_score_penalties g,
      gm_home_score_half_time g, gm_away_score_half_time g),
     (gm_attendance g, gm_notes g, gm_weather_conditions g),
     (gm_actual_start_time g, gm_actual_end_time g, gm_round_number g,
      gm_created_by g, gm_last_updated_by g))"

definition example_tournament_match :: TournamentMatch where
  "example_tournament_match =
    \<lparr> tm_id = 1, tm_tournament = 1, tm_group = None,
      tm_phase = Some \<lparr> ph_id = 3, ph_tournament = 1, ph_phase_type = ''round_16'' \<rparr>,
      tm_home_team = 10, tm_away_team = 20, tm_match_date = 5, tm_venue = ''Parc'',
      tm_home_score = 2, tm_away_score = 0, tm_status = ''live'',
      tm_match_number = None, tm_round_number = 1 \<rparr>"

definition example_global_table :: "GlobalMatch list" where
  "example_global_table = [example_global_match]"

section \<open>Standings engine\<close>

text \<open>
  \<^verbatim>\<open>TournamentGroup.get_standings\<close> (\<^verbatim>\<open>tournaments/models.py\<close>). A row of the result
  is the dict the method appends; its key \<^verbatim>\<open>position\<close> is absent (\<open>None\<close>) until the
  final loop assigns it.
\<close>

record standing =
  st_team :: team_id
  st_team_group :: TeamGroup
  st_played :: nat
  st_wins :: nat
  st_draws :: nat
  st_losses :: nat
  st_goals_scored :: nat
  st_goals_conceded :: nat
  st_goal_difference :: int
  st_points :: nat
  st_position :: "nat option"

text \<open>
  The body of the loop over the group's \<^verbatim>\<open>team_groups\<close>: \<^verbatim>\<open>count()\<close> is the length
  of the filtered list, and \<^verbatim>\<open>aggregate(Sum(...))['total'] or 0\<close> the sum of the column,
  0 for no rows.
\<close>

definition team_standing ::
  "group_id \<Rightarrow> Tournament \<Rightarrow> TournamentMatch list \<Rightarrow> TeamGroup \<Rightarrow> standing" where
  "team_standing self tournament matches team_group =
    (let team = tg_team team_group;
         home_matches = filter (\<lambda>m. tm_home_team m = team \<and> tm_group m = Some self \<and>
                                    tm_status m = ''finished'') matches;
         away_matches = filter (\<lambda>m. tm_away_team m = team \<and> tm_group m = Some self \<and>
                                    tm_status m = ''finished'') matches;
         wins = length (filter (\<lambda>m. tm_home_score m > tm_away_score m) home_matches) +
                length (filter (\<lambda>m. tm_away_score m > tm_home_score m) away_matches);
         draws = length (filter (\<lambda>m. tm_home_score m = tm_away_score m) home_matches) +
                 length (filter (\<lambda>m. tm_home_score m = tm_away_score m) away_matches);
         losses = length (filter (\<lambda>m. tm_home_score m < tm_away_score m) home_matches) +
                  length (filter (\<lambda>m. tm_away_score m < tm_home_score m) away_matches);
         goals_scored = sum_list (map tm_home_score home_matches) +
                        sum_list (map tm_away_score away_matches);
         goals_conceded = sum_list (map tm_away_score home_matches) +
                          sum_list (map tm_home_score away_matches);
         points = wins * tn_points_per_win tournament +
                  draws * tn_points_per_draw tournament +
                  losses * tn_points_per_loss tournament
     in \<lparr> st_team = team,
          st_team_group = team_group,
          st_played = wins + draws + losses,
          st_wins = wins,
          st_draws = draws,
          st_losses = losses,
          st_goals_scored = goals_scored,
          st_goals_conceded = goals_conceded,
          st_goal_difference = int goals_scored - int goals_conceded,
          st_points = points,
          st_position = None \<rparr>)"

text \<open>
  The key of \<^verbatim>\<open>standings.sort\<close>: a tuple of negated integers, compared
  lexicographically. Python's \<^verbatim>\<open>list.sort\<close> is stable, as \<^const>\<open>sort_key\<close> is.
\<close>

definition standings_key :: "standing \<Rightarrow> int \<times> int \<times> int" where
  "standings_key x = (- int (st_points x), - st_goal_difference x, - int (st_goals_scored x))"

definition get_standings ::
  "group_id \<Rightarrow> Tournament \<Rightarrow> TeamGroup list \<Rightarrow> TournamentMatch list \<Rightarrow> standing list" where
  "get_standings self tournament team_groups matches =
    (let teams = filter (\<lambda>tg. tg_group tg = self) team_groups;
         standings = map (team_standing self tournament matches) teams;
         standings = sort_key standings_key standings
     in map (\<lambda>(idx, standing). standing\<lparr>st_position := Some idx\<rparr>)
            (zip [1..<Suc (length standings)] standings))"

text \<open>
  The words of the specification: the finished matches of a group, the triple a table is
  ranked by, and a row without its position.
\<close>

definition finished_in_group :: "group_id \<Rightarrow> TournamentMatch list \<Rightarrow> TournamentMatch list" where
  "finished_in_group g matches =
     filter (\<lambda>m. tm_group m = Some g \<and> tm_status m = ''finished'') matches"

definition rank_key :: "standing \<Rightarrow> int \<times> int \<times> int" where
  "rank_key r = (int (st_points r), st_goal_difference r, int (st_goals_scored r))"

definition unranked :: "standing \<Rightarrow> standing" where
  "unranked r = r\<lparr>st_position := None\<rparr>"

text \<open>
  Group 1 of a tournament with the default 3/1/0 points: teams 1, 2 and 3;
  1 beat 2 by 2-1, 2 and 3 drew 1-1, and a third match is not finished.
\<close>

definition example_tournament :: Tournament where
  "example_tournament =
    \<lparr> tn_id = 1, tn_organizer = 1, tn_points_per_win = 3, tn_points_per_draw = 1,
      tn_points_per_loss = 0 \<rparr>"

definition example_team_groups :: "TeamGroup list" where
  "example_team_groups =
    [\<lparr> tg_id = 1, tg_team = 1, tg_group = 1, tg_is_qualified = False \<rparr>,
     \<lparr> tg_id = 2, tg_team = 2, tg_group = 1, tg_is_qualified = False \<rparr>,
     \<lparr> tg_id = 3, tg_team = 3, tg_group = 1, tg_is_qualified = False \<rparr>,
     \<lparr> tg_id = 4, tg_team = 4, tg_group = 2, tg_is_qualified = False \<rparr>]"

definition example_group_match ::
  "match_id \<Rightarrow> team_id \<Rightarrow> team_id \<Rightarrow> nat \<Rightarrow> nat \<Rightarrow> string \<Rightarrow> TournamentMatch" where
  "example_group_match i h a hs as s =
    \<lparr> tm_id = i, tm_tournament = 1, tm_group = Some 1, tm_phase = None,
      tm_home_team = h, tm_away_team = a, tm_match_date = 0, tm_venue = [],
      tm_home_score = hs, tm_away_score = as, tm_status = s,
      tm_match_number = None, tm_round_number = 1 \<rparr>"

definition example_group_matches :: "TournamentMatch list" where
  "example_group_matches =
    [example_group_match 1 1 2 2 1 ''finished'',
     example_group_match 2 2 3 1 1 ''finished'',
     example_group_match 3 3 1 5 0 ''live'']"

text \<open>
  The row the specification describes for a team: its counters scan the finished matches
  of the group in which the team played home or away, and the derived columns follow
  from them.
\<close>

definition standing_row_correct :: "group_id \<Rightarrow> Tournament \<Rightarrow> TournamentMatch list \<Rightarrow> standing \<Rightarrow> bool" where
  "standing_row_correct g tn ms r \<longleftrightarrow>
     (let F = finished_in_group g ms; t = st_team r in
      t = tg_team (st_team_group r) \<and>
      st_wins r = length (filter (\<lambda>m. tm_home_team m = t \<and> tm_home_score m > tm_away_score m) F) +
                  length (filter (\<lambda>m. tm_away_team m = t \<and> tm_away_score m > tm_home_score m) F) \<and>
      st_draws r = length (filter (\<lambda>m. tm_home_team m = t \<and> tm_home_score m = tm_away_score m) F) +
                   length (filter (\<lambda>m. tm_away_team m = t \<and> tm_home_score m = tm_away_score m) F) \<and>
      st_losses r = length (filter (\<lambda>m. tm_home_team m = t \<and> tm_home_score m < tm_away_score m) F) +
                    length (filter (\<lambda>m. tm_away_team m = t \<and> tm_away_score m < tm_home_score m) F) \<and>
      st_goals_scored r = sum_list (map tm_home_score (filter (\<lambda>m. tm_home_team m = t) F)) +
                          sum_list (map tm_away_score (filter (\<lambda>m. tm_away_team m = t) F)) \<and>
      st_goals_conceded r = sum_list (map tm_away_score (filter (\<lambda>m. tm_home_team m = t) F)) +
                            sum_list (map tm_home_score (filter (\<lambda>m. tm_away_team m = t) F)) \<and>
      st_played r = st_wins r + st_draws r + st_losses r \<and>
      st_goal_difference r = int (st_goals_scored r) - int (st_goals_conceded r) \<and>
      st_points r = st_wins r * tn_points_per_win tn + st_draws r * tn_points_per_draw tn +
                    st_losses r * tn_points_per_loss tn)"

section \<open>Tables\<close>

text \<open>
  \<^verbatim>\<open>Model.objects.get(...)\<close>: the one row that matches, \<^verbatim>\<open>DoesNotExist\<close> for none
  and \<^verbatim>\<open>MultipleObjectsReturned\<close> for several.
\<close>

definition objects_get :: "('a \<Rightarrow> bool) \<Rightarrow> 'a list \<Rightarrow> error + 'a" where
  "objects_get P tbl =
    (case filter P tbl of
       [] \<Rightarrow> Inl DoesNotExist
     | [x] \<Rightarrow> Inr x
     | _ \<Rightarrow> Inl MultipleObjectsReturned)"

text \<open>
  Writing a saved instance: a row with the instance's key is replaced, an instance without
  a key (or whose key no row has) is inserted, under the next free key when it has none.
\<close>

definition next_pk :: "('a \<Rightarrow> nat option) \<Rightarrow> 'a list \<Rightarrow> nat" where
  "next_pk pk tbl = Suc (foldr max (map (\<lambda>r. case pk r of None \<Rightarrow> 0 | Some k \<Rightarrow> k) tbl) 0)"

definition write_row ::
  "('a \<Rightarrow> nat option) \<Rightarrow> (nat option \<Rightarrow> 'a \<Rightarrow> 'a) \<Rightarrow> 'a \<Rightarrow> 'a list \<Rightarrow> 'a list" where
  "write_row pk set_pk inst tbl =
    (case pk inst of
       None \<Rightarrow> tbl @ [set_pk (Some (next_pk pk tbl)) inst]
     | Some k \<Rightarrow>
         if \<exists>r \<in> set tbl. pk r = Some k
         then map (\<lambda>r. if pk r = Some k then inst else r) tbl
         else tbl @ [inst])"

section \<open>Roster: the cap of eleven main players\<close>

text \<open>
  \<^verbatim>\<open>Player.clean\<close> and \<^verbatim>\<open>Player.save\<close> (\<^verbatim>\<open>teams/models.py\<close>). The module imports
  \<^verbatim>\<open>models\<close>, \<^verbatim>\<open>get_user_model\<close>, three validators, \<^verbatim>\<open>Tournament\<close> and
  \<^verbatim>\<open>TournamentGroup\<close>; the name \<^verbatim>\<open>ValidationError\<close> is bound nowhere in it, so
  evaluating \<^verbatim>\<open>raise ValidationError({...})\<close> raises \<^verbatim>\<open>NameError\<close>. The field and
  uniqueness validators that \<^verbatim>\<open>full_clean\<close> runs besides \<^verbatim>\<open>clean\<close> are taken to pass.
\<close>

definition Player_clean :: "Player \<Rightarrow> Player list \<Rightarrow> error + unit" where
  "Player_clean self players =
    (if p_is_main_player self then
       (let main_players_count =
              length (filter (\<lambda>p. p_team p = p_team self \<and> p_is_main_player p \<and>
                                   p_is_active p \<and> p_pk p \<noteq> p_pk self) players)
        in if main_players_count \<ge> 11 then Inl NameError else Inr ())
     else Inr ())"

definition Player_save :: "Player \<Rightarrow> Player list \<Rightarrow> error + Player list" where
  "Player_save self players =
    (case Player_clean self players of
       Inl e \<Rightarrow> Inl e
     | Inr _ \<Rightarrow> Inr (write_row p_pk (\<lambda>k p. p\<lparr>p_pk := k\<rparr>) self players))"

section \<open>Stat propagation from lineups to players\<close>

text \<open>
  The \<^verbatim>\<open>pre_save\<close> receiver \<^verbatim>\<open>update_player_stats_on_lineup_change\<close>
  (\<^verbatim>\<open>matches/signals.py\<close>). Its arithmetic on the player first: the five differences
  between the instance and the stored row are added to the player's totals, and each total
  is then floored at zero.
\<close>

definition apply_lineup_diff :: "MatchLineup \<Rightarrow> MatchLineup \<Rightarrow> Player \<Rightarrow> Player" where
  "apply_lineup_diff instance old_lineup player =
    (let goals_diff = int (ml_goals_scored instance) - int (ml_goals_scored old_lineup);
         assists_diff = int (ml_assists instance) - int (ml_assists old_lineup);
         yellow_cards_diff = int (ml_yellow_cards instance) - int (ml_yellow_cards old_lineup);
         red_cards_diff = int (ml_red_cards instance) - int (ml_red_cards old_lineup);
         minutes_diff = int (ml_minutes_played instance) - int (ml_minutes_played old_lineup)
     in player\<lparr>
          p_goals_scored := nat (max 0 (int (p_goals_scored player) + goals_diff)),
          p_assists := nat (max 0 (int (p_assists player) + assists_diff)),
          p_yellow_cards := nat (max 0 (int (p_yellow_cards player) + yellow_cards_diff)),
          p_red_cards := nat (max 0 (int (p_red_cards player) + red_cards_diff)),
          p_minutes_played := nat (max 0 (int (p_minutes_played player) + minutes_diff)) \<rparr>)"

text \<open>
  The receiver on the tables: nothing happens for an instance without a key or without a
  stored row; otherwise the instance's player is loaded, updated and saved.
\<close>

definition update_player_stats_on_lineup_change ::
  "MatchLineup \<Rightarrow> MatchLineup list \<Rightarrow> Player list \<Rightarrow> error + Player list" where
  "update_player_stats_on_lineup_change instance lineups players =
    (case ml_pk instance of
       None \<Rightarrow> Inr players
     | Some pk \<Rightarrow>
         (case objects_get (\<lambda>l. ml_pk l = Some pk) lineups of
            Inl DoesNotExist \<Rightarrow> Inr players
          | Inl e \<Rightarrow> Inl e
          | Inr old_lineup \<Rightarrow>
              (case objects_get (\<lambda>p. p_pk p = Some (ml_player instance)) players of
                 Inl e \<Rightarrow> Inl e
               | Inr player \<Rightarrow>
                   Player_save (apply_lineup_diff instance old_lineup player) players)))"

text \<open>\<^verbatim>\<open>MatchLineup.save\<close>: the receiver runs first, then the row is written.\<close>

definition MatchLineup_save ::
  "MatchLineup \<Rightarrow> MatchLineup list \<times> Player list \<Rightarrow> error + MatchLineup list \<times> Player list" where
  "MatchLineup_save instance db =
    (case update_player_stats_on_lineup_change instance (fst db) (snd db) of
       Inl e \<Rightarrow> Inl e
     | Inr players \<Rightarrow>
         Inr (write_row ml_pk (\<lambda>k l. l\<lparr>ml_pk := k\<rparr>) instance (fst db), players))"

text \<open>
  A player's five totals and a lineup row's five counters, in the receiver's order, and
  the successive updates a player receives: the pairs of the stored row and the instance
  being saved, in the order of the saves.
\<close>

definition player_stats :: "Player \<Rightarrow> int list" where
  "player_stats p =
    [int (p_goals_scored p), int (p_assists p), int (p_yellow_cards p),
     int (p_red_cards p), int (p_minutes_played p)]"

definition lineup_stats :: "MatchLineup \<Rightarrow> int list" where
  "lineup_stats l =
    [int (ml_goals_scored l), int (ml_assists l), int (ml_yellow_cards l),
     int (ml_red_cards l), int (ml_minutes_played l)]"

definition propagate :: "Player \<Rightarrow> (MatchLineup \<times> MatchLineup) list \<Rightarrow> Player" where
  "propagate p edits = foldl (\<lambda>p (old_lineup, instance). apply_lineup_diff instance old_lineup p) p edits"

definition deltas :: "nat \<Rightarrow> (MatchLineup \<times> MatchLineup) list \<Rightarrow> int list" where
  "deltas i edits = map (\<lambda>(old_lineup, instance). lineup_stats instance ! i - lineup_stats old_lineup ! i) edits"

text \<open>Adding the deltas one by one, flooring at zero after each.\<close>

fun floored_sum :: "int \<Rightarrow> int list \<Rightarrow> int" where
  "floored_sum x [] = x"
| "floored_sum x (d # ds) = floored_sum (max 0 (x + d)) ds"

text \<open>
  Player 1 of team 1 with no career goals, and his lineup row 1 in match 1, created with
  two goals (the receiver does nothing on creation).
\<close>

definition example_player :: Player where
  "example_player =
    \<lparr> p_pk = Some 1, p_team = 1, p_position = ''AC'', p_is_main_player = True,
      p_is_active = True, p_goals_scored = 0, p_assists = 0, p_yellow_cards = 0,
      p_red_cards = 0, p_minutes_played = 0, p_parent_email = ''a@x.org'',
      p_parent2_email = ''b@x.org'' \<rparr>"

definition example_lineup :: MatchLineup where
  "example_lineup =
    \<lparr> ml_pk = Some 1, ml_match = 1, ml_team = 1, ml_player = 1, ml_position = ''ST'',
      ml_is_starter = True, ml_is_captain = False, ml_minutes_played = 0,
      ml_goals_scored = 2, ml_assists = 0, ml_yellow_cards = 0, ml_red_cards = 0 \<rparr>"

text \<open>A sequence of lineup saves; the first error ends it.\<close>

fun save_lineups ::
  "MatchLineup list \<Rightarrow> MatchLineup list \<times> Player list \<Rightarrow> error + MatchLineup list \<times> Player list" where
  "save_lineups [] db = Inr db"
| "save_lineups (instance # rest) db =
     (case MatchLineup_save instance db of
        Inl e \<Rightarrow> Inl e
      | Inr db' \<Rightarrow> save_lineups rest db')"

text \<open>A second row of the same player, in match 2, with no goal yet.\<close>

definition example_lineup2 :: MatchLineup where
  "example_lineup2 = example_lineup\<lparr>ml_pk := Some 2, ml_match := 2, ml_goals_scored := 0\<rparr>"

text \<open>
  What a run of \<^verbatim>\<open>save_lineups\<close> is compared with. The lineup table with a saved row in
  the place of the stored row of the same key; the player table with a player in the place
  of the row of a given key; and, for a sequence of saves, the pairs of the row stored at
  the moment of each save and the instance saved, in the order of the saves.
\<close>

definition store :: "MatchLineup \<Rightarrow> MatchLineup list \<Rightarrow> MatchLineup list" where
  "store u tbl = map (\<lambda>l. if ml_pk l = ml_pk u then u else l) tbl"

definition set_player :: "player_id \<Rightarrow> Player \<Rightarrow> Player list \<Rightarrow> Player list" where
  "set_player pid p players = map (\<lambda>r. if p_pk r = Some pid then p else r) players"

fun stored_and_new :: "MatchLineup list \<Rightarrow> MatchLineup list \<Rightarrow> (MatchLineup \<times> MatchLineup) list" where
  "stored_and_new tbl [] = []"
| "stored_and_new tbl (u # us) =
     map (\<lambda>l. (l, u)) (filter (\<lambda>l. ml_pk l = ml_pk u) tbl) @ stored_and_new (store u tbl) us"

text \<open>
  The tables a run starts from: keys are unique in both, the player is a row of the player
  table, and saving him passes \<^verbatim>\<open>Player.clean\<close> (his team has no eleven other active main
  players, or he is not a main player). An update of an existing row of the player: the
  instance has a key, a row of the lineup table has that key, and the instance is the
  player's.
\<close>

definition stat_db_ok :: "player_id \<Rightarrow> MatchLineup list \<Rightarrow> Player list \<Rightarrow> Player \<Rightarrow> bool" where
  "stat_db_ok pid lineups players p \<longleftrightarrow>
     distinct (map ml_pk lineups) \<and> distinct (map p_pk players) \<and>
     p \<in> set players \<and> p_pk p = Some pid \<and> Player_clean p players = Inr ()"

definition existing_update :: "player_id \<Rightarrow> MatchLineup list \<Rightarrow> MatchLineup \<Rightarrow> bool" where
  "existing_update pid lineups u \<longleftrightarrow>
     ml_player u = pid \<and> ml_pk u \<noteq> None \<and> ml_pk u \<in> ml_pk ` set lineups"

text \<open>
  The player's five totals read from the player table after the saves: nothing when a save
  raised or the player is not in the table.
\<close>

definition career_after ::
  "player_id \<Rightarrow> MatchLineup list \<Rightarrow> MatchLineup list \<times> Player list \<Rightarrow> int list option" where
  "career_after pid us db =
    (case save_lineups us db of
       Inl e \<Rightarrow> None
     | Inr db' \<Rightarrow> map_option player_stats (find (\<lambda>r. p_pk r = Some pid) (snd db')))"

text \<open>No running total of the deltas, added to the initial value, goes below zero.\<close>

definition running_totals_ok :: "int \<Rightarrow> int list \<Rightarrow> bool" where
  "running_totals_ok x ds \<longleftrightarrow> (\<forall>n \<in> set [0..<Suc (length ds)]. 0 \<le> x + sum_list (take n ds))"

text \<open>
  Team 1 with eleven active main players (keys 1 to 11), and a twelfth main player of the
  team about to be created.
\<close>

definition example_roster :: "Player list" where
  "example_roster = map (\<lambda>k. example_player\<lparr>p_pk := Some k\<rparr>) [1..<12]"

definition example_twelfth :: Player where
  "example_twelfth = example_player\<lparr>p_pk := None\<rparr>"

section \<open>Permission checks shared by the match views\<close>

text \<open>
  \<^verbatim>\<open>get_object_or_404\<close> turns \<^verbatim>\<open>DoesNotExist\<close> into \<^verbatim>\<open>Http404\<close>. A foreign key
  is followed by looking the row up; \<^verbatim>\<open>user.coached_teams\<close> is the reverse relation
  of \<^verbatim>\<open>Team.coach\<close>.
\<close>

definition get_object_or_404 :: "('a \<Rightarrow> bool) \<Rightarrow> 'a list \<Rightarrow> error + 'a" where
  "get_object_or_404 P tbl =
    (case objects_get P tbl of
       Inl DoesNotExist \<Rightarrow> Inl Http404
     | Inl e \<Rightarrow> Inl e
     | Inr x \<Rightarrow> Inr x)"

definition club_owner :: "Club list \<Rightarrow> club_id \<Rightarrow> user_id option" where
  "club_owner clubs cid =
    (case find (\<lambda>c. c_id c = cid) clubs of None \<Rightarrow> None | Some c \<Rightarrow> c_owner c)"

definition coached_teams :: "User \<Rightarrow> Team list \<Rightarrow> Team list" where
  "coached_teams user teams = filter (\<lambda>t. t_coach t = Some (u_id user)) teams"

text \<open>
  The check written out in every lineup, event and statistics view of
  \<^verbatim>\<open>matches/views.py\<close>, on a team object: a staff user must own the team's club, any
  other user who is not admin must coach the team.
\<close>

definition team_permission :: "User \<Rightarrow> Team list \<Rightarrow> Club list \<Rightarrow> Team \<Rightarrow> error + unit" where
  "team_permission user teams clubs team =
    (if u_user_type user \<noteq> ''admin'' then
       (if u_user_type user = ''staff'' then
          (if \<not> (club_owner clubs (t_club team) = Some (u_id user))
           then Inl PermissionDenied else Inr ())
        else
          (if t_coach team \<noteq> Some (u_id user) \<and> team \<notin> set (coached_teams user teams)
           then Inl PermissionDenied else Inr ()))
     else Inr ())"

text \<open>The same check on a team id of the request: the team is loaded for non-admins only.\<close>

definition team_id_permission ::
  "User \<Rightarrow> Team list \<Rightarrow> Club list \<Rightarrow> team_id \<Rightarrow> error + unit" where
  "team_id_permission user teams clubs team_id =
    (if u_user_type user \<noteq> ''admin'' then
       (case get_object_or_404 (\<lambda>t. t_id t = team_id) teams of
          Inl e \<Rightarrow> Inl e
        | Inr team \<Rightarrow> team_permission user teams clubs team)
     else Inr ())"

section \<open>Bulk replacement of a lineup\<close>

text \<open>
  \<^verbatim>\<open>SetMatchLineupView.post\<close>. The request carries the team and the two lists of
  entries. The method reads only \<^verbatim>\<open>team\<close> from it: after the permission check and the
  deletion of the existing rows, the loop header \<^verbatim>\<open>for entry in starters + substitutes\<close>
  names two variables that are bound nowhere (no assignment in the method, no module-level
  name), which raises \<^verbatim>\<open>NameError\<close>. The method opens no transaction. The result is
  the response or error together with the lineup table afterwards.
\<close>

record lineup_entry =
  le_player :: player_id
  le_position :: string
  le_minutes_played :: "nat option"

record set_lineup_request =
  rq_team :: "team_id option"
  rq_starters :: "lineup_entry list"
  rq_substitutes :: "lineup_entry list"

definition SetMatchLineupView_post ::
  "User \<Rightarrow> match_id \<Rightarrow> set_lineup_request \<Rightarrow> GlobalMatch list \<Rightarrow> Team list \<Rightarrow> Club list \<Rightarrow>
   MatchLineup list \<Rightarrow> (error + MatchLineup list) \<times> MatchLineup list" where
  "SetMatchLineupView_post user match_id request matches teams clubs lineups =
    (case get_object_or_404 (\<lambda>m. gm_id m = match_id) matches of
       Inl e \<Rightarrow> (Inl e, lineups)
     | Inr match \<Rightarrow>
         (case rq_team request of
            None \<Rightarrow> (Inl BadRequest, lineups)
          | Some team_id \<Rightarrow>
              (case team_id_permission user teams clubs team_id of
                 Inl e \<Rightarrow> (Inl e, lineups)
               | Inr _ \<Rightarrow>
                   (let lineups' = filter (\<lambda>l. \<not> (ml_match l = match_id \<and> ml_team l = team_id)) lineups
                    in (Inl NameError, lineups')))))"

text \<open>
  What the specification asks of the operation: the rows of the pair (match, team) after a
  successful call are the submitted entries, the starters flagged.
\<close>

definition submitted_rows :: "match_id \<Rightarrow> team_id \<Rightarrow> set_lineup_request \<Rightarrow> MatchLineup list" where
  "submitted_rows match_id team_id request =
    map (\<lambda>entry.
          \<lparr> ml_pk = None, ml_match = match_id, ml_team = team_id, ml_player = le_player entry,
            ml_position = le_position entry,
            ml_is_starter = (entry \<in> set (rq_starters request)), ml_is_captain = False,
            ml_minutes_played = (case le_minutes_played entry of None \<Rightarrow> 0 | Some n \<Rightarrow> n),
            ml_goals_scored = 0, ml_assists = 0, ml_yellow_cards = 0, ml_red_cards = 0 \<rparr>)
        (rq_starters request @ rq_substitutes request)"

text \<open>Users, clubs and teams for the examples.\<close>

definition example_user :: "user_id \<Rightarrow> string \<Rightarrow> string \<Rightarrow> User" where
  "example_user i ty email =
    \<lparr> u_id = i, u_email = email, u_user_type = ty, u_is_authenticated = True,
      u_is_superuser = False, u_is_active = True \<rparr>"

definition example_team :: "team_id \<Rightarrow> club_id \<Rightarrow> user_id option \<Rightarrow> user_id list \<Rightarrow> Team" where
  "example_team i club coach followers =
    \<lparr> t_id = i, t_club = club, t_coach = coach, t_assistant_coaches = [],
      t_followers = followers, t_staff = [] \<rparr>"

definition example_clubs :: "Club list" where
  "example_clubs = [\<lparr> c_id = 1, c_owner = Some 2 \<rparr>, \<lparr> c_id = 2, c_owner = None \<rparr>]"

definition example_teams :: "Team list" where
  "example_teams =
    [example_team 10 1 None [], example_team 20 2 None [],
     example_team 1 1 None [5], example_team 2 2 None [],
     example_team 3 2 (Some 5) [], example_team 4 2 None []]"

definition example_set_lineup_request :: set_lineup_request where
  "example_set_lineup_request =
    \<lparr> rq_team = Some 1,
      rq_starters = [\<lparr> le_player = 1, le_position = ''ST'', le_minutes_played = None \<rparr>],
      rq_substitutes = [\<lparr> le_player = 2, le_position = ''SUB'', le_minutes_played = None \<rparr>] \<rparr>"

section \<open>Match lifecycle\<close>

subsection \<open>The object permission \<^verbatim>\<open>IsMatchCoachOrAdmin\<close>\<close>

text \<open>
  \<^verbatim>\<open>IsMatchCoachOrAdmin.has_object_permission\<close> (\<^verbatim>\<open>users/permissions.py\<close>) for a match
  object: admins pass; otherwise the user must be coach, club owner, assistant coach or
  active staff of the home or the away team.
\<close>

definition is_authorized_for_team :: "User \<Rightarrow> Club list \<Rightarrow> Team option \<Rightarrow> bool" where
  "is_authorized_for_team user clubs team =
    (case team of
       None \<Rightarrow> False
     | Some t \<Rightarrow>
         if t_coach t = Some (u_id user) then True
         else if club_owner clubs (t_club t) = Some (u_id user) then True
         else if u_id user \<in> set (t_assistant_coaches t) then True
         else if \<exists>s \<in> set (t_staff t). fst s = u_id user \<and> snd s then True
         else False)"

definition IsMatchCoachOrAdmin_has_object_permission ::
  "User \<Rightarrow> Team list \<Rightarrow> Club list \<Rightarrow> team_id \<Rightarrow> team_id \<Rightarrow> bool" where
  "IsMatchCoachOrAdmin_has_object_permission user teams clubs home away =
    (if \<not> u_is_authenticated user then False
     else if is_admin_user user then True
     else is_authorized_for_team user clubs (find (\<lambda>t. t_id t = home) teams) \<or>
          is_authorized_for_team user clubs (find (\<lambda>t. t_id t = away) teams))"

subsection \<open>Global match: the management views of \<^verbatim>\<open>matches/views.py\<close>\<close>

text \<open>
  The permission block the five views share: an admin passes; another user must be the
  creator of the match or, when the match has no creator, own the home team's club (staff)
  or coach the home team.
\<close>

definition manage_permission ::
  "User \<Rightarrow> Team list \<Rightarrow> Club list \<Rightarrow> GlobalMatch \<Rightarrow> error + unit" where
  "manage_permission user teams clubs match =
    (if u_user_type user \<noteq> ''admin'' then
       (if gm_created_by match \<noteq> None \<and> gm_created_by match \<noteq> Some (u_id user)
        then Inl PermissionDenied
        else if gm_created_by match = None then
          (case find (\<lambda>t. t_id t = gm_home_team match) teams of
             None \<Rightarrow> Inl DoesNotExist
           | Some home_team \<Rightarrow>
               if u_user_type user = ''staff'' then
                 (if \<not> (club_owner clubs (t_club home_team) = Some (u_id user))
                  then Inl PermissionDenied else Inr ())
               else
                 (if t_coach home_team \<noteq> Some (u_id user) \<and>
                     home_team \<notin> set (coached_teams user teams)
                  then Inl PermissionDenied else Inr ()))
        else Inr ())
     else Inr ())"

text \<open>
  The field \<^verbatim>\<open>new_date\<close> of a postpone or reschedule request: absent or empty, not in
  ISO 8601 format, or a date.
\<close>

datatype new_date = Missing | Malformed | IsoDate datetime

text \<open>
  Each view loads the match, runs the permission block and assigns the new status; none
  reads the current status. The argument \<open>now\<close> is \<^verbatim>\<open>timezone.now()\<close>. The result is the
  saved match.
\<close>

definition StartMatchView_post ::
  "User \<Rightarrow> datetime \<Rightarrow> Team list \<Rightarrow> Club list \<Rightarrow> GlobalMatch list \<Rightarrow> match_id \<Rightarrow> error + GlobalMatch" where
  "StartMatchView_post user now teams clubs matches match_id =
    (case get_object_or_404 (\<lambda>m. gm_id m = match_id) matches of
       Inl e \<Rightarrow> Inl e
     | Inr match \<Rightarrow>
         (case manage_permission user teams clubs match of
            Inl e \<Rightarrow> Inl e
          | Inr _ \<Rightarrow>
              Inr (match\<lparr> gm_actual_start_time := Some now, gm_status := ''live'',
                         gm_last_updated_by := Some (u_id user) \<rparr>)))"

definition FinishMatchView_post ::
  "User \<Rightarrow> datetime \<Rightarrow> Team list \<Rightarrow> Club list \<Rightarrow> GlobalMatch list \<Rightarrow> match_id \<Rightarrow> error + GlobalMatch" where
  "FinishMatchView_post user now teams clubs matches match_id =
    (case get_object_or_404 (\<lambda>m. gm_id m = match_id) matches of
       Inl e \<Rightarrow> Inl e
     | Inr match \<Rightarrow>
         (case manage_permission user teams clubs match of
            Inl e \<Rightarrow> Inl e
          | Inr _ \<Rightarrow>
              Inr (match\<lparr> gm_actual_end_time := Some now, gm_status := ''finished'',
                         gm_last_updated_by := Some (u_id user) \<rparr>)))"

definition PostponeMatchView_post ::
  "User \<Rightarrow> new_date \<Rightarrow> Team list \<Rightarrow> Club list \<Rightarrow> GlobalMatch list \<Rightarrow> match_id \<Rightarrow> error + GlobalMatch" where
  "PostponeMatchView_post user new_date teams clubs matches match_id =
    (case get_object_or_404 (\<lambda>m. gm_id m = match_id) matches of
       Inl e \<Rightarrow> Inl e
     | Inr match \<Rightarrow>
         (case manage_permission user teams clubs match of
            Inl e \<Rightarrow> Inl e
          | Inr _ \<Rightarrow>
              (case new_date of
                 Missing \<Rightarrow> Inl BadRequest
               | Malformed \<Rightarrow> Inl BadRequest
               | IsoDate d \<Rightarrow>
                   Inr (match\<lparr> gm_scheduled_date := d, gm_status := ''postponed'',
                              gm_last_updated_by := Some (u_id user) \<rparr>))))"

definition CancelMatchView_post ::
  "User \<Rightarrow> Team list \<Rightarrow> Club list \<Rightarrow> GlobalMatch list \<Rightarrow> match_id \<Rightarrow> error + GlobalMatch" where
  "CancelMatchView_post user teams clubs matches match_id =
    (case get_object_or_404 (\<lambda>m. gm_id m = match_id) matches of
       Inl e \<Rightarrow> Inl e
     | Inr match \<Rightarrow>
         (case manage_permission user teams clubs match of
            Inl e \<Rightarrow> Inl e
          | Inr _ \<Rightarrow>
              Inr (match\<lparr> gm_status := ''cancelled'',
                         gm_last_updated_by := Some (u_id user) \<rparr>)))"

definition RescheduleMatchView_post ::
  "User \<Rightarrow> new_date \<Rightarrow> Team list \<Rightarrow> Club list \<Rightarrow> GlobalMatch list \<Rightarrow> match_id \<Rightarrow> error + GlobalMatch" where
  "RescheduleMatchView_post user new_date teams clubs matches match_id =
    (case get_object_or_404 (\<lambda>m. gm_id m = match_id) matches of
       Inl e \<Rightarrow> Inl e
     | Inr match \<Rightarrow>
         (case manage_permission user teams clubs match of
            Inl e \<Rightarrow> Inl e
          | Inr _ \<Rightarrow>
              (case new_date of
                 Missing \<Rightarrow> Inl BadRequest
               | Malformed \<Rightarrow> Inl BadRequest
               | IsoDate d \<Rightarrow>
                   Inr (match\<lparr> gm_scheduled_date := d, gm_status := ''scheduled'',
                              gm_last_updated_by := Some (u_id user) \<rparr>))))"

text \<open>The two states the specification calls terminal.\<close>

definition terminal :: "string \<Rightarrow> bool" where
  "terminal s \<longleftrightarrow> s = ''finished'' \<or> s = ''cancelled''"

section \<open>Stat propagation from events to lineups\<close>

text \<open>
  The two ways a match event is created in \<^verbatim>\<open>matches/views.py\<close>. The state is the
  triple of the event, lineup and player tables; a view returns its outcome and the state
  afterwards (an exception after a write leaves the write in place: no view opens a
  transaction).
\<close>

type_synonym match_db = "MatchEvent list \<times> MatchLineup list \<times> Player list"

definition EVENT_TYPE_CHOICES :: "string list" where
  "EVENT_TYPE_CHOICES =
    [''goal'', ''own_goal'', ''penalty_goal'', ''yellow_card'', ''red_card'',
     ''substitution'', ''injury'', ''timeout'']"

text \<open>
  \<^verbatim>\<open>MatchEventSerializer.is_valid\<close>, as far as the model's fields decide it: the event
  type is one of the choices, the minute lies in 1..120, and team and player exist.
\<close>

definition MatchEventSerializer_is_valid :: "MatchEvent \<Rightarrow> Team list \<Rightarrow> Player list \<Rightarrow> bool" where
  "MatchEventSerializer_is_valid data teams players \<longleftrightarrow>
     ev_event_type data \<in> set EVENT_TYPE_CHOICES \<and>
     1 \<le> ev_minute data \<and> ev_minute data \<le> 120 \<and>
     (\<exists>t \<in> set teams. t_id t = ev_team data) \<and>
     (\<exists>p \<in> set players. p_pk p = Some (ev_player data))"

text \<open>The counter an event of the given type adds one to, on a lineup row.\<close>

definition update_lineup_for_event :: "string \<Rightarrow> MatchLineup \<Rightarrow> MatchLineup" where
  "update_lineup_for_event event_type lineup =
    (if event_type \<in> set [''goal'', ''penalty_goal'']
     then lineup\<lparr>ml_goals_scored := ml_goals_scored lineup + 1\<rparr>
     else if event_type = ''yellow_card''
     then lineup\<lparr>ml_yellow_cards := ml_yellow_cards lineup + 1\<rparr>
     else if event_type = ''red_card''
     then lineup\<lparr>ml_red_cards := ml_red_cards lineup + 1\<rparr>
     else lineup)"

text \<open>
  \<^verbatim>\<open>MatchEventViewSet.perform_create\<close> on validated data: the permission check on the
  event's team, the save of the event, then the lookup of the lineup row by match, player
  and team; \<^verbatim>\<open>DoesNotExist\<close> is caught and ignored, the row found is updated and saved
  (which runs the lineup's \<^verbatim>\<open>pre_save\<close> receiver).
\<close>

definition MatchEventViewSet_perform_create ::
  "User \<Rightarrow> MatchEvent \<Rightarrow> Team list \<Rightarrow> Club list \<Rightarrow> match_db \<Rightarrow> (error + unit) \<times> match_db" where
  "MatchEventViewSet_perform_create user data teams clubs db =
    (case db of (events, lineups, players) \<Rightarrow>
      (case find (\<lambda>t. t_id t = ev_team data) teams of
         None \<Rightarrow> (Inl ValidationError, db)
       | Some team \<Rightarrow>
           (case team_permission user teams clubs team of
              Inl e \<Rightarrow> (Inl e, db)
            | Inr _ \<Rightarrow>
                (let event = data\<lparr>ev_created_by := Some (u_id user)\<rparr>;
                     events' = write_row ev_pk (\<lambda>k e. e\<lparr>ev_pk := k\<rparr>) event events
                 in case objects_get (\<lambda>l. ml_match l = ev_match event \<and>
                                           ml_player l = ev_player event \<and>
                                           ml_team l = ev_team event) lineups of
                      Inl DoesNotExist \<Rightarrow> (Inr (), (events', lineups, players))
                    | Inl e \<Rightarrow> (Inl e, (events', lineups, players))
                    | Inr lineup \<Rightarrow>
                        (case MatchLineup_save
                                (update_lineup_for_event (ev_event_type event) lineup)
                                (lineups, players) of
                           Inl e \<Rightarrow> (Inl e, (events', lineups, players))
                         | Inr (lineups', players') \<Rightarrow> (Inr (), (events', lineups', players')))))))"

text \<open>
  \<^verbatim>\<open>MatchEventsView.post\<close>, the creation nested under a match: the match of the URL
  replaces the one of the body, the team is required and must be a side of the match, and
  the valid event is saved. The method ends there; it does not touch the lineup table.
\<close>

record event_request =
  er_team :: "team_id option"
  er_player :: player_id
  er_event_type :: string
  er_minute :: nat

definition MatchEventsView_post ::
  "User \<Rightarrow> match_id \<Rightarrow> event_request \<Rightarrow> GlobalMatch list \<Rightarrow> Team list \<Rightarrow> Club list \<Rightarrow>
   match_db \<Rightarrow> (error + unit) \<times> match_db" where
  "MatchEventsView_post user match_id request matches teams clubs db =
    (case db of (events, lineups, players) \<Rightarrow>
      (case get_object_or_404 (\<lambda>m. gm_id m = match_id) matches of
         Inl e \<Rightarrow> (Inl e, db)
       | Inr match \<Rightarrow>
           (case er_team request of
              None \<Rightarrow> (Inl BadRequest, db)
            | Some team_id \<Rightarrow>
                (case team_id_permission user teams clubs team_id of
                   Inl e \<Rightarrow> (Inl e, db)
                 | Inr _ \<Rightarrow>
                     if team_id \<notin> set [gm_home_team match, gm_away_team match]
                     then (Inl BadRequest, db)
                     else
                       (let data = \<lparr> ev_pk = None, ev_match = gm_id match, ev_team = team_id,
                                      ev_player = er_player request,
                                      ev_event_type = er_event_type request,
                                      ev_minute = er_minute request,
                                      ev_created_by = None \<rparr>
                        in if \<not> MatchEventSerializer_is_valid data teams players
                           then (Inl ValidationError, db)
                           else (Inr (),
                                 (write_row ev_pk (\<lambda>k e. e\<lparr>ev_pk := k\<rparr>)
                                    (data\<lparr>ev_created_by := Some (u_id user)\<rparr>) events,
                                  lineups, players)))))))"

text \<open>
  A goal in minute 10 of match 1 by player 1 of the home team 10, who is in the lineup
  with two goals so far; user 2 is the staff user who owns the team's club.
\<close>

definition example_goal :: MatchEvent where
  "example_goal =
    \<lparr> ev_pk = None, ev_match = 1, ev_team = 10, ev_player = 1, ev_event_type = ''goal'',
      ev_minute = 10, ev_created_by = None \<rparr>"

definition example_goal_request :: event_request where
  "example_goal_request =
    \<lparr> er_team = Some 10, er_player = 1, er_event_type = ''goal'', er_minute = 10 \<rparr>"

definition example_match_db :: match_db where
  "example_match_db = ([], [example_lineup\<lparr>ml_team := 10\<rparr>], [example_player\<lparr>p_team := 10\<rparr>])"

section \<open>Creation of tournament matches and group membership\<close>

text \<open>
  \<^verbatim>\<open>Match.clean\<close> (\<^verbatim>\<open>tournaments/models.py\<close>, which imports Django's
  \<^verbatim>\<open>ValidationError\<close>): a team cannot play itself, and with a group set both teams
  must have a \<^verbatim>\<open>TeamGroup\<close> row of that group. Django calls \<^verbatim>\<open>clean\<close> from
  \<^verbatim>\<open>full_clean\<close> only; \<^verbatim>\<open>Match.objects.create\<close> and \<^verbatim>\<open>save\<close> do not run it.
\<close>

definition Match_clean :: "TournamentMatch \<Rightarrow> TeamGroup list \<Rightarrow> error + unit" where
  "Match_clean self team_groups =
    (if tm_home_team self = tm_away_team self then Inl ValidationError
     else
       (case tm_group self of
          None \<Rightarrow> Inr ()
        | Some g \<Rightarrow>
            (let home_in_group = (\<exists>tg \<in> set team_groups. tg_team tg = tm_home_team self \<and> tg_group tg = g);
                 away_in_group = (\<exists>tg \<in> set team_groups. tg_team tg = tm_away_team self \<and> tg_group tg = g)
             in if \<not> (home_in_group \<and> away_in_group) then Inl ValidationError else Inr ())))"

text \<open>
  The body of a creation request as \<^verbatim>\<open>CreateMatchSerializer\<close> declares it. The group
  key is an integer although the serializer field is a \<^verbatim>\<open>UUIDField\<close>: that field
  accepts a JSON integer (it builds \<^verbatim>\<open>uuid.UUID(int=...)\<close>), and the view reads the raw
  \<^verbatim>\<open>group_id\<close> of the request for the lookup.
\<close>

record create_match_request =
  cm_home_team_id :: team_id
  cm_away_team_id :: team_id
  cm_match_date :: datetime
  cm_venue :: "string option"
  cm_round_number :: "nat option"
  cm_match_number :: "nat option"
  cm_group_id :: "group_id option"
  cm_phase_id :: "nat option"

text \<open>
  \<^verbatim>\<open>CreateMatchSerializer.is_valid\<close>: the field check \<^verbatim>\<open>min_value=1\<close> of the round,
  then \<^verbatim>\<open>validate\<close>: both teams exist and differ and, only when the serializer was
  given a group in its context, both are in that group. (The source's variable
  \<^verbatim>\<open>group\<close> is written \<open>grp\<close>: \<open>group\<close> is a constant of HOL.)
\<close>

definition CreateMatchSerializer_validate ::
  "create_match_request \<Rightarrow> TournamentGroup option \<Rightarrow> Team list \<Rightarrow> TeamGroup list \<Rightarrow> error + unit" where
  "CreateMatchSerializer_validate data context_group teams team_groups =
    (if (case cm_round_number data of None \<Rightarrow> False | Some n \<Rightarrow> n < 1) then Inl ValidationError
     else if \<not> (\<exists>t \<in> set teams. t_id t = cm_home_team_id data) then Inl ValidationError
     else if \<not> (\<exists>t \<in> set teams. t_id t = cm_away_team_id data) then Inl ValidationError
     else if cm_home_team_id data = cm_away_team_id data then Inl ValidationError
     else
       (case context_group of
          None \<Rightarrow> Inr ()
        | Some grp \<Rightarrow>
            (let home_in_group = (\<exists>tg \<in> set team_groups. tg_team tg = cm_home_team_id data \<and>
                                                            tg_group tg = gr_id grp);
                 away_in_group = (\<exists>tg \<in> set team_groups. tg_team tg = cm_away_team_id data \<and>
                                                            tg_group tg = gr_id grp)
             in if \<not> home_in_group then Inl ValidationError
                else if \<not> away_in_group then Inl ValidationError
                else Inr ())))"

text \<open>\<^verbatim>\<open>Match.objects.create(...)\<close> of both views; \<open>new_id\<close> is the fresh UUID.\<close>

definition create_tournament_match ::
  "match_id \<Rightarrow> Tournament \<Rightarrow> group_id option \<Rightarrow> TournamentPhase option \<Rightarrow> create_match_request \<Rightarrow>
   TournamentMatch" where
  "create_tournament_match new_id tournament grp phase data =
    \<lparr> tm_id = new_id, tm_tournament = tn_id tournament, tm_group = grp, tm_phase = phase,
      tm_home_team = cm_home_team_id data, tm_away_team = cm_away_team_id data,
      tm_match_date = cm_match_date data,
      tm_venue = (case cm_venue data of None \<Rightarrow> [] | Some v \<Rightarrow> v),
      tm_home_score = 0, tm_away_score = 0, tm_status = ''scheduled'',
      tm_match_number = cm_match_number data,
      tm_round_number = (case cm_round_number data of None \<Rightarrow> 1 | Some n \<Rightarrow> n) \<rparr>"

definition lookup_phase ::
  "nat option \<Rightarrow> Tournament \<Rightarrow> TournamentPhase list \<Rightarrow> error + TournamentPhase option" where
  "lookup_phase phase_id tournament phases =
    (case phase_id of
       None \<Rightarrow> Inr None
     | Some i \<Rightarrow>
         (case get_object_or_404 (\<lambda>ph. ph_id ph = i \<and> ph_tournament ph = tn_id tournament) phases of
            Inl e \<Rightarrow> Inl e
          | Inr ph \<Rightarrow> Inr (Some ph)))"

text \<open>
  \<^verbatim>\<open>TournamentViewSet.create_match\<close> (\<^verbatim>\<open>tournaments/<id>/matches/create/\<close>) on the
  tournament \<^verbatim>\<open>get_object\<close> returned: the serializer gets no context, and the group named
  in the request is only looked up within the tournament. The result is the created match
  (its \<^verbatim>\<open>post_save\<close> receiver and the population of the lineups follow).
\<close>

definition TournamentViewSet_create_match ::
  "User \<Rightarrow> Tournament \<Rightarrow> match_id \<Rightarrow> create_match_request \<Rightarrow> Team list \<Rightarrow> TeamGroup list \<Rightarrow>
   TournamentGroup list \<Rightarrow> TournamentPhase list \<Rightarrow> error + TournamentMatch" where
  "TournamentViewSet_create_match user tournament new_id data teams team_groups groups phases =
    (if u_is_authenticated user \<and> tn_organizer tournament \<noteq> u_id user \<and> \<not> u_is_superuser user
     then Inl PermissionDenied
     else
       (case CreateMatchSerializer_validate data None teams team_groups of
          Inl e \<Rightarrow> Inl e
        | Inr _ \<Rightarrow>
            (case (case cm_group_id data of
                     None \<Rightarrow> Inr None
                   | Some g \<Rightarrow>
                       (case get_object_or_404
                               (\<lambda>gr. gr_id gr = g \<and> gr_tournament gr = tn_id tournament) groups of
                          Inl e \<Rightarrow> Inl e
                        | Inr gr \<Rightarrow> Inr (Some (gr_id gr)))) of
               Inl e \<Rightarrow> Inl e
             | Inr grp \<Rightarrow>
                 (case lookup_phase (cm_phase_id data) tournament phases of
                    Inl e \<Rightarrow> Inl e
                  | Inr phase \<Rightarrow>
                      Inr (create_tournament_match new_id tournament grp phase data)))))"

text \<open>
  \<^verbatim>\<open>TournamentGroupViewSet.create_match\<close> (\<^verbatim>\<open>groups/<pk>/create-match/\<close>) on the group
  \<^verbatim>\<open>get_object\<close> returned and its tournament: the serializer gets the group as context.
\<close>

definition TournamentGroupViewSet_create_match ::
  "User \<Rightarrow> TournamentGroup \<Rightarrow> Tournament \<Rightarrow> match_id \<Rightarrow> create_match_request \<Rightarrow> Team list \<Rightarrow>
   TeamGroup list \<Rightarrow> TournamentPhase list \<Rightarrow> error + TournamentMatch" where
  "TournamentGroupViewSet_create_match user grp tournament new_id data teams team_groups phases =
    (if tn_organizer tournament \<noteq> u_id user \<and> \<not> u_is_superuser user
     then Inl PermissionDenied
     else
       (case CreateMatchSerializer_validate data (Some grp) teams team_groups of
          Inl e \<Rightarrow> Inl e
        | Inr _ \<Rightarrow>
            (case lookup_phase (cm_phase_id data) tournament phases of
               Inl e \<Rightarrow> Inl e
             | Inr phase \<Rightarrow>
                 Inr (create_tournament_match new_id tournament (Some (gr_id grp)) phase data))))"

text \<open>The invariant of the specification: membership of a team in a group.\<close>

definition in_group :: "TeamGroup list \<Rightarrow> group_id \<Rightarrow> team_id \<Rightarrow> bool" where
  "in_group team_groups g t \<longleftrightarrow> (\<exists>tg \<in> set team_groups. tg_team tg = t \<and> tg_group tg = g)"

text \<open>
  The two groups of the example tournament, and a request of its organizer for a match in
  group 1 between team 4 (of group 2) and team 10 (of no group).
\<close>

definition example_groups :: "TournamentGroup list" where
  "example_groups = [\<lparr> gr_id = 1, gr_tournament = 1 \<rparr>, \<lparr> gr_id = 2, gr_tournament = 1 \<rparr>]"

definition example_create_request :: create_match_request where
  "example_create_request =
    \<lparr> cm_home_team_id = 4, cm_away_team_id = 10, cm_match_date = 7, cm_venue = None,
      cm_round_number = None, cm_match_number = None, cm_group_id = Some 1,
      cm_phase_id = None \<rparr>"

section \<open>Visibility of matches\<close>

text \<open>
  A queryset is the list of rows it yields. \<^verbatim>\<open>order_by('-scheduled_date')\<close> is a stable
  sort by descending date; \<^verbatim>\<open>distinct()\<close> changes nothing here, since no filter below
  joins a to-many relation of the match. A condition on a related row
  (\<^verbatim>\<open>home_team__club__in\<close>, \<^verbatim>\<open>tournament__organizer\<close>) follows the foreign key by a
  lookup.
\<close>

definition order_by_scheduled_date_desc :: "GlobalMatch list \<Rightarrow> GlobalMatch list" where
  "order_by_scheduled_date_desc ms = sort_key (\<lambda>m. - gm_scheduled_date m) ms"

definition team_club :: "Team list \<Rightarrow> team_id \<Rightarrow> club_id option" where
  "team_club teams tid = map_option t_club (find (\<lambda>t. t_id t = tid) teams)"

definition tournament_organizer :: "Tournament list \<Rightarrow> tournament_id \<Rightarrow> user_id option" where
  "tournament_organizer tournaments i = map_option tn_organizer (find (\<lambda>t. tn_id t = i) tournaments)"

subsection \<open>Global matches: \<^verbatim>\<open>get_user_allowed_matches\<close> (\<^verbatim>\<open>matches/views.py\<close>)\<close>

text \<open>
  The block of the parent: the teams the user follows, extended, for a user with an
  email, by the teams of the players whose \<^verbatim>\<open>parent_email\<close> is that email.
\<close>

definition parent_allowed_matches ::
  "User \<Rightarrow> GlobalMatch list \<Rightarrow> Team list \<Rightarrow> Player list \<Rightarrow> GlobalMatch list" where
  "parent_allowed_matches user matches teams players =
    (let followed_teams_ids = map t_id (filter (\<lambda>t. u_id user \<in> set (t_followers t)) teams);
         followed_teams_ids =
           (if u_email user \<noteq> [] then
              followed_teams_ids @
                map p_team (filter (\<lambda>p. p_parent_email p = u_email user) players)
            else followed_teams_ids);
         team_ids = remdups followed_teams_ids
     in order_by_scheduled_date_desc
          (filter (\<lambda>m. gm_home_team m \<in> set team_ids \<or> gm_away_team m \<in> set team_ids) matches))"

text \<open>
  The chain \<^verbatim>\<open>if admin ... elif staff ... elif coach-or-coaching ...\<close>, whose third
  branch returns only when the user coaches a team, followed by the separate
  \<^verbatim>\<open>if user.user_type == 'parent'\<close> and the final empty queryset.
\<close>

definition get_user_allowed_matches ::
  "User \<Rightarrow> GlobalMatch list \<Rightarrow> Team list \<Rightarrow> Club list \<Rightarrow> Player list \<Rightarrow> GlobalMatch list" where
  "get_user_allowed_matches user matches teams clubs players =
    (let after_chain =
           (if u_user_type user = ''parent''
            then parent_allowed_matches user matches teams players
            else [])
     in if \<not> u_is_authenticated user then []
        else if u_user_type user = ''admin'' then
          order_by_scheduled_date_desc
            (filter (\<lambda>m. gm_created_by m = Some (u_id user)) matches)
        else if u_user_type user = ''staff'' then
          (let user_clubs = map c_id (filter (\<lambda>c. c_owner c = Some (u_id user)) clubs)
           in order_by_scheduled_date_desc
                (filter (\<lambda>m. (case team_club teams (gm_home_team m) of
                                  None \<Rightarrow> False | Some c \<Rightarrow> c \<in> set user_clubs) \<or>
                               (case team_club teams (gm_away_team m) of
                                  None \<Rightarrow> False | Some c \<Rightarrow> c \<in> set user_clubs)) matches))
        else if u_user_type user = ''coach'' \<or> coached_teams user teams \<noteq> [] then
          (let coached = map t_id (coached_teams user teams)
           in if coached \<noteq> [] then
                order_by_scheduled_date_desc
                  (filter (\<lambda>m. gm_home_team m \<in> set coached \<or> gm_away_team m \<in> set coached) matches)
              else after_chain)
        else after_chain)"

subsection \<open>Tournament matches: \<^verbatim>\<open>MatchViewSet.get_queryset\<close> (\<^verbatim>\<open>tournaments/views.py\<close>)\<close>

text \<open>The query parameters of the request; an absent or empty parameter is \<open>None\<close>.\<close>

record match_query =
  q_tournament :: "tournament_id option"
  q_group :: "group_id option"
  q_phase :: "nat option"
  q_status :: "string option"
  q_team :: "team_id option"

definition MatchViewSet_get_queryset ::
  "User \<Rightarrow> match_query \<Rightarrow> TournamentMatch list \<Rightarrow> Tournament list \<Rightarrow> Team list \<Rightarrow> Club list \<Rightarrow>
   Player list \<Rightarrow> TournamentMatch list" where
  "MatchViewSet_get_queryset user params matches tournaments teams clubs players =
    (if \<not> u_is_authenticated user then []
     else
       (let queryset =
              (if u_user_type user = ''viewer'' then matches
               else if u_user_type user = ''admin'' then
                 filter (\<lambda>m. tournament_organizer tournaments (tm_tournament m) = Some (u_id user)) matches
               else if u_user_type user = ''staff'' then
                 (let user_clubs = map c_id (filter (\<lambda>c. c_owner c = Some (u_id user)) clubs)
                  in filter (\<lambda>m. (case team_club teams (tm_home_team m) of
                                     None \<Rightarrow> False | Some c \<Rightarrow> c \<in> set user_clubs) \<or>
                                  (case team_club teams (tm_away_team m) of
                                     None \<Rightarrow> False | Some c \<Rightarrow> c \<in> set user_clubs)) matches)
               else if u_user_type user = ''parent'' then
                 (let followed_teams_ids =
                        map t_id (filter (\<lambda>t. u_id user \<in> set (t_followers t)) teams);
                      followed_teams_ids =
                        (if u_email user \<noteq> [] then
                           followed_teams_ids @
                             map p_team (filter (\<lambda>p. p_parent_email p = u_email user \<or>
                                                       p_parent2_email p = u_email user) players)
                         else followed_teams_ids);
                      team_ids = remdups followed_teams_ids
                  in filter (\<lambda>m. tm_home_team m \<in> set team_ids \<or> tm_away_team m \<in> set team_ids)
                       matches)
               else matches);
            queryset = (case q_tournament params of None \<Rightarrow> queryset
                        | Some i \<Rightarrow> filter (\<lambda>m. tm_tournament m = i) queryset);
            queryset = (case q_group params of None \<Rightarrow> queryset
                        | Some g \<Rightarrow> filter (\<lambda>m. tm_group m = Some g) queryset);
            queryset = (case q_phase params of None \<Rightarrow> queryset
                        | Some p \<Rightarrow> filter (\<lambda>m. map_option ph_id (tm_phase m) = Some p) queryset);
            queryset = (case q_status params of None \<Rightarrow> queryset
                        | Some s \<Rightarrow> filter (\<lambda>m. tm_status m = s) queryset);
            queryset = (case q_team params of None \<Rightarrow> queryset
                        | Some t \<Rightarrow> filter (\<lambda>m. tm_home_team m = t \<or> tm_away_team m = t) queryset)
        in queryset))"

text \<open>
  The words of the specification for a parent: the teams followed directly, the teams of
  the players with the user's email as first parent email, and the teams of the players
  with it as first or second parent email.
\<close>

definition followed_teams :: "User \<Rightarrow> Team list \<Rightarrow> team_id set" where
  "followed_teams user teams = {t_id t | t. t \<in> set teams \<and> u_id user \<in> set (t_followers t)}"

definition first_parent_teams :: "User \<Rightarrow> Player list \<Rightarrow> team_id set" where
  "first_parent_teams user players =
     {p_team p | p. p \<in> set players \<and> p_parent_email p = u_email user}"

definition parent_teams :: "User \<Rightarrow> Player list \<Rightarrow> team_id set" where
  "parent_teams user players =
     {p_team p | p. p \<in> set players \<and>
                    (p_parent_email p = u_email user \<or> p_parent2_email p = u_email user)}"

definition no_query :: match_query where
  "no_query = \<lparr> q_tournament = None, q_group = None, q_phase = None, q_status = None,
                q_team = None \<rparr>"

text \<open>
  Two global matches, team 1 against team 2 and team 3 against team 4. User 5 is a parent
  who follows team 1 and coaches team 3 (see the example teams); user 6 is a parent who
  follows no team and whose email is the second parent email of the example player, of
  team 1.
\<close>

definition example_visible_matches :: "GlobalMatch list" where
  "example_visible_matches =
    [example_global_match\<lparr>gm_id := 2, gm_home_team := 1, gm_away_team := 2\<rparr>,
     example_global_match\<lparr>gm_id := 3, gm_home_team := 3, gm_away_team := 4\<rparr>]"

section \<open>Lifecycle actions of the tournament match\<close>

text \<open>
  The actions \<^verbatim>\<open>start\<close> and \<^verbatim>\<open>finish\<close> of \<^verbatim>\<open>tournaments.views.MatchViewSet\<close>.
  For every action other than \<^verbatim>\<open>list\<close> and \<^verbatim>\<open>retrieve\<close>, \<^verbatim>\<open>get_permissions\<close>
  returns \<^verbatim>\<open>IsAuthenticated\<close> and \<^verbatim>\<open>IsAdminActiveUserType\<close>
  (\<^verbatim>\<open>users/permissions.py\<close>): the latter passes, as a view permission and as an object
  permission alike, for an authenticated user who is an admin and active.
\<close>

definition IsAuthenticated_has_permission :: "User \<Rightarrow> bool" where
  "IsAuthenticated_has_permission user \<longleftrightarrow> u_is_authenticated user"

definition IsAdminActiveUserType_passes :: "User \<Rightarrow> bool" where
  "IsAdminActiveUserType_passes user \<longleftrightarrow> is_admin_user user \<and> u_is_active user"

definition IsAdminActiveUserType_has_permission :: "User \<Rightarrow> bool" where
  "IsAdminActiveUserType_has_permission user \<longleftrightarrow>
     u_is_authenticated user \<and> IsAdminActiveUserType_passes user"

definition IsAdminActiveUserType_has_object_permission :: "User \<Rightarrow> bool" where
  "IsAdminActiveUserType_has_object_permission user \<longleftrightarrow>
     u_is_authenticated user \<and> IsAdminActiveUserType_passes user"

text \<open>
  The REST framework runs the permissions in order before the action and refuses at the
  first that fails: a request that no authenticator accepted with \<^verbatim>\<open>NotAuthenticated\<close>
  (status 401), an authenticated one with \<^verbatim>\<open>PermissionDenied\<close> (status 403). The object
  permission of \<^verbatim>\<open>IsAuthenticated\<close> is the base class's, which passes.
\<close>

definition permission_denied :: "User \<Rightarrow> error" where
  "permission_denied user = (if \<not> u_is_authenticated user then NotAuthenticated else PermissionDenied)"

definition check_permissions :: "User \<Rightarrow> error + unit" where
  "check_permissions user =
    (if \<not> IsAuthenticated_has_permission user then Inl (permission_denied user)
     else if \<not> IsAdminActiveUserType_has_permission user then Inl (permission_denied user)
     else Inr ())"

definition check_object_permissions :: "User \<Rightarrow> error + unit" where
  "check_object_permissions user =
    (if \<not> IsAdminActiveUserType_has_object_permission user then Inl (permission_denied user)
     else Inr ())"

text \<open>
  \<^verbatim>\<open>self.get_object()\<close>: the row with the key of the URL is looked up in the queryset of
  \<^verbatim>\<open>get_queryset\<close>, which depends on the user's role and on the query parameters of the
  request (a row outside it is answered with \<^verbatim>\<open>Http404\<close>), and the object permissions
  are checked on it.
\<close>

definition get_object ::
  "User \<Rightarrow> match_query \<Rightarrow> match_id \<Rightarrow> TournamentMatch list \<Rightarrow> Tournament list \<Rightarrow> Team list \<Rightarrow>
   Club list \<Rightarrow> Player list \<Rightarrow> error + TournamentMatch" where
  "get_object user params pk matches tournaments teams clubs players =
    (case get_object_or_404 (\<lambda>m. tm_id m = pk)
            (MatchViewSet_get_queryset user params matches tournaments teams clubs players) of
       Inl e \<Rightarrow> Inl e
     | Inr obj \<Rightarrow>
         (case check_object_permissions user of
            Inl e \<Rightarrow> Inl e
          | Inr _ \<Rightarrow> Inr obj))"

text \<open>
  The two actions: the permissions of the view, \<^verbatim>\<open>get_object\<close>, the tournament of the
  match (its foreign key followed by a lookup), the test of the body (organizer of the
  tournament, superuser, or \<^verbatim>\<open>IsMatchCoachOrAdmin\<close> on the match), the test of the
  current status, and the assignment of the new status. The result is the match that
  \<^verbatim>\<open>match.save()\<close> writes; every error is raised before the write.
  \<^verbatim>\<open>ValidationError\<close> is the REST framework's (status 400).
\<close>

definition start_match ::
  "User \<Rightarrow> match_query \<Rightarrow> match_id \<Rightarrow> TournamentMatch list \<Rightarrow> Tournament list \<Rightarrow> Team list \<Rightarrow>
   Club list \<Rightarrow> Player list \<Rightarrow> error + TournamentMatch" where
  "start_match user params pk matches tournaments teams clubs players =
    (case check_permissions user of
       Inl e \<Rightarrow> Inl e
     | Inr _ \<Rightarrow>
         (case get_object user params pk matches tournaments teams clubs players of
            Inl e \<Rightarrow> Inl e
          | Inr match \<Rightarrow>
              (case find (\<lambda>t. tn_id t = tm_tournament match) tournaments of
                 None \<Rightarrow> Inl DoesNotExist
               | Some tournament \<Rightarrow>
                   (let is_organizer = (tn_organizer tournament = u_id user \<or> u_is_superuser user)
                    in if \<not> is_organizer \<and>
                          \<not> IsMatchCoachOrAdmin_has_object_permission user teams clubs
                               (tm_home_team match) (tm_away_team match)
                       then Inl PermissionDenied
                       else if tm_status match \<noteq> ''scheduled'' then Inl ValidationError
                       else Inr (match\<lparr>tm_status := ''live''\<rparr>)))))"

definition finish_match ::
  "User \<Rightarrow> match_query \<Rightarrow> match_id \<Rightarrow> TournamentMatch list \<Rightarrow> Tournament list \<Rightarrow> Team list \<Rightarrow>
   Club list \<Rightarrow> Player list \<Rightarrow> error + TournamentMatch" where
  "finish_match user params pk matches tournaments teams clubs players =
    (case check_permissions user of
       Inl e \<Rightarrow> Inl e
     | Inr _ \<Rightarrow>
         (case get_object user params pk matches tournaments teams clubs players of
            Inl e \<Rightarrow> Inl e
          | Inr match \<Rightarrow>
              (case find (\<lambda>t. tn_id t = tm_tournament match) tournaments of
                 None \<Rightarrow> Inl DoesNotExist
               | Some tournament \<Rightarrow>
                   (let is_organizer = (tn_organizer tournament = u_id user \<or> u_is_superuser user)
                    in if \<not> is_organizer \<and>
                          \<not> IsMatchCoachOrAdmin_has_object_permission user teams clubs
                               (tm_home_team match) (tm_away_team match)
                       then Inl PermissionDenied
                       else if tm_status match \<notin> set [''live'', ''scheduled''] then Inl ValidationError
                       else Inr (match\<lparr>tm_status := ''finished''\<rparr>)))))"

text \<open>
  Three tournament matches of the example tournament, which user 1 organizes: match 1 is
  finished, match 2 scheduled, match 3 postponed.
\<close>

definition example_lifecycle_matches :: "TournamentMatch list" where
  "example_lifecycle_matches =
    [example_group_match 1 1 2 2 1 ''finished'',
     example_group_match 2 2 3 0 0 ''scheduled'',
     example_group_match 3 3 1 0 0 ''postponed'']"

section \<open>Theorems\<close>

subsection \<open>C10: winner of a finished global match\<close>

text \<open>
  C10. For a global match the winner is \<open>None\<close> when the status is not finished. When it
  is finished: if both penalty scores are set and unequal the side with the higher penalty
  score wins; otherwise, if both extra-time scores are set and unequal, the side with the
  higher extra-time score wins; otherwise the side with the higher normal score wins, and
  the winner is \<open>None\<close> when the normal scores are equal.
\<close>

theorem winner_precedence:
  "(gm_status m \<noteq> ''finished'' \<longrightarrow> winner m = None) \<and>
   (gm_status m = ''finished'' \<longrightarrow>
      (\<forall>hp ap. gm_home_score_penalties m = Some hp \<and> gm_away_score_penalties m = Some ap \<and> hp \<noteq> ap
          \<longrightarrow> winner m = Some (if hp > ap then gm_home_team m else gm_away_team m)) \<and>
      (\<not> (\<exists>hp ap. gm_home_score_penalties m = Some hp \<and> gm_away_score_penalties m = Some ap \<and> hp \<noteq> ap)
          \<longrightarrow>
         (\<forall>he ae. gm_home_score_extra_time m = Some he \<and> gm_away_score_extra_time m = Some ae \<and> he \<noteq> ae
            \<longrightarrow> winner m = Some (if he > ae then gm_home_team m else gm_away_team m)) \<and>
         (\<not> (\<exists>he ae. gm_home_score_extra_time m = Some he \<and> gm_away_score_extra_time m = Some ae \<and> he \<noteq> ae)
            \<longrightarrow> winner m =
                  (if gm_home_score m > gm_away_score m then Some (gm_home_team m)
                   else if gm_away_score m > gm_home_score m then Some (gm_away_team m)
                   else None))))"
  by (cases "gm_home_score_penalties m"; cases "gm_away_score_penalties m";
      cases "gm_home_score_extra_time m"; cases "gm_away_score_extra_time m")
     (auto simp: winner_def)

theorem winner_precedence_witness:
  "gm_status example_global_match = ''finished'' \<and>
   gm_home_score_penalties example_global_match = Some 4 \<and>
   gm_away_score_penalties example_global_match = Some 5 \<and>
   winner example_global_match = Some 20"
  using winner_precedence [of example_global_match]
  by (simp add: example_global_match_def)

subsection \<open>C3: the synchronizer upserts one mirrored global match\<close>

lemma filter_key_distinct:
  "distinct (map f xs) \<Longrightarrow> filter (\<lambda>x. f x = k) xs = [] \<or> (\<exists>x. filter (\<lambda>x. f x = k) xs = [x])"
proof (induction xs)
  case Nil
  then show ?case by simp
next
  case (Cons a xs)
  show ?case
  proof (cases "f a = k")
    case True
    from Cons.prems have "f a \<notin> f ` set xs" by simp
    with True have "\<forall>x\<in>set xs. f x \<noteq> k" by blast
    then have "filter (\<lambda>x. f x = k) xs = []" by (simp add: filter_empty_conv)
    with True show ?thesis by simp
  next
    case False
    with Cons show ?thesis by simp
  qed
qed

lemma match_type_expected:
  "md_match_type (match_data_of m) = expected_match_type (tm_phase m)"
  by (auto simp: match_data_of_def expected_match_type_def dict_get_def phase_type_mapping_def Let_def split: option.splits)

lemma status_mirrored:
  "tm_status m \<in> set STATUS_CHOICES \<Longrightarrow> md_status (match_data_of m) = tm_status m"
  by (auto simp: match_data_of_def dict_get_def status_mapping_def STATUS_CHOICES_def Let_def)

lemma mirrors_set_defaults:
  "tm_status m \<in> set STATUS_CHOICES \<Longrightarrow> gm_id g = tm_id m \<Longrightarrow> mirrors m (set_defaults (match_data_of m) g)"
  using match_type_expected[of m] status_mirrored[of m]
  by (simp add: mirrors_def set_defaults_def) (simp add: match_data_of_def Let_def)

lemma mirrors_create:
  "tm_status m \<in> set STATUS_CHOICES \<Longrightarrow> mirrors m (create_GlobalMatch (tm_id m) (match_data_of m))"
  using match_type_expected[of m] status_mirrored[of m]
  by (simp add: mirrors_def create_GlobalMatch_def) (simp add: match_data_of_def Let_def)

lemma global_only_set_defaults: "global_only (set_defaults d g) = global_only g"
  by (simp add: global_only_def set_defaults_def)

lemma set_defaults_idem: "set_defaults d (set_defaults d g) = set_defaults d g"
  by (simp add: set_defaults_def)

lemma set_defaults_create: "set_defaults d (create_GlobalMatch i d) = create_GlobalMatch i d"
  by (simp add: set_defaults_def create_GlobalMatch_def)

lemma gm_id_set_defaults: "gm_id (set_defaults d g) = gm_id g"
  by (simp add: set_defaults_def)

lemma filter_map_upd:
  "filter (\<lambda>g. gm_id g = i) (map (\<lambda>g. if gm_id g = i then set_defaults d g else g) tbl)
     = map (set_defaults d) (filter (\<lambda>g. gm_id g = i) tbl)"
  by (induction tbl) (simp_all add: gm_id_set_defaults)

lemma filter_map_upd_other:
  "filter (\<lambda>g. gm_id g \<noteq> i) (map (\<lambda>g. if gm_id g = i then set_defaults d g else g) tbl)
     = filter (\<lambda>g. gm_id g \<noteq> i) tbl"
  by (induction tbl) (simp_all add: gm_id_set_defaults)

lemma map_id_upd:
  "map gm_id (map (\<lambda>g. if gm_id g = i then set_defaults d g else g) tbl) = map gm_id tbl"
  by (induction tbl) (simp_all add: gm_id_set_defaults)

lemma map_upd_idem:
  "map (\<lambda>g. if gm_id g = i then set_defaults d g else g)
     (map (\<lambda>g. if gm_id g = i then set_defaults d g else g) tbl)
   = map (\<lambda>g. if gm_id g = i then set_defaults d g else g) tbl"
  by (induction tbl) (simp_all add: gm_id_set_defaults set_defaults_idem)

lemma map_upd_absent:
  "filter (\<lambda>g. gm_id g = i) tbl = [] \<Longrightarrow>
   map (\<lambda>g. if gm_id g = i then set_defaults d g else g) tbl = tbl"
  by (induction tbl) (auto split: if_splits)

text \<open>
  C3. Saving a tournament match (create or update) on a global-match table with unique
  identifiers succeeds and leaves exactly one global match with the match's identifier.
  Its mirrored fields (tournament, phase, group, teams, date, venue, scores, status) equal
  those of the tournament match, and its match type is \<^verbatim>\<open>knockout\<close> for phase type
  \<^verbatim>\<open>round_16\<close>, the phase type itself for quarter-final, semi-final, final and third
  place, and \<^verbatim>\<open>group_stage\<close> otherwise. Identifiers stay unique, rows with another
  identifier are untouched, the columns only the global match has (referees, extra-time,
  penalty and half-time scores, attendance, notes, weather, start and end time, round,
  creator) keep the values of the row that was there, and the same save applied again
  changes nothing.
\<close>

theorem sync_match_to_global_upsert:
  assumes pk: "distinct (map gm_id tbl)"
    and st: "tm_status m \<in> set STATUS_CHOICES"
  shows "\<exists>tbl' g. sync_match_to_global m tbl = Inr tbl' \<and>
           filter (\<lambda>g. gm_id g = tm_id m) tbl' = [g] \<and> mirrors m g \<and>
           distinct (map gm_id tbl') \<and>
           filter (\<lambda>g. gm_id g \<noteq> tm_id m) tbl' = filter (\<lambda>g. gm_id g \<noteq> tm_id m) tbl \<and>
           (\<forall>old \<in> set tbl. gm_id old = tm_id m \<longrightarrow> global_only g = global_only old) \<and>
           sync_match_to_global m tbl' = Inr tbl'"
proof -
  let ?i = "tm_id m"
  let ?d = "match_data_of m"
  let ?upd = "\<lambda>g. if gm_id g = ?i then set_defaults ?d g else g"
  from filter_key_distinct [OF pk, of ?i]
  consider (absent) "filter (\<lambda>g. gm_id g = ?i) tbl = []"
    | (present) g0 where "filter (\<lambda>g. gm_id g = ?i) tbl = [g0]"
    by blast
  then show ?thesis
  proof cases
    case absent
    let ?new = "create_GlobalMatch ?i ?d"
    let ?tbl' = "tbl @ [?new]"
    have idn: "gm_id ?new = ?i" by (simp add: create_GlobalMatch_def)
    from absent have none: "\<forall>g \<in> set tbl. gm_id g \<noteq> ?i"
      by (simp add: filter_empty_conv)
    have r: "sync_match_to_global m tbl = Inr ?tbl'"
      using absent by (simp add: sync_match_to_global_def update_or_create_def)
    have one: "filter (\<lambda>g. gm_id g = ?i) ?tbl' = [?new]"
      using absent idn by simp
    have mir: "mirrors m ?new" using st by (rule mirrors_create)
    have dist: "distinct (map gm_id ?tbl')"
      using pk none idn by auto
    have others: "filter (\<lambda>g. gm_id g \<noteq> ?i) ?tbl' = filter (\<lambda>g. gm_id g \<noteq> ?i) tbl"
      using idn by simp
    have frame: "\<forall>old \<in> set tbl. gm_id old = ?i \<longrightarrow> global_only ?new = global_only old"
      using none by blast
    have again: "sync_match_to_global m ?tbl' = Inr ?tbl'"
      using one idn map_upd_absent [OF absent, of ?d]
      by (simp add: sync_match_to_global_def update_or_create_def set_defaults_create)
    from r one mir dist others frame again show ?thesis by blast
  next
    case present
    let ?g = "set_defaults ?d g0"
    let ?tbl' = "map ?upd tbl"
    have "g0 \<in> set (filter (\<lambda>g. gm_id g = ?i) tbl)"
      using present by simp
    then have g0: "g0 \<in> set tbl \<and> gm_id g0 = ?i" by simp
    have r: "sync_match_to_global m tbl = Inr ?tbl'"
      using present by (simp add: sync_match_to_global_def update_or_create_def)
    have one: "filter (\<lambda>g. gm_id g = ?i) ?tbl' = [?g]"
      using present by (simp add: filter_map_upd)
    have mir: "mirrors m ?g" using st g0 by (simp add: mirrors_set_defaults)
    have dist: "distinct (map gm_id ?tbl')"
      using pk by (simp only: map_id_upd)
    have others: "filter (\<lambda>g. gm_id g \<noteq> ?i) ?tbl' = filter (\<lambda>g. gm_id g \<noteq> ?i) tbl"
      by (rule filter_map_upd_other)
    have frame: "\<forall>old \<in> set tbl. gm_id old = ?i \<longrightarrow> global_only ?g = global_only old"
    proof (intro ballI impI)
      fix old assume "old \<in> set tbl" "gm_id old = ?i"
      then have "old \<in> set (filter (\<lambda>g. gm_id g = ?i) tbl)" by simp
      with present have "old = g0" by simp
      then show "global_only ?g = global_only old" by (simp add: global_only_set_defaults)
    qed
    have again: "sync_match_to_global m ?tbl' = Inr ?tbl'"
      using one map_upd_idem [of ?i ?d tbl]
      by (simp add: sync_match_to_global_def update_or_create_def)
    from r one mir dist others frame again show ?thesis by blast
  qed
qed


theorem sync_match_to_global_upsert_witness:
  "distinct (map gm_id example_global_table) \<and>
   tm_status example_tournament_match \<in> set STATUS_CHOICES \<and>
   (\<exists>tbl' g. sync_match_to_global example_tournament_match example_global_table = Inr tbl' \<and>
       filter (\<lambda>g. gm_id g = 1) tbl' = [g] \<and>
       gm_match_type g = ''knockout'' \<and> gm_status g = ''live'' \<and> gm_home_score g = 2 \<and>
       gm_referee g = Some 7 \<and> gm_attendance g = Some 300 \<and> gm_notes g = ''note'' \<and>
       gm_home_score_extra_time g = Some 2)"
proof -
  have pk: "distinct (map gm_id example_global_table)"
    by (simp add: example_global_table_def)
  have st: "tm_status example_tournament_match \<in> set STATUS_CHOICES"
    by (simp add: example_tournament_match_def STATUS_CHOICES_def)
  from sync_match_to_global_upsert [OF pk st]
  obtain tbl' g where
    r: "sync_match_to_global example_tournament_match example_global_table = Inr tbl'"
    and one: "filter (\<lambda>g. gm_id g = tm_id example_tournament_match) tbl' = [g]"
    and mir: "mirrors example_tournament_match g"
    and frame: "\<forall>old \<in> set example_global_table.
        gm_id old = tm_id example_tournament_match \<longrightarrow> global_only g = global_only old"
    by blast
  have i: "tm_id example_tournament_match = 1" by (simp add: example_tournament_match_def)
  from frame have "global_only g = global_only example_global_match"
    by (simp add: example_global_table_def example_global_match_def example_tournament_match_def)
  then have own: "gm_referee g = Some 7 \<and> gm_attendance g = Some 300 \<and> gm_notes g = ''note'' \<and>
       gm_home_score_extra_time g = Some 2"
    by (simp add: global_only_def example_global_match_def)
  from mir have m: "gm_match_type g = ''knockout'' \<and> gm_status g = ''live'' \<and> gm_home_score g = 2"
    by (simp add: mirrors_def expected_match_type_def example_tournament_match_def)
  from pk st r one i own m show ?thesis by auto
qed

text \<open>
  The delete receiver removes the mirrored row when there is one, leaves the other rows,
  and is not an error when the row is already absent.
\<close>

lemma delete_global_match_removes:
  assumes "distinct (map gm_id tbl)"
  shows "\<exists>tbl'. delete_global_match m tbl = Inr tbl' \<and>
           filter (\<lambda>g. gm_id g = tm_id m) tbl' = [] \<and>
           filter (\<lambda>g. gm_id g \<noteq> tm_id m) tbl' = filter (\<lambda>g. gm_id g \<noteq> tm_id m) tbl \<and>
           delete_global_match m tbl' = Inr tbl'"
proof -
  from filter_key_distinct [OF assms, of "tm_id m"]
  consider (absent) "filter (\<lambda>g. gm_id g = tm_id m) tbl = []"
    | (present) g0 where "filter (\<lambda>g. gm_id g = tm_id m) tbl = [g0]"
    by blast
  then show ?thesis
  proof cases
    case absent
    then show ?thesis by (simp add: delete_global_match_def)
  next
    case present
    have gone: "filter (\<lambda>g. gm_id g = tm_id m) (filter (\<lambda>g. gm_id g \<noteq> tm_id m) tbl) = []"
      by (simp add: filter_empty_conv)
    from present have "delete_global_match m tbl = Inr (filter (\<lambda>g. gm_id g \<noteq> tm_id m) tbl)"
      by (simp add: delete_global_match_def)
    moreover from gone
    have "delete_global_match m (filter (\<lambda>g. gm_id g \<noteq> tm_id m) tbl)
        = Inr (filter (\<lambda>g. gm_id g \<noteq> tm_id m) tbl)"
      by (simp add: delete_global_match_def)
    ultimately show ?thesis using gone by simp
  qed
qed

subsection \<open>C1: group standings\<close>

lemma standings_key_le:
  "standings_key x \<le> standings_key y \<longleftrightarrow> rank_key y \<le> rank_key x"
  by (auto simp: standings_key_def rank_key_def)

lemma rank_key_eq:
  "rank_key x = rank_key y \<longleftrightarrow> standings_key x = standings_key y"
  by (auto simp: standings_key_def rank_key_def)

lemma number_rows:
  "length idxs = length ys \<Longrightarrow> \<forall>s \<in> set ys. st_position s = None \<Longrightarrow>
   map unranked (map (\<lambda>(idx, standing). standing\<lparr>st_position := Some idx\<rparr>) (zip idxs ys)) = ys"
proof (induction idxs ys rule: list_induct2)
  case Nil
  then show ?case by simp
next
  case (Cons i idxs y ys)
  then show ?case by (simp add: unranked_def)
qed

lemma number_rows_position:
  "length idxs = length ys \<Longrightarrow>
   map st_position (map (\<lambda>(idx, standing). standing\<lparr>st_position := Some idx\<rparr>) (zip idxs ys))
     = map Some idxs"
  by (induction idxs ys rule: list_induct2) simp_all

lemma unranked_fields [simp]:
  "st_team (unranked r) = st_team r"
  "st_team_group (unranked r) = st_team_group r"
  "st_played (unranked r) = st_played r"
  "st_wins (unranked r) = st_wins r"
  "st_draws (unranked r) = st_draws r"
  "st_losses (unranked r) = st_losses r"
  "st_goals_scored (unranked r) = st_goals_scored r"
  "st_goals_conceded (unranked r) = st_goals_conceded r"
  "st_goal_difference (unranked r) = st_goal_difference r"
  "st_points (unranked r) = st_points r"
  "rank_key (unranked r) = rank_key r"
  by (simp_all add: unranked_def rank_key_def)

lemma filter_finished_home:
  "filter P (filter (\<lambda>m. tm_home_team m = t \<and> tm_group m = Some g \<and> tm_status m = ''finished'') ms)
   = filter (\<lambda>m. tm_home_team m = t \<and> P m) (finished_in_group g ms)"
  by (induction ms) (auto simp: finished_in_group_def)

lemma filter_finished_away:
  "filter P (filter (\<lambda>m. tm_away_team m = t \<and> tm_group m = Some g \<and> tm_status m = ''finished'') ms)
   = filter (\<lambda>m. tm_away_team m = t \<and> P m) (finished_in_group g ms)"
  by (induction ms) (auto simp: finished_in_group_def)

lemma home_matches_finished:
  "filter (\<lambda>m. tm_home_team m = t \<and> tm_group m = Some g \<and> tm_status m = ''finished'') ms
   = filter (\<lambda>m. tm_home_team m = t) (finished_in_group g ms)"
  by (induction ms) (auto simp: finished_in_group_def)

lemma away_matches_finished:
  "filter (\<lambda>m. tm_away_team m = t \<and> tm_group m = Some g \<and> tm_status m = ''finished'') ms
   = filter (\<lambda>m. tm_away_team m = t) (finished_in_group g ms)"
  by (induction ms) (auto simp: finished_in_group_def)

lemma standing_row_correct_unranked: "standing_row_correct g tn ms (unranked r) = standing_row_correct g tn ms r"
  by (simp add: standing_row_correct_def Let_def)

lemma team_standing_ok: "standing_row_correct g tn ms (team_standing g tn ms tg)"
  unfolding standing_row_correct_def team_standing_def Let_def
  by (simp add: filter_finished_home filter_finished_away home_matches_finished away_matches_finished)

lemma team_standing_group [simp]: "st_team_group (team_standing g tn ms tg) = tg"
  by (simp add: team_standing_def Let_def)

lemma team_standing_position [simp]: "st_position (team_standing g tn ms tg) = None"
  by (simp add: team_standing_def Let_def)

lemma sorted_desc_rank:
  "sorted (map standings_key ys) \<Longrightarrow> sorted (rev (map rank_key ys))"
proof -
  assume "sorted (map standings_key ys)"
  then have "sorted_wrt (\<lambda>a b. standings_key a \<le> standings_key b) ys"
    by (simp add: sorted_map)
  then have "sorted_wrt (\<lambda>a b. rank_key b \<le> rank_key a) ys"
    by (simp add: standings_key_le)
  then have "sorted_wrt (\<lambda>a b. b \<le> a) (map rank_key ys)"
    by (simp add: sorted_wrt_map)
  then show ?thesis
    by (simp add: sorted_wrt_rev)
qed

text \<open>
  C1. The standings of a group have one row per \<^verbatim>\<open>TeamGroup\<close> member of the group
  (the rows' team groups are a permutation of the members). In every row, wins, draws,
  losses and goals are counted over the finished matches of the group in which the team
  played home or away, \<open>played = wins + draws + losses\<close>,
  \<open>goal_difference = goals_scored - goals_conceded\<close> and
  \<open>points = wins * points_per_win + draws * points_per_draw + losses * points_per_loss\<close>
  of the tournament. The rows are sorted descending by (points, goal difference, goals
  scored); rows with equal keys keep the order of their members in the input; and the
  positions are 1, 2, ... in the order of the rows.
\<close>

theorem get_standings_table:
  "let rows = get_standings g tn tgs ms;
       members = filter (\<lambda>tg. tg_group tg = g) tgs
   in length rows = length members \<and>
      mset (map st_team_group rows) = mset members \<and>
      (\<forall>r \<in> set rows. standing_row_correct g tn ms r) \<and>
      sorted (rev (map rank_key rows)) \<and>
      (\<forall>k. subseq (map st_team_group (filter (\<lambda>r. rank_key r = k) rows)) members) \<and>
      map st_position rows = map Some [1..<Suc (length rows)]"
proof -
  define members where "members = filter (\<lambda>tg. tg_group tg = g) tgs"
  define xs where "xs = map (team_standing g tn ms) members"
  define ys where "ys = sort_key standings_key xs"
  define rows where "rows = get_standings g tn tgs ms"
  have rows: "rows = map (\<lambda>(idx, standing). standing\<lparr>st_position := Some idx\<rparr>)
                        (zip [1..<Suc (length ys)] ys)"
    unfolding rows_def get_standings_def Let_def ys_def xs_def members_def by (rule refl)
  have len_idx: "length [1..<Suc (length ys)] = length ys"
    by (simp only: length_upt diff_Suc_1)
  have pos_none: "\<forall>s \<in> set ys. st_position s = None"
    by (auto simp: ys_def xs_def)
  have un: "map unranked rows = ys"
    unfolding rows by (rule number_rows [OF len_idx pos_none])
  have len: "length rows = length members"
    using arg_cong [OF un, of length] by (simp add: ys_def xs_def)
  have groups: "map st_team_group rows = map st_team_group ys"
    using arg_cong [OF un, of "map st_team_group"] by (simp add: comp_def)
  have "mset (map st_team_group ys) = mset (map st_team_group xs)"
    by (simp add: ys_def)
  also have "map st_team_group xs = members"
    by (simp add: xs_def comp_def)
  finally have perm: "mset (map st_team_group rows) = mset members"
    by (simp add: groups)
  have ok: "\<forall>r \<in> set rows. standing_row_correct g tn ms r"
  proof
    fix r assume "r \<in> set rows"
    then have "unranked r \<in> set (map unranked rows)" by simp
    then have "unranked r \<in> set xs" by (simp add: un ys_def)
    then have "standing_row_correct g tn ms (unranked r)"
      by (auto simp: xs_def team_standing_ok)
    then show "standing_row_correct g tn ms r" by (simp add: standing_row_correct_unranked)
  qed
  have keys: "map rank_key rows = map rank_key ys"
    using arg_cong [OF un, of "map rank_key"] by (simp add: comp_def)
  have "sorted (map standings_key ys)" by (simp add: ys_def)
  then have srt: "sorted (rev (map rank_key rows))"
    by (simp add: keys sorted_desc_rank)
  have stable: "subseq (map st_team_group (filter (\<lambda>r. rank_key r = k) rows)) members" for k
  proof -
    obtain a b c where k: "k = (a, b, c)" by (cases k) auto
    have conv: "(rank_key r = k) = (standings_key r = (- a, - b, - c))" for r
      by (auto simp: k rank_key_def standings_key_def)
    have "map st_team_group (filter (\<lambda>r. rank_key r = k) rows)
        = map st_team_group (filter (\<lambda>r. rank_key r = k) (map unranked rows))"
      by (simp add: filter_map comp_def)
    also have "\<dots> = map st_team_group (filter (\<lambda>r. standings_key r = (- a, - b, - c)) ys)"
      by (simp add: un conv)
    also have "\<dots> = map st_team_group (filter (\<lambda>r. standings_key r = (- a, - b, - c)) xs)"
      by (simp only: ys_def sort_key_stable)
    also have "\<dots> = filter (\<lambda>tg. standings_key (team_standing g tn ms tg) = (- a, - b, - c)) members"
      by (simp add: xs_def filter_map comp_def)
    finally show ?thesis by simp
  qed
  have pos: "map st_position rows = map Some [1..<Suc (length rows)]"
  proof -
    have "length rows = length ys" using arg_cong [OF un, of length] by simp
    then show ?thesis
      unfolding rows using number_rows_position [OF len_idx] by simp
  qed
  from len perm ok srt stable pos show ?thesis
    by (simp add: Let_def rows_def members_def)
qed

lemma example_standings_value: "get_standings 1 example_tournament example_team_groups example_group_matches =
 [\<lparr>st_team = 1,
     st_team_group =
       \<lparr>tg_id = 1, tg_team = 1, tg_group = 1, tg_is_qualified = False\<rparr>,
     st_played = 1, st_wins = 1, st_draws = 0, st_losses = 0,
     st_goals_scored = 2, st_goals_conceded = 1, st_goal_difference = 1,
     st_points = 3, st_position = Some 1\<rparr>,
  \<lparr>st_team = 3,
     st_team_group =
       \<lparr>tg_id = 3, tg_team = 3, tg_group = 1, tg_is_qualified = False\<rparr>,
     st_played = 1, st_wins = 0, st_draws = 1, st_losses = 0,
     st_goals_scored = 1, st_goals_conceded = 1, st_goal_difference = 0,
     st_points = 1, st_position = Some 2\<rparr>,
  \<lparr>st_team = 2,
     st_team_group =
       \<lparr>tg_id = 2, tg_team = 2, tg_group = 1, tg_is_qualified = False\<rparr>,
     st_played = 2, st_wins = 0, st_draws = 1, st_losses = 1,
     st_goals_scored = 2, st_goals_conceded = 3, st_goal_difference = - 1,
     st_points = 1, st_position = Some 3\<rparr>]"
  by code_simp

theorem get_standings_table_witness:
  "map st_team (get_standings 1 example_tournament example_team_groups example_group_matches) = [1, 3, 2] \<and>
   map st_points (get_standings 1 example_tournament example_team_groups example_group_matches) = [3, 1, 1] \<and>
   map st_goal_difference (get_standings 1 example_tournament example_team_groups example_group_matches) = [1, 0, - 1] \<and>
   map st_played (get_standings 1 example_tournament example_team_groups example_group_matches) = [1, 1, 2] \<and>
   map st_position (get_standings 1 example_tournament example_team_groups example_group_matches)
      = [Some 1, Some 2, Some 3] \<and>
   standing_row_correct 1 example_tournament example_group_matches
      (hd (get_standings 1 example_tournament example_team_groups example_group_matches))"
proof -
  have every: "\<forall>r \<in> set (get_standings 1 example_tournament example_team_groups example_group_matches).
      standing_row_correct 1 example_tournament example_group_matches r"
    using get_standings_table [of 1 example_tournament example_team_groups example_group_matches]
    unfolding Let_def by blast
  have "hd (get_standings 1 example_tournament example_team_groups example_group_matches)
      \<in> set (get_standings 1 example_tournament example_team_groups example_group_matches)"
    unfolding example_standings_value by simp
  with every have "standing_row_correct 1 example_tournament example_group_matches
      (hd (get_standings 1 example_tournament example_team_groups example_group_matches))"
    by blast
  then show ?thesis
    unfolding example_standings_value by simp
qed

subsection \<open>C2: propagation of lineup statistics to the player\<close>

lemma floored_sum_mono: "x \<le> y \<Longrightarrow> floored_sum x ds \<le> floored_sum y ds"
  by (induction ds arbitrary: x y) auto

lemma floored_sum_ge_sum: "x + sum_list ds \<le> floored_sum x ds"
proof (induction ds arbitrary: x)
  case Nil
  then show ?case by simp
next
  case (Cons d ds)
  have "x + sum_list (d # ds) = (x + d) + sum_list ds" by simp
  also have "\<dots> \<le> floored_sum (x + d) ds" by (rule Cons.IH)
  also have "\<dots> \<le> floored_sum (max 0 (x + d)) ds" by (rule floored_sum_mono) simp
  finally show ?case by simp
qed

lemma floored_sum_nonneg: "0 \<le> x \<Longrightarrow> 0 \<le> floored_sum x ds"
  by (induction ds arbitrary: x) auto

lemma floored_sum_exact:
  "(\<And>n. n \<le> length ds \<Longrightarrow> 0 \<le> x + sum_list (take n ds)) \<Longrightarrow> floored_sum x ds = x + sum_list ds"
proof (induction ds arbitrary: x)
  case Nil
  then show ?case by simp
next
  case (Cons d ds)
  have first: "0 \<le> x + d" using Cons.prems [of 1] by simp
  have rest: "0 \<le> (x + d) + sum_list (take n ds)" if "n \<le> length ds" for n
    using Cons.prems [of "Suc n"] that by (simp add: add.assoc)
  from first have "floored_sum x (d # ds) = floored_sum (x + d) ds" by simp
  also have "\<dots> = (x + d) + sum_list ds" using rest by (rule Cons.IH)
  finally show ?case by simp
qed

lemma stat_step:
  "i < 5 \<Longrightarrow> player_stats (apply_lineup_diff new old p) ! i
      = max 0 (player_stats p ! i + (lineup_stats new ! i - lineup_stats old ! i))"
proof -
  assume "i < 5"
  then consider "i = 0" | "i = 1" | "i = 2" | "i = 3" | "i = 4" by linarith
  then show ?thesis
    by cases (simp_all add: player_stats_def lineup_stats_def apply_lineup_diff_def Let_def)
qed

lemma propagate_floored:
  "i < 5 \<Longrightarrow> player_stats (propagate p es) ! i = floored_sum (player_stats p ! i) (deltas i es)"
proof (induction es arbitrary: p)
  case Nil
  then show ?case by (simp add: propagate_def deltas_def)
next
  case (Cons e es)
  obtain old new where e: "e = (old, new)" by (cases e)
  have "propagate p (e # es) = propagate (apply_lineup_diff new old p) es"
    by (simp add: propagate_def e)
  then show ?case
    using Cons.IH [OF Cons.prems, of "apply_lineup_diff new old p"] stat_step [OF Cons.prems, of new old p]
    by (simp add: deltas_def e)
qed

lemma player_stats_nonneg: "i < 5 \<Longrightarrow> 0 \<le> player_stats p ! i"
proof -
  assume "i < 5"
  then consider "i = 0" | "i = 1" | "i = 2" | "i = 3" | "i = 4" by linarith
  then show ?thesis by cases (simp_all add: player_stats_def)
qed

lemma deltas_perm: "mset es' = mset es \<Longrightarrow> sum_list (deltas i es') = sum_list (deltas i es)"
proof -
  assume "mset es' = mset es"
  then have "mset (deltas i es') = mset (deltas i es)"
    unfolding deltas_def by simp
  then have "sum_mset (mset (deltas i es')) = sum_mset (mset (deltas i es))"
    by (rule arg_cong)
  then show ?thesis by (simp only: sum_mset_sum_list)
qed

lemma map_pk_store [simp]: "map ml_pk (store u tbl) = map ml_pk tbl"
  by (induction tbl) (simp_all add: store_def)

lemma set_pk_store: "ml_pk ` set (store u tbl) = ml_pk ` set tbl"
  using map_pk_store [of u tbl] by (metis list.set_map)

lemma map_pk_set_player: "p_pk p = Some pid \<Longrightarrow> map p_pk (set_player pid p players) = map p_pk players"
  by (induction players) (simp_all add: set_player_def)

lemma set_player_same:
  "distinct (map p_pk players) \<Longrightarrow> p \<in> set players \<Longrightarrow> p_pk p = Some pid \<Longrightarrow>
   set_player pid p players = players"
proof (induction players)
  case Nil
  then show ?case by simp
next
  case (Cons a players)
  show ?case
  proof (cases "a = p")
    case True
    with Cons.prems have "\<forall>r \<in> set players. p_pk r \<noteq> Some pid" by force
    then have "set_player pid p players = players"
      by (induction players) (simp_all add: set_player_def)
    with True Cons.prems show ?thesis by (simp add: set_player_def)
  next
    case False
    with Cons.prems have "p \<in> set players" by simp
    with Cons.prems have "p_pk a \<noteq> Some pid" by force
    moreover from Cons \<open>p \<in> set players\<close> have "set_player pid p players = players" by simp
    ultimately show ?thesis by (simp add: set_player_def)
  qed
qed

lemma set_player_twice:
  "p_pk p = Some pid \<Longrightarrow> set_player pid q (set_player pid p players) = set_player pid q players"
  by (induction players) (simp_all add: set_player_def)

lemma set_player_mem:
  "p \<in> set players \<Longrightarrow> p_pk p = Some pid \<Longrightarrow> q \<in> set (set_player pid q players)"
  by (induction players) (auto simp: set_player_def)

lemma objects_get_unique:
  "distinct (map f tbl) \<Longrightarrow> x \<in> set tbl \<Longrightarrow> objects_get (\<lambda>r. f r = f x) tbl = Inr x"
proof -
  assume d: "distinct (map f tbl)" and x: "x \<in> set tbl"
  from filter_key_distinct [OF d, of "f x"] x
  obtain y where y: "filter (\<lambda>r. f r = f x) tbl = [y]"
    by (auto simp: filter_empty_conv)
  from x have "x \<in> set (filter (\<lambda>r. f r = f x) tbl)" by simp
  with y have "x = y" by simp
  with y show ?thesis by (simp add: objects_get_def)
qed

lemma clean_depends:
  "p_team q = p_team p \<Longrightarrow> p_is_main_player q = p_is_main_player p \<Longrightarrow> p_pk q = p_pk p \<Longrightarrow>
   Player_clean q players = Player_clean p players"
  by (simp add: Player_clean_def)

lemma others_after_set_player:
  "filter (\<lambda>r. P r \<and> p_pk r \<noteq> Some pid) (set_player pid q players)
     = filter (\<lambda>r. P r \<and> p_pk r \<noteq> Some pid) players" if "p_pk q = Some pid"
  using that by (induction players) (simp_all add: set_player_def)

lemma clean_after_set_player:
  assumes "p_pk p = Some pid" and "p_pk q = Some pid"
  shows "Player_clean p (set_player pid q players) = Player_clean p players"
proof -
  have "filter (\<lambda>r. (p_team r = p_team p \<and> p_is_main_player r \<and> p_is_active r) \<and> p_pk r \<noteq> Some pid)
          (set_player pid q players)
      = filter (\<lambda>r. (p_team r = p_team p \<and> p_is_main_player r \<and> p_is_active r) \<and> p_pk r \<noteq> Some pid)
          players"
    using assms(2) by (rule others_after_set_player)
  then show ?thesis
    by (simp add: Player_clean_def assms(1) conj_assoc)
qed

lemma apply_lineup_diff_keeps:
  "p_pk (apply_lineup_diff u old p) = p_pk p"
  "p_team (apply_lineup_diff u old p) = p_team p"
  "p_is_main_player (apply_lineup_diff u old p) = p_is_main_player p"
  by (simp_all add: apply_lineup_diff_def Let_def)

lemma write_player_existing:
  assumes "p \<in> set players" and "p_pk p = Some pid" and "p_pk q = Some pid"
  shows "write_row p_pk (\<lambda>k p. p\<lparr>p_pk := k\<rparr>) q players = set_player pid q players"
  using assms by (auto simp: write_row_def set_player_def)

lemma write_lineup_existing:
  assumes "ml_pk u \<noteq> None" and "ml_pk u \<in> ml_pk ` set lineups"
  shows "write_row ml_pk (\<lambda>k l. l\<lparr>ml_pk := k\<rparr>) u lineups = store u lineups"
proof -
  from assms obtain k where k: "ml_pk u = Some k" by auto
  with assms(2) have "\<exists>r \<in> set lineups. ml_pk r = Some k" by force
  with k show ?thesis by (simp add: write_row_def store_def)
qed

lemma save_step:
  assumes ok: "stat_db_ok pid lineups players p"
    and u: "existing_update pid lineups u"
  shows "\<exists>old. filter (\<lambda>l. ml_pk l = ml_pk u) lineups = [old] \<and>
           MatchLineup_save u (lineups, players)
             = Inr (store u lineups, set_player pid (apply_lineup_diff u old p) players) \<and>
           stat_db_ok pid (store u lineups) (set_player pid (apply_lineup_diff u old p) players)
             (apply_lineup_diff u old p)"
proof -
  from ok have dl: "distinct (map ml_pk lineups)" and dp: "distinct (map p_pk players)"
    and pin: "p \<in> set players" and ppk: "p_pk p = Some pid"
    and cl: "Player_clean p players = Inr ()"
    by (simp_all add: stat_db_ok_def)
  from u have pl: "ml_player u = pid" and nn: "ml_pk u \<noteq> None"
    and ex: "ml_pk u \<in> ml_pk ` set lineups"
    by (simp_all add: existing_update_def)
  from nn obtain k where k: "ml_pk u = Some k" by (cases "ml_pk u") simp_all
  from ex obtain old where oin: "old \<in> set lineups" and opk: "ml_pk old = ml_pk u" by force
  from filter_key_distinct [OF dl, of "ml_pk u"] oin opk
  obtain y where y: "filter (\<lambda>l. ml_pk l = ml_pk u) lineups = [y]"
    by (auto simp: filter_empty_conv)
  from oin opk have "old \<in> set (filter (\<lambda>l. ml_pk l = ml_pk u) lineups)" by simp
  with y have "y = old" by simp
  with y have f: "filter (\<lambda>l. ml_pk l = ml_pk u) lineups = [old]" by simp
  then have g1: "objects_get (\<lambda>l. ml_pk l = Some k) lineups = Inr old"
    by (simp add: objects_get_def k)
  have g2: "objects_get (\<lambda>r. p_pk r = Some (ml_player u)) players = Inr p"
    using objects_get_unique [OF dp pin] by (simp add: ppk pl)
  let ?q = "apply_lineup_diff u old p"
  have qpk: "p_pk ?q = Some pid" by (simp add: apply_lineup_diff_keeps ppk)
  have "Player_clean ?q players = Player_clean p players"
    by (rule clean_depends) (simp_all add: apply_lineup_diff_keeps)
  with cl have cq: "Player_clean ?q players = Inr ()" by simp
  then have sv: "Player_save ?q players = Inr (set_player pid ?q players)"
    by (simp add: Player_save_def write_player_existing [OF pin ppk qpk])
  have recv: "update_player_stats_on_lineup_change u lineups players = Inr (set_player pid ?q players)"
    by (simp add: update_player_stats_on_lineup_change_def k g1 g2 sv)
  have wl: "write_row ml_pk (\<lambda>k l. l\<lparr>ml_pk := k\<rparr>) u lineups = store u lineups"
    using nn ex by (rule write_lineup_existing)
  have res: "MatchLineup_save u (lineups, players) = Inr (store u lineups, set_player pid ?q players)"
    by (simp add: MatchLineup_save_def recv wl)
  have "Player_clean ?q (set_player pid ?q players) = Player_clean ?q players"
    using qpk qpk by (rule clean_after_set_player)
  with cq have "Player_clean ?q (set_player pid ?q players) = Inr ()" by simp
  moreover have "distinct (map p_pk (set_player pid ?q players))"
    using dp by (simp add: map_pk_set_player [OF qpk])
  moreover have "?q \<in> set (set_player pid ?q players)"
    using pin ppk by (rule set_player_mem)
  moreover have "distinct (map ml_pk (store u lineups))" using dl by simp
  ultimately have "stat_db_ok pid (store u lineups) (set_player pid ?q players) ?q"
    by (simp add: stat_db_ok_def qpk)
  with f res show ?thesis by blast
qed

lemma existing_update_store: "existing_update pid (store v lineups) u = existing_update pid lineups u"
  by (simp add: existing_update_def set_pk_store)

lemma save_lineups_run:
  assumes "stat_db_ok pid lineups players p"
    and "\<forall>u \<in> set us. existing_update pid lineups u"
  shows "save_lineups us (lineups, players)
           = Inr (foldl (\<lambda>tbl u. store u tbl) lineups us,
                  set_player pid (propagate p (stored_and_new lineups us)) players)"
  using assms
proof (induction us arbitrary: lineups players p)
  case Nil
  then have "set_player pid p players = players"
    by (intro set_player_same) (simp_all add: stat_db_ok_def)
  then show ?case by (simp add: propagate_def)
next
  case (Cons u us)
  from Cons.prems have u: "existing_update pid lineups u" by simp
  from save_step [OF Cons.prems(1) u]
  obtain old where f: "filter (\<lambda>l. ml_pk l = ml_pk u) lineups = [old]"
    and step: "MatchLineup_save u (lineups, players)
             = Inr (store u lineups, set_player pid (apply_lineup_diff u old p) players)"
    and ok': "stat_db_ok pid (store u lineups) (set_player pid (apply_lineup_diff u old p) players)
             (apply_lineup_diff u old p)"
    by blast
  from Cons.prems have rest: "\<forall>v \<in> set us. existing_update pid (store u lineups) v"
    by (simp add: existing_update_store)
  from ok' have qpk: "p_pk (apply_lineup_diff u old p) = Some pid" by (simp add: stat_db_ok_def)
  have pr: "propagate p (stored_and_new lineups (u # us))
      = propagate (apply_lineup_diff u old p) (stored_and_new (store u lineups) us)"
    by (simp add: f propagate_def)
  from Cons.IH [OF ok' rest] step
  have "save_lineups (u # us) (lineups, players)
      = Inr (foldl (\<lambda>tbl u. store u tbl) (store u lineups) us,
             set_player pid (propagate (apply_lineup_diff u old p) (stored_and_new (store u lineups) us))
               (set_player pid (apply_lineup_diff u old p) players))"
    by simp
  then show ?case
    by (simp only: pr set_player_twice [OF qpk] foldl_Cons)
qed

lemma filter_store_other:
  "k \<noteq> ml_pk u \<Longrightarrow> filter (\<lambda>l. ml_pk l = k) (store u tbl) = filter (\<lambda>l. ml_pk l = k) tbl"
  by (induction tbl) (auto simp: store_def)

lemma stored_and_new_distinct:
  "distinct (map ml_pk us) \<Longrightarrow>
   stored_and_new tbl us
     = concat (map (\<lambda>u. map (\<lambda>l. (l, u)) (filter (\<lambda>l. ml_pk l = ml_pk u) tbl)) us)"
proof (induction us arbitrary: tbl)
  case Nil
  then show ?case by simp
next
  case (Cons u us)
  from Cons.prems have d: "distinct (map ml_pk us)" and notin: "ml_pk u \<notin> ml_pk ` set us"
    by simp_all
  have nu: "\<forall>v \<in> set us. ml_pk v \<noteq> ml_pk u"
  proof
    fix v assume "v \<in> set us"
    then have "ml_pk v \<in> ml_pk ` set us" by (rule imageI)
    with notin show "ml_pk v \<noteq> ml_pk u" by metis
  qed
  have "map (\<lambda>v. map (\<lambda>l. (l, v)) (filter (\<lambda>l. ml_pk l = ml_pk v) (store u tbl))) us
      = map (\<lambda>v. map (\<lambda>l. (l, v)) (filter (\<lambda>l. ml_pk l = ml_pk v) tbl)) us"
    using nu by (intro map_cong refl) (simp add: filter_store_other)
  with Cons.IH [OF d, of "store u tbl"] show ?case by simp
qed

lemma stored_and_new_perm:
  assumes "distinct (map ml_pk us)" and "mset us' = mset us"
  shows "mset (stored_and_new tbl us') = mset (stored_and_new tbl us)"
proof -
  from assms(2) have "mset (map ml_pk us') = mset (map ml_pk us)" by simp
  with assms(1) have d': "distinct (map ml_pk us')"
    using mset_eq_imp_distinct_iff by blast
  let ?g = "\<lambda>u. map (\<lambda>l. (l, u)) (filter (\<lambda>l. ml_pk l = ml_pk u) tbl)"
  have "mset (concat (map ?g us')) = sum_mset (image_mset (mset \<circ> ?g) (mset us'))"
    by (simp add: mset_concat flip: sum_mset_sum_list)
  also have "\<dots> = sum_mset (image_mset (mset \<circ> ?g) (mset us))"
    by (simp only: assms(2))
  also have "\<dots> = mset (concat (map ?g us))"
    by (simp add: mset_concat flip: sum_mset_sum_list)
  finally show ?thesis
    by (simp only: stored_and_new_distinct [OF assms(1)] stored_and_new_distinct [OF d'])
qed

lemma find_set_player:
  "p \<in> set players \<Longrightarrow> p_pk p = Some pid \<Longrightarrow> p_pk q = Some pid \<Longrightarrow>
   find (\<lambda>r. p_pk r = Some pid) (set_player pid q players) = Some q"
  by (induction players) (auto simp: set_player_def)

lemma set_player_others:
  "r \<in> set (set_player pid q players) \<Longrightarrow> p_pk r \<noteq> Some pid \<Longrightarrow> p_pk q = Some pid \<Longrightarrow>
   r \<in> set players"
  by (induction players) (auto simp: set_player_def split: if_splits)

lemma propagate_pk: "p_pk (propagate p es) = p_pk p"
  unfolding propagate_def
  by (induction es arbitrary: p) (simp_all add: apply_lineup_diff_keeps split: prod.splits)

lemma player_stats_nths: "player_stats q = map (\<lambda>i. player_stats q ! i) [0..<5]"
proof -
  have "length (player_stats q) = 5" by (simp add: player_stats_def)
  then show ?thesis by (metis map_nth)
qed

lemma career_after_run:
  assumes ok: "stat_db_ok pid lineups players p"
    and us: "\<forall>u \<in> set us. existing_update pid lineups u"
  shows "career_after pid us (lineups, players)
           = Some (map (\<lambda>i. floored_sum (player_stats p ! i) (deltas i (stored_and_new lineups us))) [0..<5])"
proof -
  let ?q = "propagate p (stored_and_new lineups us)"
  from ok have pin: "p \<in> set players" and ppk: "p_pk p = Some pid"
    by (simp_all add: stat_db_ok_def)
  have qpk: "p_pk ?q = Some pid" by (simp add: propagate_pk ppk)
  have "career_after pid us (lineups, players) = Some (player_stats ?q)"
    by (simp add: career_after_def save_lineups_run [OF ok us] find_set_player [OF pin ppk qpk])
  also have "player_stats ?q = map (\<lambda>i. player_stats ?q ! i) [0..<5]"
    by (rule player_stats_nths)
  also have "\<dots> = map (\<lambda>i. floored_sum (player_stats p ! i) (deltas i (stored_and_new lineups us))) [0..<5]"
    by (intro map_cong refl) (simp add: propagate_floored)
  finally show ?thesis .
qed

lemma floored_sum_when_ok:
  "running_totals_ok x ds \<Longrightarrow> floored_sum x ds = x + sum_list ds"
proof (rule floored_sum_exact)
  fix n assume r: "running_totals_ok x ds" and n: "n \<le> length ds"
  from n have "n < Suc (length ds)" by arith
  then have "n \<in> set [0..<Suc (length ds)]" by (simp only: set_upt atLeastLessThan_iff) simp
  with r show "0 \<le> x + sum_list (take n ds)"
    unfolding running_totals_ok_def by blast
qed

lemma all_below_five: "(\<forall>i<(5::nat). P i) \<longleftrightarrow> P 0 \<and> P 1 \<and> P 2 \<and> P 3 \<and> P 4"
proof
  assume "\<forall>i<5. P i"
  then show "P 0 \<and> P 1 \<and> P 2 \<and> P 3 \<and> P 4" by simp
next
  assume a: "P 0 \<and> P 1 \<and> P 2 \<and> P 3 \<and> P 4"
  show "\<forall>i<5. P i"
  proof (intro allI impI)
    fix i :: nat assume "i < 5"
    then consider "i = 0" | "i = 1" | "i = 2" | "i = 3" | "i = 4" by linarith
    then show "P i" using a by cases simp_all
  qed
qed

text \<open>
  C2, as amended. Start from tables with unique keys in which the player is a row whose
  save passes the roster check, and save any sequence of instances that are updates of
  existing lineup rows of the player. Then every save succeeds; the lineup table ends with
  each saved instance in the place of the row of its key; the player table keeps its keys
  and every row of another player; and each of the player's five totals (goals, assists,
  yellow cards, red cards, minutes) read from the player table is the initial total with
  the deltas (saved value minus the value stored at the moment of the save) added one by
  one in the order of the saves and floored at zero after each. That value is at least the
  initial total plus the sum of the deltas, floored at zero, and equals the initial total
  plus the sum of the deltas when no running total goes below zero. When each row is
  saved at most once, every order of the saves in which no running total goes below zero
  leaves the player with the same five totals.
\<close>

theorem stat_propagation_floors_each_step:
  "stat_db_ok pid lineups players p \<and> (\<forall>u \<in> set us. existing_update pid lineups u) \<longrightarrow>
     (\<exists>players'.
        save_lineups us (lineups, players) = Inr (foldl (\<lambda>tbl u. store u tbl) lineups us, players') \<and>
        map p_pk players' = map p_pk players \<and>
        (\<forall>r \<in> set players'. p_pk r \<noteq> Some pid \<longrightarrow> r \<in> set players)) \<and>
     career_after pid us (lineups, players)
       = Some (map (\<lambda>i. floored_sum (player_stats p ! i) (deltas i (stored_and_new lineups us))) [0..<5]) \<and>
     (\<forall>i < 5.
        max 0 (player_stats p ! i + sum_list (deltas i (stored_and_new lineups us)))
          \<le> floored_sum (player_stats p ! i) (deltas i (stored_and_new lineups us)) \<and>
        (running_totals_ok (player_stats p ! i) (deltas i (stored_and_new lineups us)) \<longrightarrow>
           floored_sum (player_stats p ! i) (deltas i (stored_and_new lineups us))
             = player_stats p ! i + sum_list (deltas i (stored_and_new lineups us)))) \<and>
     (\<forall>us'. distinct (map ml_pk us) \<and> mset us' = mset us \<and>
            (\<forall>i < 5. running_totals_ok (player_stats p ! i) (deltas i (stored_and_new lineups us)) \<and>
                     running_totals_ok (player_stats p ! i) (deltas i (stored_and_new lineups us'))) \<longrightarrow>
            career_after pid us' (lineups, players) = career_after pid us (lineups, players))"
proof (intro impI)
  assume h: "stat_db_ok pid lineups players p \<and> (\<forall>u \<in> set us. existing_update pid lineups u)"
  then have ok: "stat_db_ok pid lineups players p"
    and us: "\<forall>u \<in> set us. existing_update pid lineups u"
    by simp_all
  let ?es = "stored_and_new lineups us"
  let ?q = "propagate p ?es"
  from ok have ppk: "p_pk p = Some pid" by (simp add: stat_db_ok_def)
  have qpk: "p_pk ?q = Some pid" by (simp add: propagate_pk ppk)
  have a: "\<exists>players'.
        save_lineups us (lineups, players) = Inr (foldl (\<lambda>tbl u. store u tbl) lineups us, players') \<and>
        map p_pk players' = map p_pk players \<and>
        (\<forall>r \<in> set players'. p_pk r \<noteq> Some pid \<longrightarrow> r \<in> set players)"
  proof (intro exI conjI)
    show "save_lineups us (lineups, players)
        = Inr (foldl (\<lambda>tbl u. store u tbl) lineups us, set_player pid ?q players)"
      using ok us by (rule save_lineups_run)
    show "map p_pk (set_player pid ?q players) = map p_pk players"
      using qpk by (rule map_pk_set_player)
    show "\<forall>r \<in> set (set_player pid ?q players). p_pk r \<noteq> Some pid \<longrightarrow> r \<in> set players"
      using qpk by (blast intro: set_player_others)
  qed
  have b: "career_after pid us (lineups, players)
       = Some (map (\<lambda>i. floored_sum (player_stats p ! i) (deltas i ?es)) [0..<5])"
    using ok us by (rule career_after_run)
  have c: "\<forall>i < 5.
        max 0 (player_stats p ! i + sum_list (deltas i ?es))
          \<le> floored_sum (player_stats p ! i) (deltas i ?es) \<and>
        (running_totals_ok (player_stats p ! i) (deltas i ?es) \<longrightarrow>
           floored_sum (player_stats p ! i) (deltas i ?es)
             = player_stats p ! i + sum_list (deltas i ?es))"
  proof (intro allI impI conjI)
    fix i :: nat assume i: "i < 5"
    have "0 \<le> floored_sum (player_stats p ! i) (deltas i ?es)"
      using player_stats_nonneg [OF i] by (rule floored_sum_nonneg)
    then show "max 0 (player_stats p ! i + sum_list (deltas i ?es))
          \<le> floored_sum (player_stats p ! i) (deltas i ?es)"
      using floored_sum_ge_sum [of "player_stats p ! i" "deltas i ?es"] by simp
  next
    fix i :: nat
    assume "running_totals_ok (player_stats p ! i) (deltas i ?es)"
    then show "floored_sum (player_stats p ! i) (deltas i ?es)
             = player_stats p ! i + sum_list (deltas i ?es)"
      by (rule floored_sum_when_ok)
  qed
  have d: "\<forall>us'. distinct (map ml_pk us) \<and> mset us' = mset us \<and>
            (\<forall>i < 5. running_totals_ok (player_stats p ! i) (deltas i ?es) \<and>
                     running_totals_ok (player_stats p ! i) (deltas i (stored_and_new lineups us'))) \<longrightarrow>
            career_after pid us' (lineups, players) = career_after pid us (lineups, players)"
  proof (intro allI impI)
    fix us'
    assume g: "distinct (map ml_pk us) \<and> mset us' = mset us \<and>
            (\<forall>i < 5. running_totals_ok (player_stats p ! i) (deltas i ?es) \<and>
                     running_totals_ok (player_stats p ! i) (deltas i (stored_and_new lineups us')))"
    let ?es' = "stored_and_new lineups us'"
    from g have dist: "distinct (map ml_pk us)" and perm: "mset us' = mset us" by simp_all
    from perm have "set us' = set us" by (rule mset_eq_setD)
    with us have us': "\<forall>u \<in> set us'. existing_update pid lineups u" by simp
    have pe: "mset ?es' = mset ?es" using dist perm by (rule stored_and_new_perm)
    have "map (\<lambda>i. floored_sum (player_stats p ! i) (deltas i ?es')) [0..<5]
        = map (\<lambda>i. floored_sum (player_stats p ! i) (deltas i ?es)) [0..<5]"
    proof (intro map_cong refl)
      fix i :: nat assume "i \<in> set [0..<5]"
      then have i: "i < 5" by simp
      with g have r: "running_totals_ok (player_stats p ! i) (deltas i ?es)"
        and r': "running_totals_ok (player_stats p ! i) (deltas i ?es')" by simp_all
      have "sum_list (deltas i ?es') = sum_list (deltas i ?es)"
        using pe by (rule deltas_perm)
      then show "floored_sum (player_stats p ! i) (deltas i ?es')
          = floored_sum (player_stats p ! i) (deltas i ?es)"
        by (simp add: floored_sum_when_ok [OF r] floored_sum_when_ok [OF r'])
    qed
    then show "career_after pid us' (lineups, players) = career_after pid us (lineups, players)"
      by (simp only: career_after_run [OF ok us] career_after_run [OF ok us'])
  qed
  from a b c d show "(\<exists>players'.
        save_lineups us (lineups, players) = Inr (foldl (\<lambda>tbl u. store u tbl) lineups us, players') \<and>
        map p_pk players' = map p_pk players \<and>
        (\<forall>r \<in> set players'. p_pk r \<noteq> Some pid \<longrightarrow> r \<in> set players)) \<and>
     career_after pid us (lineups, players)
       = Some (map (\<lambda>i. floored_sum (player_stats p ! i) (deltas i ?es)) [0..<5]) \<and>
     (\<forall>i < 5.
        max 0 (player_stats p ! i + sum_list (deltas i ?es))
          \<le> floored_sum (player_stats p ! i) (deltas i ?es) \<and>
        (running_totals_ok (player_stats p ! i) (deltas i ?es) \<longrightarrow>
           floored_sum (player_stats p ! i) (deltas i ?es)
             = player_stats p ! i + sum_list (deltas i ?es))) \<and>
     (\<forall>us'. distinct (map ml_pk us) \<and> mset us' = mset us \<and>
            (\<forall>i < 5. running_totals_ok (player_stats p ! i) (deltas i ?es) \<and>
                     running_totals_ok (player_stats p ! i) (deltas i (stored_and_new lineups us'))) \<longrightarrow>
            career_after pid us' (lineups, players) = career_after pid us (lineups, players))"
    by (intro conjI)
qed

theorem stat_propagation_floors_each_step_witness:
  "stat_db_ok 1 [example_lineup, example_lineup2] [example_player] example_player \<and>
   existing_update 1 [example_lineup, example_lineup2] (example_lineup\<lparr>ml_goals_scored := 5\<rparr>) \<and>
   existing_update 1 [example_lineup, example_lineup2] (example_lineup2\<lparr>ml_goals_scored := 1\<rparr>) \<and>
   distinct (map ml_pk [example_lineup\<lparr>ml_goals_scored := 5\<rparr>, example_lineup2\<lparr>ml_goals_scored := 1\<rparr>]) \<and>
   save_lineups [example_lineup\<lparr>ml_goals_scored := 5\<rparr>, example_lineup2\<lparr>ml_goals_scored := 1\<rparr>]
       ([example_lineup, example_lineup2], [example_player])
     = Inr ([example_lineup\<lparr>ml_goals_scored := 5\<rparr>, example_lineup2\<lparr>ml_goals_scored := 1\<rparr>],
            [example_player\<lparr>p_goals_scored := 4\<rparr>]) \<and>
   career_after 1 [example_lineup\<lparr>ml_goals_scored := 5\<rparr>, example_lineup2\<lparr>ml_goals_scored := 1\<rparr>]
       ([example_lineup, example_lineup2], [example_player]) = Some [4, 0, 0, 0, 0] \<and>
   career_after 1 [example_lineup2\<lparr>ml_goals_scored := 1\<rparr>, example_lineup\<lparr>ml_goals_scored := 5\<rparr>]
       ([example_lineup, example_lineup2], [example_player])
     = career_after 1 [example_lineup\<lparr>ml_goals_scored := 5\<rparr>, example_lineup2\<lparr>ml_goals_scored := 1\<rparr>]
         ([example_lineup, example_lineup2], [example_player])"
proof -
  let ?u1 = "example_lineup\<lparr>ml_goals_scored := 5\<rparr>"
  let ?u2 = "example_lineup2\<lparr>ml_goals_scored := 1\<rparr>"
  let ?ls = "[example_lineup, example_lineup2]"
  let ?ps = "[example_player]"
  have ok: "stat_db_ok 1 ?ls ?ps example_player" by code_simp
  have e1: "existing_update 1 ?ls ?u1" by code_simp
  have e2: "existing_update 1 ?ls ?u2" by code_simp
  have dist: "distinct (map ml_pk [?u1, ?u2])" by code_simp
  have perm: "mset [?u2, ?u1] = mset [?u1, ?u2]" by (simp add: add_mset_commute)
  have run: "save_lineups [?u1, ?u2] (?ls, ?ps)
     = Inr ([?u1, ?u2], [example_player\<lparr>p_goals_scored := 4\<rparr>])" by code_simp
  have car: "career_after 1 [?u1, ?u2] (?ls, ?ps) = Some [4, 0, 0, 0, 0]" by code_simp
  have tot: "\<forall>i < 5. running_totals_ok (player_stats example_player ! i)
                      (deltas i (stored_and_new ?ls [?u1, ?u2])) \<and>
                    running_totals_ok (player_stats example_player ! i)
                      (deltas i (stored_and_new ?ls [?u2, ?u1]))"
    unfolding all_below_five by code_simp
  from e1 e2 have all: "\<forall>u \<in> set [?u1, ?u2]. existing_update 1 ?ls u" by simp
  note inst = stat_propagation_floors_each_step [of 1 ?ls ?ps example_player "[?u1, ?u2]", THEN mp, OF conjI, OF ok all]
  note ord = inst [THEN conjunct2, THEN conjunct2, THEN conjunct2, THEN spec, THEN mp,
                   OF conjI, OF dist conjI, OF perm tot]
  from ok e1 e2 dist run car ord show ?thesis by (intro conjI)
qed

text \<open>
  C2 as stated fails on the code: the floor is applied after each update, not to
  the sum. Lowering a row from 2 goals to 0 and raising it back to 2, for a player with no
  career goal, leaves the player with 2 goals, where the initial total plus the deltas
  (\<open>0 - 2 + 2\<close>), floored, is 0. And the order matters: for two rows of the player, one
  lowered from 2 to 0 and one raised from 0 to 2, the player ends with 2 goals in one
  order of the two saves and with 0 in the other.
\<close>

theorem stat_sum_counterexample:
  "save_lineups [example_lineup\<lparr>ml_goals_scored := 0\<rparr>, example_lineup]
       ([example_lineup], [example_player])
     = Inr ([example_lineup], [example_player\<lparr>p_goals_scored := 2\<rparr>]) \<and>
   p_goals_scored example_player = 0 \<and>
   max 0 (int (p_goals_scored example_player) + ((int 0 - int 2) + (int 2 - int 0))) = 0 \<and>
   save_lineups [example_lineup\<lparr>ml_goals_scored := 0\<rparr>, example_lineup2\<lparr>ml_goals_scored := 2\<rparr>]
       ([example_lineup, example_lineup2], [example_player])
     = Inr ([example_lineup\<lparr>ml_goals_scored := 0\<rparr>, example_lineup2\<lparr>ml_goals_scored := 2\<rparr>],
            [example_player\<lparr>p_goals_scored := 2\<rparr>]) \<and>
   save_lineups [example_lineup2\<lparr>ml_goals_scored := 2\<rparr>, example_lineup\<lparr>ml_goals_scored := 0\<rparr>]
       ([example_lineup, example_lineup2], [example_player])
     = Inr ([example_lineup\<lparr>ml_goals_scored := 0\<rparr>, example_lineup2\<lparr>ml_goals_scored := 2\<rparr>],
            [example_player\<lparr>p_goals_scored := 0\<rparr>])"
  by code_simp

subsection \<open>C5: the roster cap\<close>

text \<open>
  \<^verbatim>\<open>Player.clean\<close> either passes or raises \<^verbatim>\<open>NameError\<close>; a save that the cap
  rejects leaves the table as it was, since nothing is written.
\<close>

lemma Player_clean_never_ValidationError:
  "Player_clean self players = Inr () \<or> Player_clean self players = Inl NameError"
  by (simp add: Player_clean_def Let_def)

lemma Player_save_rejected_unchanged:
  "p_is_main_player self \<Longrightarrow>
   11 \<le> length (filter (\<lambda>p. p_team p = p_team self \<and> p_is_main_player p \<and> p_is_active p \<and>
                              p_pk p \<noteq> p_pk self) players) \<Longrightarrow>
   Player_save self players = Inl NameError"
  by (simp add: Player_save_def Player_clean_def Let_def)

text \<open>
  C5. The claim expects a \<^verbatim>\<open>ValidationError\<close> when a twelfth main player is saved
  for a team with eleven active main players. On the code the save is refused, and the
  team keeps its eleven, but the exception is \<^verbatim>\<open>NameError\<close>: the module never imports
  \<^verbatim>\<open>ValidationError\<close>.
\<close>

theorem twelfth_main_player_raises_NameError:
  "length (filter (\<lambda>p. p_team p = 1 \<and> p_is_main_player p \<and> p_is_active p) example_roster) = 11 \<and>
   p_team example_twelfth = 1 \<and> p_is_main_player example_twelfth \<and>
   Player_clean example_twelfth example_roster = Inl NameError \<and>
   Player_save example_twelfth example_roster = Inl NameError \<and>
   Player_save example_twelfth example_roster \<noteq> Inl ValidationError"
  by code_simp

subsection \<open>C6: bulk replacement of a lineup\<close>

text \<open>No call of the bulk replacement returns a created lineup.\<close>

lemma SetMatchLineupView_post_never_succeeds:
  "fst (SetMatchLineupView_post user match_id request matches teams clubs lineups) \<noteq> Inr created"
  by (simp add: SetMatchLineupView_post_def Let_def split: sum.splits option.splits)

text \<open>
  C6. The claim expects the lineup of the pair (match, team) to equal the submitted set
  after the call and no row to be lost on failure. On the code an authorized call deletes
  the rows of the pair and then fails with \<^verbatim>\<open>NameError\<close>: for match 1 and team 1 the
  stored row is gone, nothing of the two submitted entries is inserted, and the rows of
  other matches stay.
\<close>

theorem set_lineup_loses_rows:
  "SetMatchLineupView_post (example_user 1 ''admin'' ''admin@x.org'') 1 example_set_lineup_request
      [example_global_match] example_teams example_clubs [example_lineup, example_lineup2]
     = (Inl NameError, [example_lineup2]) \<and>
   submitted_rows 1 1 example_set_lineup_request \<noteq> [] \<and>
   filter (\<lambda>l. ml_match l = 1 \<and> ml_team l = 1) [example_lineup, example_lineup2] = [example_lineup] \<and>
   filter (\<lambda>l. ml_match l = 1 \<and> ml_team l = 1) [example_lineup2] = []"
  by code_simp

subsection \<open>C7: terminal states of the match lifecycle\<close>

lemma get_object_or_404_mem:
  "get_object_or_404 P tbl = Inr x \<Longrightarrow> x \<in> set tbl \<and> P x"
proof -
  assume a: "get_object_or_404 P tbl = Inr x"
  then have "filter P tbl = [x]"
    by (auto simp: get_object_or_404_def objects_get_def split: list.splits error.splits sum.splits)
  then have "x \<in> set (filter P tbl)" by simp
  then show ?thesis by simp
qed

lemma get_object_or_404_not_validation:
  "get_object_or_404 P tbl \<noteq> Inl ValidationError"
  by (simp add: get_object_or_404_def objects_get_def split: list.splits)

lemma opt_filter:
  "(case x of None \<Rightarrow> q | Some i \<Rightarrow> filter (P i) q) = filter (\<lambda>m. \<forall>i. x = Some i \<longrightarrow> P i m) q"
  by (cases x) simp_all

lemma queryset_admin:
  assumes "u_is_authenticated user" and "is_admin_user user"
    and "m \<in> set (MatchViewSet_get_queryset user params matches tournaments teams clubs players)"
  shows "m \<in> set matches \<and> tournament_organizer tournaments (tm_tournament m) = Some (u_id user)"
proof -
  from assms(2) have ty: "u_user_type user = ''admin''" by (simp add: is_admin_user_def)
  have "MatchViewSet_get_queryset user params matches tournaments teams clubs players
      = filter (\<lambda>m. (\<forall>i. q_team params = Some i \<longrightarrow> tm_home_team m = i \<or> tm_away_team m = i))
         (filter (\<lambda>m. (\<forall>i. q_status params = Some i \<longrightarrow> tm_status m = i))
           (filter (\<lambda>m. (\<forall>i. q_phase params = Some i \<longrightarrow> map_option ph_id (tm_phase m) = Some i))
             (filter (\<lambda>m. (\<forall>i. q_group params = Some i \<longrightarrow> tm_group m = Some i))
               (filter (\<lambda>m. (\<forall>i. q_tournament params = Some i \<longrightarrow> tm_tournament m = i))
                 (filter (\<lambda>m. tournament_organizer tournaments (tm_tournament m) = Some (u_id user))
                    matches)))))"
    unfolding MatchViewSet_get_queryset_def opt_filter
    by (simp add: assms(1) ty Let_def)
  with assms(3) show ?thesis by simp
qed

lemma check_permissions_cases:
  "check_permissions user =
     (if \<not> u_is_authenticated user then Inl NotAuthenticated
      else if \<not> (is_admin_user user \<and> u_is_active user) then Inl PermissionDenied
      else Inr ())"
  by (simp add: check_permissions_def permission_denied_def IsAuthenticated_has_permission_def
      IsAdminActiveUserType_has_permission_def IsAdminActiveUserType_passes_def)

lemma get_object_cases:
  "get_object user params pk matches tournaments teams clubs players =
     (case get_object_or_404 (\<lambda>m. tm_id m = pk)
             (MatchViewSet_get_queryset user params matches tournaments teams clubs players) of
        Inl e \<Rightarrow> Inl e
      | Inr m \<Rightarrow>
          if u_is_authenticated user \<and> is_admin_user user \<and> u_is_active user then Inr m
          else Inl (permission_denied user))"
  by (auto simp: get_object_def check_object_permissions_def
      IsAdminActiveUserType_has_object_permission_def IsAdminActiveUserType_passes_def
      split: sum.splits)

lemma get_object_reached:
  assumes "get_object user params pk matches tournaments teams clubs players = Inr m"
  shows "u_is_authenticated user \<and> is_admin_user user \<and> u_is_active user \<and>
         get_object_or_404 (\<lambda>m. tm_id m = pk)
           (MatchViewSet_get_queryset user params matches tournaments teams clubs players) = Inr m"
  using assms unfolding get_object_cases by (simp split: sum.splits if_splits)

lemma organizer_of_object:
  assumes auth: "u_is_authenticated user" and adm: "is_admin_user user"
    and got: "get_object_or_404 (\<lambda>m. tm_id m = pk)
           (MatchViewSet_get_queryset user params matches tournaments teams clubs players) = Inr m"
  shows "m \<in> set matches \<and> tm_id m = pk \<and>
         (\<exists>t. find (\<lambda>t. tn_id t = tm_tournament m) tournaments = Some t \<and> tn_organizer t = u_id user)"
proof -
  from get_object_or_404_mem [OF got]
  have mem: "m \<in> set (MatchViewSet_get_queryset user params matches tournaments teams clubs players)"
    and pk: "tm_id m = pk" by simp_all
  from queryset_admin [OF auth adm mem]
  have "m \<in> set matches" and "tournament_organizer tournaments (tm_tournament m) = Some (u_id user)"
    by simp_all
  with pk show ?thesis by (auto simp: tournament_organizer_def)
qed

lemma start_match_reduced:
  "start_match user params pk matches tournaments teams clubs players =
     (if \<not> u_is_authenticated user then Inl NotAuthenticated
      else if \<not> (is_admin_user user \<and> u_is_active user) then Inl PermissionDenied
      else (case get_object_or_404 (\<lambda>m. tm_id m = pk)
                   (MatchViewSet_get_queryset user params matches tournaments teams clubs players) of
              Inl e \<Rightarrow> Inl e
            | Inr m \<Rightarrow>
                if tm_status m = ''scheduled'' then Inr (m\<lparr>tm_status := ''live''\<rparr>)
                else Inl ValidationError))"
proof (cases "u_is_authenticated user \<and> is_admin_user user \<and> u_is_active user")
  case False
  then show ?thesis
    by (auto simp: start_match_def check_permissions_cases)
next
  case True
  then have auth: "u_is_authenticated user" and adm: "is_admin_user user" by simp_all
  show ?thesis
  proof (cases "get_object_or_404 (\<lambda>m. tm_id m = pk)
                   (MatchViewSet_get_queryset user params matches tournaments teams clubs players)")
    case (Inl e)
    with True show ?thesis
      by (simp add: start_match_def check_permissions_cases get_object_cases)
  next
    case (Inr m)
    from organizer_of_object [OF auth adm Inr]
    obtain t where "find (\<lambda>t. tn_id t = tm_tournament m) tournaments = Some t"
      and "tn_organizer t = u_id user" by blast
    with True Inr show ?thesis
      by (simp add: start_match_def check_permissions_cases get_object_cases)
  qed
qed

lemma finish_match_reduced:
  "finish_match user params pk matches tournaments teams clubs players =
     (if \<not> u_is_authenticated user then Inl NotAuthenticated
      else if \<not> (is_admin_user user \<and> u_is_active user) then Inl PermissionDenied
      else (case get_object_or_404 (\<lambda>m. tm_id m = pk)
                   (MatchViewSet_get_queryset user params matches tournaments teams clubs players) of
              Inl e \<Rightarrow> Inl e
            | Inr m \<Rightarrow>
                if tm_status m = ''live'' \<or> tm_status m = ''scheduled''
                then Inr (m\<lparr>tm_status := ''finished''\<rparr>)
                else Inl ValidationError))"
proof (cases "u_is_authenticated user \<and> is_admin_user user \<and> u_is_active user")
  case False
  then show ?thesis
    by (auto simp: finish_match_def check_permissions_cases)
next
  case True
  then have auth: "u_is_authenticated user" and adm: "is_admin_user user" by simp_all
  show ?thesis
  proof (cases "get_object_or_404 (\<lambda>m. tm_id m = pk)
                   (MatchViewSet_get_queryset user params matches tournaments teams clubs players)")
    case (Inl e)
    with True show ?thesis
      by (simp add: finish_match_def check_permissions_cases get_object_cases)
  next
    case (Inr m)
    from organizer_of_object [OF auth adm Inr]
    obtain t where "find (\<lambda>t. tn_id t = tm_tournament m) tournaments = Some t"
      and "tn_organizer t = u_id user" by blast
    with True Inr show ?thesis
      by (simp add: finish_match_def check_permissions_cases get_object_cases)
  qed
qed

lemma start_match_reached:
  assumes "get_object user params pk matches tournaments teams clubs players = Inr m"
  shows "start_match user params pk matches tournaments teams clubs players =
           (if tm_status m = ''scheduled'' then Inr (m\<lparr>tm_status := ''live''\<rparr>) else Inl ValidationError)"
  using get_object_reached [OF assms] by (simp add: start_match_reduced)

lemma finish_match_reached:
  assumes "get_object user params pk matches tournaments teams clubs players = Inr m"
  shows "finish_match user params pk matches tournaments teams clubs players =
           (if tm_status m = ''live'' \<or> tm_status m = ''scheduled''
            then Inr (m\<lparr>tm_status := ''finished''\<rparr>) else Inl ValidationError)"
  using get_object_reached [OF assms] by (simp add: finish_match_reduced)

lemma start_match_not_reached:
  assumes "get_object user params pk matches tournaments teams clubs players = Inl e"
  shows "\<exists>e'. start_match user params pk matches tournaments teams clubs players = Inl e' \<and>
              e' \<noteq> ValidationError"
proof (cases "u_is_authenticated user \<and> is_admin_user user \<and> u_is_active user")
  case False
  then show ?thesis by (auto simp: start_match_reduced)
next
  case True
  with assms have "get_object_or_404 (\<lambda>m. tm_id m = pk)
        (MatchViewSet_get_queryset user params matches tournaments teams clubs players) = Inl e"
    unfolding get_object_cases by (simp split: sum.splits)
  moreover from this have "e \<noteq> ValidationError"
    using get_object_or_404_not_validation by metis
  ultimately show ?thesis using True by (simp add: start_match_reduced)
qed

lemma finish_match_not_reached:
  assumes "get_object user params pk matches tournaments teams clubs players = Inl e"
  shows "\<exists>e'. finish_match user params pk matches tournaments teams clubs players = Inl e' \<and>
              e' \<noteq> ValidationError"
proof (cases "u_is_authenticated user \<and> is_admin_user user \<and> u_is_active user")
  case False
  then show ?thesis by (auto simp: finish_match_reduced)
next
  case True
  with assms have "get_object_or_404 (\<lambda>m. tm_id m = pk)
        (MatchViewSet_get_queryset user params matches tournaments teams clubs players) = Inl e"
    unfolding get_object_cases by (simp split: sum.splits)
  moreover from this have "e \<noteq> ValidationError"
    using get_object_or_404_not_validation by metis
  ultimately show ?thesis using True by (simp add: finish_match_reduced)
qed

lemma start_match_success:
  assumes "start_match user params pk matches tournaments teams clubs players = Inr m'"
  shows "u_is_authenticated user \<and> is_admin_user user \<and> u_is_active user \<and>
         (\<exists>m \<in> set matches. tm_id m = pk \<and> tm_status m = ''scheduled'' \<and>
            tournament_organizer tournaments (tm_tournament m) = Some (u_id user) \<and>
            get_object user params pk matches tournaments teams clubs players = Inr m \<and>
            m' = m\<lparr>tm_status := ''live''\<rparr>)"
proof -
  from assms have perm: "u_is_authenticated user \<and> is_admin_user user \<and> u_is_active user"
    by (auto simp: start_match_reduced split: if_splits)
  with assms obtain m where got: "get_object_or_404 (\<lambda>m. tm_id m = pk)
        (MatchViewSet_get_queryset user params matches tournaments teams clubs players) = Inr m"
    and st: "tm_status m = ''scheduled''" and m': "m' = m\<lparr>tm_status := ''live''\<rparr>"
    by (auto simp: start_match_reduced split: sum.splits if_splits)
  from perm have auth: "u_is_authenticated user" and adm: "is_admin_user user" by simp_all
  from organizer_of_object [OF auth adm got]
  have "m \<in> set matches" and "tm_id m = pk"
    and "tournament_organizer tournaments (tm_tournament m) = Some (u_id user)"
    by (auto simp: tournament_organizer_def)
  moreover from perm got have "get_object user params pk matches tournaments teams clubs players = Inr m"
    by (simp add: get_object_cases)
  ultimately show ?thesis using perm st m' by blast
qed

lemma finish_match_success:
  assumes "finish_match user params pk matches tournaments teams clubs players = Inr m'"
  shows "u_is_authenticated user \<and> is_admin_user user \<and> u_is_active user \<and>
         (\<exists>m \<in> set matches. tm_id m = pk \<and> (tm_status m = ''live'' \<or> tm_status m = ''scheduled'') \<and>
            tournament_organizer tournaments (tm_tournament m) = Some (u_id user) \<and>
            get_object user params pk matches tournaments teams clubs players = Inr m \<and>
            m' = m\<lparr>tm_status := ''finished''\<rparr>)"
proof -
  from assms have perm: "u_is_authenticated user \<and> is_admin_user user \<and> u_is_active user"
    by (auto simp: finish_match_reduced split: if_splits)
  with assms obtain m where got: "get_object_or_404 (\<lambda>m. tm_id m = pk)
        (MatchViewSet_get_queryset user params matches tournaments teams clubs players) = Inr m"
    and st: "tm_status m = ''live'' \<or> tm_status m = ''scheduled''"
    and m': "m' = m\<lparr>tm_status := ''finished''\<rparr>"
    by (auto simp: finish_match_reduced split: sum.splits if_splits)
  from perm have auth: "u_is_authenticated user" and adm: "is_admin_user user" by simp_all
  from organizer_of_object [OF auth adm got]
  have "m \<in> set matches" and "tm_id m = pk"
    and "tournament_organizer tournaments (tm_tournament m) = Some (u_id user)"
    by (auto simp: tournament_organizer_def)
  moreover from perm got have "get_object user params pk matches tournaments teams clubs players = Inr m"
    by (simp add: get_object_cases)
  ultimately show ?thesis using perm st m' by blast
qed

lemma key_unique:
  "distinct (map f xs) \<Longrightarrow> x \<in> set xs \<Longrightarrow> y \<in> set xs \<Longrightarrow> f x = f y \<Longrightarrow> x = y"
  by (meson distinct_map inj_on_eq_iff)

lemma terminal_stays:
  assumes d: "distinct (map tm_id matches)" and m: "m \<in> set matches" and pk: "tm_id m = pk"
    and t: "terminal (tm_status m)"
  shows "(\<exists>e. start_match user params pk matches tournaments teams clubs players = Inl e) \<and>
         (\<exists>e. finish_match user params pk matches tournaments teams clubs players = Inl e)"
proof -
  from t have ns: "tm_status m \<noteq> ''scheduled''" and nl: "tm_status m \<noteq> ''live''"
    by (auto simp: terminal_def)
  have "start_match user params pk matches tournaments teams clubs players \<noteq> Inr m'" for m'
  proof
    assume "start_match user params pk matches tournaments teams clubs players = Inr m'"
    from start_match_success [OF this]
    obtain m0 where "m0 \<in> set matches" "tm_id m0 = pk" "tm_status m0 = ''scheduled''" by blast
    with key_unique [OF d m, of m0] pk ns show False by auto
  qed
  moreover have "finish_match user params pk matches tournaments teams clubs players \<noteq> Inr m'" for m'
  proof
    assume "finish_match user params pk matches tournaments teams clubs players = Inr m'"
    from finish_match_success [OF this]
    obtain m0 where "m0 \<in> set matches" "tm_id m0 = pk"
      "tm_status m0 = ''live'' \<or> tm_status m0 = ''scheduled''" by blast
    with key_unique [OF d m, of m0] pk ns nl show False by auto
  qed
  ultimately show ?thesis
    by (metis sum.exhaust)
qed

text \<open>
  C7, as amended. The actions \<open>start\<close> and \<open>finish\<close> of a tournament-scoped match
  answer an unauthenticated request with \<^verbatim>\<open>NotAuthenticated\<close>, an authenticated user
  who is not an active admin with \<^verbatim>\<open>PermissionDenied\<close>, and an active admin with the
  error of the lookup (\<^verbatim>\<open>Http404\<close> for a match outside his queryset, which holds the
  matches of the tournaments he organizes) or, for the match found, with the outcome of
  the status test alone: the permission test of the body never fails. For the match that
  \<^verbatim>\<open>get_object\<close> returns, \<open>start\<close> sets \<^verbatim>\<open>live\<close> from \<^verbatim>\<open>scheduled\<close> and is a
  validation error from every other status; \<open>finish\<close> sets \<^verbatim>\<open>finished\<close> from
  \<^verbatim>\<open>live\<close> or \<^verbatim>\<open>scheduled\<close> and is a validation error from every other status; so
  both are validation errors from \<^verbatim>\<open>finished\<close> and \<^verbatim>\<open>cancelled\<close>. A caller for whom
  \<^verbatim>\<open>get_object\<close> fails gets an error that is not a validation error. A success comes
  from an authenticated active admin, organizer of the tournament of the match of that
  key, whose status was \<^verbatim>\<open>scheduled\<close> (for \<open>finish\<close>: \<^verbatim>\<open>live\<close> or \<^verbatim>\<open>scheduled\<close>).
  Hence, keys being unique, no caller's \<open>start\<close> or \<open>finish\<close> of a finished or
  cancelled match saves anything. The management views of the global match (start,
  finish, cancel, postpone, reschedule) have no precondition on the current status: for a
  permitted caller (and a well-formed date) they set \<^verbatim>\<open>live\<close>, \<^verbatim>\<open>finished\<close>,
  \<^verbatim>\<open>cancelled\<close>, \<^verbatim>\<open>postponed\<close> and \<^verbatim>\<open>scheduled\<close> whatever the status was.
\<close>

theorem tournament_match_terminal_states:
  "start_match user params pk matches tournaments teams clubs players =
     (if \<not> u_is_authenticated user then Inl NotAuthenticated
      else if \<not> (is_admin_user user \<and> u_is_active user) then Inl PermissionDenied
      else (case get_object_or_404 (\<lambda>m. tm_id m = pk)
                   (MatchViewSet_get_queryset user params matches tournaments teams clubs players) of
              Inl e \<Rightarrow> Inl e
            | Inr m \<Rightarrow>
                if tm_status m = ''scheduled'' then Inr (m\<lparr>tm_status := ''live''\<rparr>)
                else Inl ValidationError)) \<and>
   finish_match user params pk matches tournaments teams clubs players =
     (if \<not> u_is_authenticated user then Inl NotAuthenticated
      else if \<not> (is_admin_user user \<and> u_is_active user) then Inl PermissionDenied
      else (case get_object_or_404 (\<lambda>m. tm_id m = pk)
                   (MatchViewSet_get_queryset user params matches tournaments teams clubs players) of
              Inl e \<Rightarrow> Inl e
            | Inr m \<Rightarrow>
                if tm_status m = ''live'' \<or> tm_status m = ''scheduled''
                then Inr (m\<lparr>tm_status := ''finished''\<rparr>)
                else Inl ValidationError)) \<and>
   (\<forall>m. get_object user params pk matches tournaments teams clubs players = Inr m \<longrightarrow>
      start_match user params pk matches tournaments teams clubs players =
        (if tm_status m = ''scheduled'' then Inr (m\<lparr>tm_status := ''live''\<rparr>) else Inl ValidationError) \<and>
      finish_match user params pk matches tournaments teams clubs players =
        (if tm_status m = ''live'' \<or> tm_status m = ''scheduled''
         then Inr (m\<lparr>tm_status := ''finished''\<rparr>) else Inl ValidationError) \<and>
      (terminal (tm_status m) \<longrightarrow>
         start_match user params pk matches tournaments teams clubs players = Inl ValidationError \<and>
         finish_match user params pk matches tournaments teams clubs players = Inl ValidationError)) \<and>
   (\<forall>e. get_object user params pk matches tournaments teams clubs players = Inl e \<longrightarrow>
      (\<exists>e'. start_match user params pk matches tournaments teams clubs players = Inl e' \<and>
            e' \<noteq> ValidationError) \<and>
      (\<exists>e'. finish_match user params pk matches tournaments teams clubs players = Inl e' \<and>
            e' \<noteq> ValidationError)) \<and>
   (\<forall>m'. start_match user params pk matches tournaments teams clubs players = Inr m' \<longrightarrow>
      u_is_authenticated user \<and> is_admin_user user \<and> u_is_active user \<and>
      (\<exists>m \<in> set matches. tm_id m = pk \<and> tm_status m = ''scheduled'' \<and>
         tournament_organizer tournaments (tm_tournament m) = Some (u_id user) \<and>
         get_object user params pk matches tournaments teams clubs players = Inr m \<and>
         m' = m\<lparr>tm_status := ''live''\<rparr>)) \<and>
   (\<forall>m'. finish_match user params pk matches tournaments teams clubs players = Inr m' \<longrightarrow>
      u_is_authenticated user \<and> is_admin_user user \<and> u_is_active user \<and>
      (\<exists>m \<in> set matches. tm_id m = pk \<and> (tm_status m = ''live'' \<or> tm_status m = ''scheduled'') \<and>
         tournament_organizer tournaments (tm_tournament m) = Some (u_id user) \<and>
         get_object user params pk matches tournaments teams clubs players = Inr m \<and>
         m' = m\<lparr>tm_status := ''finished''\<rparr>)) \<and>
   (\<forall>m. distinct (map tm_id matches) \<and> m \<in> set matches \<and> tm_id m = pk \<and> terminal (tm_status m) \<longrightarrow>
      (\<exists>e. start_match user params pk matches tournaments teams clubs players = Inl e) \<and>
      (\<exists>e. finish_match user params pk matches tournaments teams clubs players = Inl e)) \<and>
   (get_object_or_404 (\<lambda>g. gm_id g = i) global_matches = Inr g \<and>
    manage_permission user teams clubs g = Inr () \<longrightarrow>
      (\<exists>g'. StartMatchView_post user now teams clubs global_matches i = Inr g' \<and> gm_status g' = ''live'') \<and>
      (\<exists>g'. FinishMatchView_post user now teams clubs global_matches i = Inr g' \<and> gm_status g' = ''finished'') \<and>
      (\<exists>g'. CancelMatchView_post user teams clubs global_matches i = Inr g' \<and> gm_status g' = ''cancelled'') \<and>
      (\<exists>g'. PostponeMatchView_post user (IsoDate d) teams clubs global_matches i = Inr g' \<and>
            gm_status g' = ''postponed'') \<and>
      (\<exists>g'. RescheduleMatchView_post user (IsoDate d) teams clubs global_matches i = Inr g' \<and>
            gm_status g' = ''scheduled''))"
proof -
  let ?start = "start_match user params pk matches tournaments teams clubs players"
  let ?finish = "finish_match user params pk matches tournaments teams clubs players"
  let ?obj = "get_object user params pk matches tournaments teams clubs players"
  have reached: "\<forall>m. ?obj = Inr m \<longrightarrow>
      ?start = (if tm_status m = ''scheduled'' then Inr (m\<lparr>tm_status := ''live''\<rparr>) else Inl ValidationError) \<and>
      ?finish = (if tm_status m = ''live'' \<or> tm_status m = ''scheduled''
         then Inr (m\<lparr>tm_status := ''finished''\<rparr>) else Inl ValidationError) \<and>
      (terminal (tm_status m) \<longrightarrow> ?start = Inl ValidationError \<and> ?finish = Inl ValidationError)"
  proof (intro allI impI conjI)
    fix m assume got: "?obj = Inr m"
    show s: "?start = (if tm_status m = ''scheduled'' then Inr (m\<lparr>tm_status := ''live''\<rparr>)
                       else Inl ValidationError)"
      using got by (rule start_match_reached)
    show f: "?finish = (if tm_status m = ''live'' \<or> tm_status m = ''scheduled''
         then Inr (m\<lparr>tm_status := ''finished''\<rparr>) else Inl ValidationError)"
      using got by (rule finish_match_reached)
    assume "terminal (tm_status m)"
    then have ns: "tm_status m \<noteq> ''scheduled''" and nl: "tm_status m \<noteq> ''live''"
      by (auto simp: terminal_def)
    from s ns show "?start = Inl ValidationError" by simp
    from f ns nl show "?finish = Inl ValidationError" by simp
  qed
  have not_reached: "\<forall>e. ?obj = Inl e \<longrightarrow>
      (\<exists>e'. ?start = Inl e' \<and> e' \<noteq> ValidationError) \<and> (\<exists>e'. ?finish = Inl e' \<and> e' \<noteq> ValidationError)"
    using start_match_not_reached finish_match_not_reached by blast
  have s_ok: "\<forall>m'. ?start = Inr m' \<longrightarrow>
      u_is_authenticated user \<and> is_admin_user user \<and> u_is_active user \<and>
      (\<exists>m \<in> set matches. tm_id m = pk \<and> tm_status m = ''scheduled'' \<and>
         tournament_organizer tournaments (tm_tournament m) = Some (u_id user) \<and>
         ?obj = Inr m \<and> m' = m\<lparr>tm_status := ''live''\<rparr>)"
    using start_match_success by blast
  have f_ok: "\<forall>m'. ?finish = Inr m' \<longrightarrow>
      u_is_authenticated user \<and> is_admin_user user \<and> u_is_active user \<and>
      (\<exists>m \<in> set matches. tm_id m = pk \<and> (tm_status m = ''live'' \<or> tm_status m = ''scheduled'') \<and>
         tournament_organizer tournaments (tm_tournament m) = Some (u_id user) \<and>
         ?obj = Inr m \<and> m' = m\<lparr>tm_status := ''finished''\<rparr>)"
    using finish_match_success by blast
  have stays: "\<forall>m. distinct (map tm_id matches) \<and> m \<in> set matches \<and> tm_id m = pk \<and>
        terminal (tm_status m) \<longrightarrow> (\<exists>e. ?start = Inl e) \<and> (\<exists>e. ?finish = Inl e)"
    using terminal_stays by blast
  have general: "get_object_or_404 (\<lambda>g. gm_id g = i) global_matches = Inr g \<and>
    manage_permission user teams clubs g = Inr () \<longrightarrow>
      (\<exists>g'. StartMatchView_post user now teams clubs global_matches i = Inr g' \<and> gm_status g' = ''live'') \<and>
      (\<exists>g'. FinishMatchView_post user now teams clubs global_matches i = Inr g' \<and> gm_status g' = ''finished'') \<and>
      (\<exists>g'. CancelMatchView_post user teams clubs global_matches i = Inr g' \<and> gm_status g' = ''cancelled'') \<and>
      (\<exists>g'. PostponeMatchView_post user (IsoDate d) teams clubs global_matches i = Inr g' \<and>
            gm_status g' = ''postponed'') \<and>
      (\<exists>g'. RescheduleMatchView_post user (IsoDate d) teams clubs global_matches i = Inr g' \<and>
            gm_status g' = ''scheduled'')"
    by (simp add: StartMatchView_post_def FinishMatchView_post_def CancelMatchView_post_def
        PostponeMatchView_post_def RescheduleMatchView_post_def)
  from start_match_reduced [of user params pk matches tournaments teams clubs players]
       finish_match_reduced [of user params pk matches tournaments teams clubs players]
       reached not_reached s_ok f_ok stays general
  show ?thesis by (intro conjI)
qed


theorem tournament_match_terminal_states_witness:
  "get_object (example_user 1 ''admin'' ''admin@x.org'') no_query 1 example_lifecycle_matches
       [example_tournament] example_teams example_clubs []
     = Inr (example_group_match 1 1 2 2 1 ''finished'') \<and>
   terminal (tm_status (example_group_match 1 1 2 2 1 ''finished'')) \<and>
   start_match (example_user 1 ''admin'' ''admin@x.org'') no_query 1 example_lifecycle_matches
       [example_tournament] example_teams example_clubs [] = Inl ValidationError \<and>
   finish_match (example_user 1 ''admin'' ''admin@x.org'') no_query 1 example_lifecycle_matches
       [example_tournament] example_teams example_clubs [] = Inl ValidationError \<and>
   distinct (map tm_id example_lifecycle_matches) \<and>
   example_group_match 1 1 2 2 1 ''finished'' \<in> set example_lifecycle_matches \<and>
   (\<exists>e. start_match (example_user 2 ''staff'' ''staff@x.org'') no_query 1 example_lifecycle_matches
           [example_tournament] example_teams example_clubs [] = Inl e) \<and>
   get_object (example_user 1 ''admin'' ''admin@x.org'') no_query 3 example_lifecycle_matches
       [example_tournament] example_teams example_clubs []
     = Inr (example_group_match 3 3 1 0 0 ''postponed'') \<and>
   finish_match (example_user 1 ''admin'' ''admin@x.org'') no_query 3 example_lifecycle_matches
       [example_tournament] example_teams example_clubs [] = Inl ValidationError \<and>
   start_match (example_user 1 ''admin'' ''admin@x.org'') no_query 2 example_lifecycle_matches
       [example_tournament] example_teams example_clubs []
     = Inr (example_group_match 2 2 3 0 0 ''live'') \<and>
   (\<exists>m \<in> set example_lifecycle_matches. tm_id m = 2 \<and> tm_status m = ''scheduled'' \<and>
      example_group_match 2 2 3 0 0 ''live'' = m\<lparr>tm_status := ''live''\<rparr>) \<and>
   get_object (example_user 2 ''staff'' ''staff@x.org'') no_query 1 example_lifecycle_matches
       [example_tournament] example_teams example_clubs [] = Inl PermissionDenied \<and>
   start_match (example_user 2 ''staff'' ''staff@x.org'') no_query 1 example_lifecycle_matches
       [example_tournament] example_teams example_clubs [] = Inl PermissionDenied \<and>
   (\<exists>e'. finish_match (example_user 2 ''staff'' ''staff@x.org'') no_query 1 example_lifecycle_matches
            [example_tournament] example_teams example_clubs [] = Inl e' \<and> e' \<noteq> ValidationError) \<and>
   start_match (example_user 7 ''admin'' ''other@x.org'') no_query 1 example_lifecycle_matches
       [example_tournament] example_teams example_clubs [] = Inl Http404 \<and>
   get_object_or_404 (\<lambda>g. gm_id g = 1) [example_global_match] = Inr example_global_match \<and>
   manage_permission (example_user 1 ''admin'' ''admin@x.org'') example_teams example_clubs
     example_global_match = Inr () \<and>
   (\<exists>g'. StartMatchView_post (example_user 1 ''admin'' ''admin@x.org'') 99 example_teams example_clubs
            [example_global_match] 1 = Inr g' \<and> gm_status g' = ''live'')"
proof -
  let ?u = "example_user 1 ''admin'' ''admin@x.org''"
  let ?s = "example_user 2 ''staff'' ''staff@x.org''"
  let ?o = "example_user 7 ''admin'' ''other@x.org''"
  let ?fin = "example_group_match 1 1 2 2 1 ''finished''"
  let ?pp = "example_group_match 3 3 1 0 0 ''postponed''"
  have obj1: "get_object ?u no_query 1 example_lifecycle_matches [example_tournament]
      example_teams example_clubs [] = Inr ?fin" by code_simp
  have obj3: "get_object ?u no_query 3 example_lifecycle_matches [example_tournament]
      example_teams example_clubs [] = Inr ?pp" by code_simp
  have objs: "get_object ?s no_query 1 example_lifecycle_matches [example_tournament]
      example_teams example_clubs [] = Inl PermissionDenied" by code_simp
  have t: "terminal (tm_status ?fin)" by code_simp
  have dist: "distinct (map tm_id example_lifecycle_matches)" by code_simp
  have mem: "?fin \<in> set example_lifecycle_matches" by code_simp
  have pk1: "tm_id ?fin = 1" by code_simp
  have st3: "\<not> (tm_status ?pp = ''live'' \<or> tm_status ?pp = ''scheduled'')" by code_simp
  have run2: "start_match ?u no_query 2 example_lifecycle_matches [example_tournament]
      example_teams example_clubs [] = Inr (example_group_match 2 2 3 0 0 ''live'')" by code_simp
  have runs: "start_match ?s no_query 1 example_lifecycle_matches [example_tournament]
      example_teams example_clubs [] = Inl PermissionDenied" by code_simp
  have runo: "start_match ?o no_query 1 example_lifecycle_matches [example_tournament]
      example_teams example_clubs [] = Inl Http404" by code_simp
  have got: "get_object_or_404 (\<lambda>g. gm_id g = 1) [example_global_match] = Inr example_global_match"
    by code_simp
  have perm: "manage_permission ?u example_teams example_clubs example_global_match = Inr ()"
    by code_simp
  note at1 = tournament_match_terminal_states
    [of ?u no_query 1 example_lifecycle_matches "[example_tournament]" example_teams example_clubs "[]"
        1 "[example_global_match]" example_global_match 99 0]
  note at3 = tournament_match_terminal_states
    [of ?u no_query 3 example_lifecycle_matches "[example_tournament]" example_teams example_clubs "[]"
        1 "[example_global_match]" example_global_match 99 0]
  note at2 = tournament_match_terminal_states
    [of ?u no_query 2 example_lifecycle_matches "[example_tournament]" example_teams example_clubs "[]"
        1 "[example_global_match]" example_global_match 99 0]
  note ats = tournament_match_terminal_states
    [of ?s no_query 1 example_lifecycle_matches "[example_tournament]" example_teams example_clubs "[]"
        1 "[example_global_match]" example_global_match 99 0]
  note reached1 = at1 [THEN conjunct2, THEN conjunct2, THEN conjunct1, THEN spec, THEN mp, OF obj1]
  note term1 = reached1 [THEN conjunct2, THEN conjunct2, THEN mp, OF t]
  note reached3 = at3 [THEN conjunct2, THEN conjunct2, THEN conjunct1, THEN spec, THEN mp, OF obj3]
  from reached3 [THEN conjunct2, THEN conjunct1] st3
  have fin3: "finish_match ?u no_query 3 example_lifecycle_matches [example_tournament]
      example_teams example_clubs [] = Inl ValidationError" by (simp only: if_False)
  note ok2 = at2 [THEN conjunct2, THEN conjunct2, THEN conjunct2, THEN conjunct2, THEN conjunct1,
                  THEN spec, THEN mp, OF run2]
  from ok2 have ex2: "\<exists>m \<in> set example_lifecycle_matches. tm_id m = 2 \<and> tm_status m = ''scheduled'' \<and>
      example_group_match 2 2 3 0 0 ''live'' = m\<lparr>tm_status := ''live''\<rparr>" by blast
  note nr = ats [THEN conjunct2, THEN conjunct2, THEN conjunct2, THEN conjunct1, THEN spec, THEN mp,
                 OF objs, THEN conjunct2]
  note stay = ats [THEN conjunct2, THEN conjunct2, THEN conjunct2, THEN conjunct2, THEN conjunct2,
                   THEN conjunct2, THEN conjunct1, THEN spec, THEN mp, OF conjI, OF dist conjI,
                   OF mem conjI, OF pk1 t, THEN conjunct1]
  note gen = at1 [THEN conjunct2, THEN conjunct2, THEN conjunct2, THEN conjunct2, THEN conjunct2,
                  THEN conjunct2, THEN conjunct2, THEN mp, OF conjI, OF got perm, THEN conjunct1]
  note start1 = term1 [THEN conjunct1]
  note finish1 = term1 [THEN conjunct2]
  from obj1 t start1 finish1 dist mem stay obj3 fin3 run2 ex2 objs runs nr runo got perm gen
  show ?thesis by (intro conjI)
qed

text \<open>
  C7 as stated fails on the code: a finished global match is set to \<^verbatim>\<open>live\<close>
  by the start view and to \<^verbatim>\<open>cancelled\<close> by the cancel view.
\<close>

theorem general_start_leaves_finished_counterexample:
  "gm_status example_global_match = ''finished'' \<and>
   StartMatchView_post (example_user 1 ''admin'' ''admin@x.org'') 99 example_teams example_clubs
       [example_global_match] 1
     = Inr (example_global_match\<lparr> gm_actual_start_time := Some 99, gm_status := ''live'',
                                  gm_last_updated_by := Some 1 \<rparr>) \<and>
   CancelMatchView_post (example_user 1 ''admin'' ''admin@x.org'') example_teams example_clubs
       [example_global_match] 1
     = Inr (example_global_match\<lparr> gm_status := ''cancelled'', gm_last_updated_by := Some 1 \<rparr>)"
  by (simp add: StartMatchView_post_def CancelMatchView_post_def get_object_or_404_def objects_get_def
      manage_permission_def example_user_def example_global_match_def)

subsection \<open>C8: events and the lineup counters\<close>

text \<open>
  The creation through \<^verbatim>\<open>MatchEventViewSet\<close> does what the claim says: the counter of
  the event's type goes up by one on the row found, and without a row the event is
  recorded and nothing else changes.
\<close>

lemma update_lineup_for_event_counters:
  "update_lineup_for_event ''goal'' l = l\<lparr>ml_goals_scored := ml_goals_scored l + 1\<rparr>"
  "update_lineup_for_event ''penalty_goal'' l = l\<lparr>ml_goals_scored := ml_goals_scored l + 1\<rparr>"
  "update_lineup_for_event ''yellow_card'' l = l\<lparr>ml_yellow_cards := ml_yellow_cards l + 1\<rparr>"
  "update_lineup_for_event ''red_card'' l = l\<lparr>ml_red_cards := ml_red_cards l + 1\<rparr>"
  by (simp_all add: update_lineup_for_event_def)

lemma perform_create_updates_lineup:
  assumes "find (\<lambda>t. t_id t = ev_team data) teams = Some team"
    and "team_permission user teams clubs team = Inr ()"
    and "objects_get (\<lambda>l. ml_match l = ev_match data \<and> ml_player l = ev_player data \<and>
                          ml_team l = ev_team data) lineups = Inr lineup"
    and "MatchLineup_save (update_lineup_for_event (ev_event_type data) lineup) (lineups, players)
           = Inr (lineups', players')"
  shows "MatchEventViewSet_perform_create user data teams clubs (events, lineups, players)
           = (Inr (), (write_row ev_pk (\<lambda>k e. e\<lparr>ev_pk := k\<rparr>)
                          (data\<lparr>ev_created_by := Some (u_id user)\<rparr>) events,
                       lineups', players'))"
  using assms by (simp add: MatchEventViewSet_perform_create_def Let_def)

lemma perform_create_without_lineup:
  assumes "find (\<lambda>t. t_id t = ev_team data) teams = Some team"
    and "team_permission user teams clubs team = Inr ()"
    and "filter (\<lambda>l. ml_match l = ev_match data \<and> ml_player l = ev_player data \<and>
                       ml_team l = ev_team data) lineups = []"
  shows "MatchEventViewSet_perform_create user data teams clubs (events, lineups, players)
           = (Inr (), (write_row ev_pk (\<lambda>k e. e\<lparr>ev_pk := k\<rparr>)
                          (data\<lparr>ev_created_by := Some (u_id user)\<rparr>) events,
                       lineups, players))"
  using assms by (simp add: MatchEventViewSet_perform_create_def objects_get_def Let_def)

text \<open>The nested creation never changes the lineup table.\<close>

lemma MatchEventsView_post_keeps_lineups:
  "fst (snd (snd (MatchEventsView_post user match_id request matches teams clubs (events, lineups, players))))
     = lineups"
  by (simp add: MatchEventsView_post_def Let_def split: sum.splits option.splits)

text \<open>
  C8. The claim expects every created goal event to add one to \<^verbatim>\<open>goals_scored\<close> of
  the matching lineup row. A goal created through \<^verbatim>\<open>MatchEventsView.post\<close> is
  recorded, but the matching row keeps its two goals; the same event created through
  \<^verbatim>\<open>MatchEventViewSet\<close> raises the row to three (and the player's career goals by
  one).
\<close>

theorem nested_event_creation_skips_lineup:
  "MatchEventsView_post (example_user 2 ''staff'' ''s@x.org'') 1 example_goal_request
      [example_global_match] example_teams example_clubs example_match_db
     = (Inr (),
        ([example_goal\<lparr>ev_pk := Some 1, ev_created_by := Some 2\<rparr>],
         [example_lineup\<lparr>ml_team := 10\<rparr>],
         [example_player\<lparr>p_team := 10\<rparr>])) \<and>
   ml_goals_scored (example_lineup\<lparr>ml_team := 10\<rparr>) = 2 \<and>
   MatchEventViewSet_perform_create (example_user 2 ''staff'' ''s@x.org'') example_goal
      example_teams example_clubs example_match_db
     = (Inr (),
        ([example_goal\<lparr>ev_pk := Some 1, ev_created_by := Some 2\<rparr>],
         [example_lineup\<lparr>ml_team := 10, ml_goals_scored := 3\<rparr>],
         [example_player\<lparr>p_team := 10, p_goals_scored := 1\<rparr>]))"
  by code_simp

subsection \<open>C9: group membership of a match's teams\<close>

text \<open>
  The creation nested under a group verifies the membership: a match it creates has the
  group set, both teams in it, and passes \<^verbatim>\<open>Match.clean\<close>.
\<close>

lemma group_create_match_verifies_membership:
  assumes "TournamentGroupViewSet_create_match user grp tournament new_id data teams team_groups phases
             = Inr m"
  shows "tm_group m = Some (gr_id grp) \<and>
         in_group team_groups (gr_id grp) (tm_home_team m) \<and>
         in_group team_groups (gr_id grp) (tm_away_team m) \<and>
         Match_clean m team_groups = Inr ()"
proof -
  from assms obtain phase where
    v: "CreateMatchSerializer_validate data (Some grp) teams team_groups = Inr ()"
    and m: "m = create_tournament_match new_id tournament (Some (gr_id grp)) phase data"
    by (auto simp: TournamentGroupViewSet_create_match_def split: if_splits sum.splits)
  from v have "cm_home_team_id data \<noteq> cm_away_team_id data \<and>
      in_group team_groups (gr_id grp) (cm_home_team_id data) \<and>
      in_group team_groups (gr_id grp) (cm_away_team_id data)"
    by (simp add: CreateMatchSerializer_validate_def in_group_def Let_def split: if_splits)
  with m show ?thesis
    by (simp add: create_tournament_match_def Match_clean_def in_group_def Let_def)
qed

text \<open>
  C9. The claim expects every creation path that sets a group to verify that both teams
  are members of it, or to reject the request. The creation nested under a tournament
  passes no group to the serializer and never calls \<^verbatim>\<open>clean\<close>: the organizer's
  request for a match in group 1 between teams 4 and 10, neither a member of group 1, is
  created with the group set. \<^verbatim>\<open>Match.clean\<close> rejects the created match, and the
  creation nested under the group rejects the same request.
\<close>

theorem tournament_create_match_skips_membership:
  "TournamentViewSet_create_match (example_user 1 ''admin'' ''admin@x.org'') example_tournament 9
      example_create_request example_teams example_team_groups example_groups []
     = Inr \<lparr> tm_id = 9, tm_tournament = 1, tm_group = Some 1, tm_phase = None,
             tm_home_team = 4, tm_away_team = 10, tm_match_date = 7, tm_venue = [],
             tm_home_score = 0, tm_away_score = 0, tm_status = ''scheduled'',
             tm_match_number = None, tm_round_number = 1 \<rparr> \<and>
   \<not> in_group example_team_groups 1 4 \<and>
   \<not> in_group example_team_groups 1 10 \<and>
   Match_clean \<lparr> tm_id = 9, tm_tournament = 1, tm_group = Some 1, tm_phase = None,
             tm_home_team = 4, tm_away_team = 10, tm_match_date = 7, tm_venue = [],
             tm_home_score = 0, tm_away_score = 0, tm_status = ''scheduled'',
             tm_match_number = None, tm_round_number = 1 \<rparr> example_team_groups
     = Inl ValidationError \<and>
   TournamentGroupViewSet_create_match (example_user 1 ''admin'' ''admin@x.org'')
      \<lparr> gr_id = 1, gr_tournament = 1 \<rparr> example_tournament 9
      example_create_request example_teams example_team_groups []
     = Inl ValidationError"
  by code_simp

subsection \<open>C4: the matches a parent sees\<close>

lemma set_order [simp]: "set (order_by_scheduled_date_desc ms) = set ms"
  by (simp add: order_by_scheduled_date_desc_def)

lemma followed_ids:
  "set (map t_id (filter (\<lambda>t. u_id user \<in> set (t_followers t)) teams)) = followed_teams user teams"
  by (auto simp: followed_teams_def)

lemma first_parent_ids:
  "set (map p_team (filter (\<lambda>p. p_parent_email p = u_email user) players)) = first_parent_teams user players"
  by (auto simp: first_parent_teams_def)

lemma parent_ids:
  "set (map p_team (filter (\<lambda>p. p_parent_email p = u_email user \<or> p_parent2_email p = u_email user) players))
     = parent_teams user players"
  by (auto simp: parent_teams_def)

lemma first_parent_subset: "first_parent_teams user players \<subseteq> parent_teams user players"
  by (auto simp: first_parent_teams_def parent_teams_def)

lemma parent_allowed_matches_set:
  "set (parent_allowed_matches user matches teams players) =
     {m \<in> set matches.
        gm_home_team m \<in> followed_teams user teams \<union>
            (if u_email user \<noteq> [] then first_parent_teams user players else {}) \<or>
        gm_away_team m \<in> followed_teams user teams \<union>
            (if u_email user \<noteq> [] then first_parent_teams user players else {})}"
  unfolding parent_allowed_matches_def Let_def
  by (simp only: set_order set_filter set_remdups set_append followed_ids first_parent_ids
      if_distrib [of set] split: if_splits) auto

lemma parent_queryset_set:
  assumes "u_is_authenticated user" and "u_user_type user = ''parent''" and "u_email user \<noteq> []"
  shows "set (MatchViewSet_get_queryset user no_query tmatches tournaments teams clubs players) =
     {m \<in> set tmatches.
        tm_home_team m \<in> followed_teams user teams \<union> parent_teams user players \<or>
        tm_away_team m \<in> followed_teams user teams \<union> parent_teams user players}"
proof -
  have "MatchViewSet_get_queryset user no_query tmatches tournaments teams clubs players =
      filter (\<lambda>m. tm_home_team m \<in> set (remdups (map t_id (filter (\<lambda>t. u_id user \<in> set (t_followers t)) teams) @
                       map p_team (filter (\<lambda>p. p_parent_email p = u_email user \<or>
                                                 p_parent2_email p = u_email user) players))) \<or>
                   tm_away_team m \<in> set (remdups (map t_id (filter (\<lambda>t. u_id user \<in> set (t_followers t)) teams) @
                       map p_team (filter (\<lambda>p. p_parent_email p = u_email user \<or>
                                                 p_parent2_email p = u_email user) players))))
        tmatches"
    using assms by (simp add: MatchViewSet_get_queryset_def no_query_def Let_def)
  then show ?thesis
    by (simp only: set_filter set_remdups set_append followed_ids parent_ids)
qed

lemma parent_without_team_allowed:
  assumes "u_is_authenticated user" and "u_user_type user = ''parent''"
    and "coached_teams user teams = []"
  shows "get_user_allowed_matches user matches teams clubs players
           = parent_allowed_matches user matches teams players"
  using assms by (simp add: get_user_allowed_matches_def Let_def)

lemma coaching_parent_allowed:
  assumes "u_is_authenticated user" and "u_user_type user = ''parent''"
    and "coached_teams user teams \<noteq> []"
  shows "set (get_user_allowed_matches user matches teams clubs players) =
     {m \<in> set matches.
        gm_home_team m \<in> t_id ` set (coached_teams user teams) \<or>
        gm_away_team m \<in> t_id ` set (coached_teams user teams)}"
  using assms by (simp add: get_user_allowed_matches_def Let_def)

text \<open>
  C4, as amended. For an authenticated user of type parent with an email: the resolver of
  the tournament matches, without query parameters, returns exactly the matches in which
  either side's team is followed by the user or is the team of a player whose first or
  second parent email is the user's. The resolver of the global matches, for such a user
  who coaches no team, returns no match outside that set, and returns every match in which
  either side's team is followed by the user or is the team of a player whose first parent
  email is the user's; for such a user who coaches a team it returns exactly the matches
  of the coached teams.
\<close>

theorem parent_visibility:
  "u_is_authenticated user \<and> u_user_type user = ''parent'' \<and> u_email user \<noteq> [] \<longrightarrow>
     set (MatchViewSet_get_queryset user no_query tmatches tournaments teams clubs players) =
       {m \<in> set tmatches.
          tm_home_team m \<in> followed_teams user teams \<union> parent_teams user players \<or>
          tm_away_team m \<in> followed_teams user teams \<union> parent_teams user players} \<and>
     (coached_teams user teams = [] \<longrightarrow>
        set (get_user_allowed_matches user matches teams clubs players) \<subseteq>
          {m \<in> set matches.
             gm_home_team m \<in> followed_teams user teams \<union> parent_teams user players \<or>
             gm_away_team m \<in> followed_teams user teams \<union> parent_teams user players} \<and>
        {m \<in> set matches.
             gm_home_team m \<in> followed_teams user teams \<union> first_parent_teams user players \<or>
             gm_away_team m \<in> followed_teams user teams \<union> first_parent_teams user players}
          \<subseteq> set (get_user_allowed_matches user matches teams clubs players)) \<and>
     (coached_teams user teams \<noteq> [] \<longrightarrow>
        set (get_user_allowed_matches user matches teams clubs players) =
          {m \<in> set matches.
             gm_home_team m \<in> t_id ` set (coached_teams user teams) \<or>
             gm_away_team m \<in> t_id ` set (coached_teams user teams)})"
proof (intro impI conjI)
  assume a: "u_is_authenticated user \<and> u_user_type user = ''parent'' \<and> u_email user \<noteq> []"
  then show "set (MatchViewSet_get_queryset user no_query tmatches tournaments teams clubs players) =
       {m \<in> set tmatches.
          tm_home_team m \<in> followed_teams user teams \<union> parent_teams user players \<or>
          tm_away_team m \<in> followed_teams user teams \<union> parent_teams user players}"
    by (intro parent_queryset_set) simp_all
next
  assume a: "u_is_authenticated user \<and> u_user_type user = ''parent'' \<and> u_email user \<noteq> []"
    and c: "coached_teams user teams = []"
  from a c have eq: "get_user_allowed_matches user matches teams clubs players
           = parent_allowed_matches user matches teams players"
    by (intro parent_without_team_allowed) simp_all
  from a have set_eq: "set (parent_allowed_matches user matches teams players) =
     {m \<in> set matches.
        gm_home_team m \<in> followed_teams user teams \<union> first_parent_teams user players \<or>
        gm_away_team m \<in> followed_teams user teams \<union> first_parent_teams user players}"
    by (simp add: parent_allowed_matches_set)
  show "set (get_user_allowed_matches user matches teams clubs players) \<subseteq>
          {m \<in> set matches.
             gm_home_team m \<in> followed_teams user teams \<union> parent_teams user players \<or>
             gm_away_team m \<in> followed_teams user teams \<union> parent_teams user players}"
    unfolding eq set_eq using first_parent_subset [of user players] by blast
  show "{m \<in> set matches.
             gm_home_team m \<in> followed_teams user teams \<union> first_parent_teams user players \<or>
             gm_away_team m \<in> followed_teams user teams \<union> first_parent_teams user players}
          \<subseteq> set (get_user_allowed_matches user matches teams clubs players)"
    unfolding eq set_eq by (rule subset_refl)
next
  assume a: "u_is_authenticated user \<and> u_user_type user = ''parent'' \<and> u_email user \<noteq> []"
    and c: "coached_teams user teams \<noteq> []"
  then show "set (get_user_allowed_matches user matches teams clubs players) =
          {m \<in> set matches.
             gm_home_team m \<in> t_id ` set (coached_teams user teams) \<or>
             gm_away_team m \<in> t_id ` set (coached_teams user teams)}"
    by (intro coaching_parent_allowed) simp_all
qed

theorem parent_visibility_witness:
  "u_is_authenticated (example_user 6 ''parent'' ''a@x.org'') \<and>
   u_user_type (example_user 6 ''parent'' ''a@x.org'') = ''parent'' \<and>
   u_email (example_user 6 ''parent'' ''a@x.org'') \<noteq> [] \<and>
   coached_teams (example_user 6 ''parent'' ''a@x.org'') example_teams = [] \<and>
   set (MatchViewSet_get_queryset (example_user 6 ''parent'' ''a@x.org'') no_query
          example_group_matches [example_tournament] example_teams example_clubs [example_player]) =
     {m \<in> set example_group_matches.
        tm_home_team m \<in> followed_teams (example_user 6 ''parent'' ''a@x.org'') example_teams \<union>
                          parent_teams (example_user 6 ''parent'' ''a@x.org'') [example_player] \<or>
        tm_away_team m \<in> followed_teams (example_user 6 ''parent'' ''a@x.org'') example_teams \<union>
                          parent_teams (example_user 6 ''parent'' ''a@x.org'') [example_player]} \<and>
   {m \<in> set example_visible_matches.
        gm_home_team m \<in> followed_teams (example_user 6 ''parent'' ''a@x.org'') example_teams \<union>
                          first_parent_teams (example_user 6 ''parent'' ''a@x.org'') [example_player] \<or>
        gm_away_team m \<in> followed_teams (example_user 6 ''parent'' ''a@x.org'') example_teams \<union>
                          first_parent_teams (example_user 6 ''parent'' ''a@x.org'') [example_player]}
     \<subseteq> set (get_user_allowed_matches (example_user 6 ''parent'' ''a@x.org'') example_visible_matches
                example_teams example_clubs [example_player]) \<and>
   get_user_allowed_matches (example_user 6 ''parent'' ''a@x.org'') example_visible_matches
       example_teams example_clubs [example_player]
     = [example_global_match\<lparr>gm_id := 2, gm_home_team := 1, gm_away_team := 2\<rparr>] \<and>
   coached_teams (example_user 5 ''parent'' ''p@x.org'') example_teams \<noteq> [] \<and>
   set (get_user_allowed_matches (example_user 5 ''parent'' ''p@x.org'') example_visible_matches
          example_teams example_clubs [example_player]) =
     {m \<in> set example_visible_matches.
        gm_home_team m \<in> t_id ` set (coached_teams (example_user 5 ''parent'' ''p@x.org'') example_teams) \<or>
        gm_away_team m \<in> t_id ` set (coached_teams (example_user 5 ''parent'' ''p@x.org'') example_teams)}"
proof -
  let ?u6 = "example_user 6 ''parent'' ''a@x.org''"
  let ?u5 = "example_user 5 ''parent'' ''p@x.org''"
  have h6: "u_is_authenticated ?u6 \<and> u_user_type ?u6 = ''parent'' \<and> u_email ?u6 \<noteq> []"
    by (simp add: example_user_def)
  have h5: "u_is_authenticated ?u5 \<and> u_user_type ?u5 = ''parent'' \<and> u_email ?u5 \<noteq> []"
    by (simp add: example_user_def)
  have c6: "coached_teams ?u6 example_teams = []"
    by code_simp
  have c5: "coached_teams ?u5 example_teams \<noteq> []"
    by code_simp
  have ev: "get_user_allowed_matches ?u6 example_visible_matches example_teams example_clubs [example_player]
     = [example_global_match\<lparr>gm_id := 2, gm_home_team := 1, gm_away_team := 2\<rparr>]"
    by code_simp
  note i6 = parent_visibility
    [of ?u6 example_group_matches "[example_tournament]" example_teams example_clubs "[example_player]"
        example_visible_matches, THEN mp, OF h6]
  note i5 = parent_visibility
    [of ?u5 example_group_matches "[example_tournament]" example_teams example_clubs "[example_player]"
        example_visible_matches, THEN mp, OF h5]
  note a = i6 [THEN conjunct1]
  note b = i6 [THEN conjunct2, THEN conjunct1, THEN mp, OF c6, THEN conjunct2]
  note c = i5 [THEN conjunct2, THEN conjunct2, THEN mp, OF c5]
  from h6 c6 a b ev c5 c show ?thesis by (intro conjI) (erule conjunct1 conjunct2 | assumption | erule conjunct2 [THEN conjunct1] | erule conjunct2 [THEN conjunct2])+
qed

text \<open>
  C4 as stated fails on the code. User 5, a parent who follows team 1 and coaches
  team 3, gets the match of teams 3 and 4, neither of them followed or a child's team,
  and not the match of the followed team 1. User 6, a parent whose email is the second
  parent email of a player of team 1, gets no global match.
\<close>

theorem parent_visibility_counterexample:
  "u_is_authenticated (example_user 5 ''parent'' ''p@x.org'') \<and>
   u_user_type (example_user 5 ''parent'' ''p@x.org'') = ''parent'' \<and>
   get_user_allowed_matches (example_user 5 ''parent'' ''p@x.org'') example_visible_matches
       example_teams example_clubs [example_player]
     = [example_global_match\<lparr>gm_id := 3, gm_home_team := 3, gm_away_team := 4\<rparr>] \<and>
   1 \<in> followed_teams (example_user 5 ''parent'' ''p@x.org'') example_teams \<and>
   3 \<notin> followed_teams (example_user 5 ''parent'' ''p@x.org'') example_teams \<union>
        parent_teams (example_user 5 ''parent'' ''p@x.org'') [example_player] \<and>
   4 \<notin> followed_teams (example_user 5 ''parent'' ''p@x.org'') example_teams \<union>
        parent_teams (example_user 5 ''parent'' ''p@x.org'') [example_player] \<and>
   get_user_allowed_matches (example_user 6 ''parent'' ''b@x.org'') example_visible_matches
       example_teams example_clubs [example_player] = [] \<and>
   1 \<in> parent_teams (example_user 6 ''parent'' ''b@x.org'') [example_player]"
proof -
  let ?u5 = "example_user 5 ''parent'' ''p@x.org''"
  let ?u6 = "example_user 6 ''parent'' ''b@x.org''"
  have a: "u_is_authenticated ?u5 \<and> u_user_type ?u5 = ''parent''"
    by (simp add: example_user_def)
  have b: "get_user_allowed_matches ?u5 example_visible_matches example_teams example_clubs [example_player]
     = [example_global_match\<lparr>gm_id := 3, gm_home_team := 3, gm_away_team := 4\<rparr>]"
    by code_simp
  have f: "followed_teams ?u5 example_teams = {1}"
    unfolding followed_ids [symmetric] by code_simp
  have p: "parent_teams ?u5 [example_player] = {}"
    unfolding parent_ids [symmetric] by code_simp
  have e: "get_user_allowed_matches ?u6 example_visible_matches example_teams example_clubs [example_player] = []"
    by code_simp
  have q: "parent_teams ?u6 [example_player] = {1}"
    unfolding parent_ids [symmetric] by code_simp
  from a b e show ?thesis by (simp add: f p q)
qed

end
